(* ===== verification/Zaas_Prelude.thy ===== *)
theory Zaas_Prelude
  imports Main "HOL-Library.Monad_Syntax" "HOL-Library.Word"
begin

text \<open>
  What every theory of the development shares: the names of the model's basic types
  (byte strings, points of time, fallible results), Go's 64-bit \<open>int\<close> arithmetic, the
  collections the component proofs draw on, and generic facts on lists and filters.

  A Go \<open>string\<close> is a sequence of bytes; here it is a \<open>char list\<close>, and a \<open>char\<close> is one byte.
  A point of time is the number of nanoseconds since some epoch, an \<open>int\<close>.
  A Go function that returns \<open>(T, error)\<close> is modelled with result type \<open>'e + 't\<close>:
  \<open>Inl\<close> is the error, \<open>Inr\<close> the value.
\<close>

section \<open>Names and collections\<close>

type_synonym go_string = string
type_synonym time = int
type_synonym byte = "8 word"

named_theorems strings_simps \<open>rewriting of the string helpers of the Go library\<close>
named_theorems random_intros \<open>totality of the generators\<close>
named_theorems store_simps \<open>effect of the SQL statements on the tables\<close>
named_theorems http_simps \<open>projections of responses\<close>

section \<open>Durations\<close>

definition Second :: time where
  "Second = 1000000000"

definition Minute :: time where
  "Minute = 60 * Second"

definition Hour :: time where
  "Hour = 60 * Minute"

lemmas duration_defs = Second_def Minute_def Hour_def

lemma Minute_pos [simp]: "0 < Minute"
  by (simp add: duration_defs)

section \<open>Go's int: 64 bits, two's complement\<close>

text \<open>\<open>wrap64 x\<close> is what a Go \<open>int\<close> holds after an operation whose exact result is \<open>x\<close>.\<close>

definition wrap64 :: "int \<Rightarrow> int" where
  "wrap64 x = (x + 2 ^ 63) mod 2 ^ 64 - 2 ^ 63"

definition int64 :: "int \<Rightarrow> bool" where
  "int64 x \<longleftrightarrow> - (2 ^ 63) \<le> x \<and> x < 2 ^ 63"

lemma wrap64_int64 [simp]: "int64 (wrap64 x)"
  by (simp add: wrap64_def int64_def algebra_simps)

lemma wrap64_id: "int64 x \<Longrightarrow> wrap64 x = x"
  by (simp add: wrap64_def int64_def)

lemma wrap64_idem [simp]: "wrap64 (wrap64 x) = wrap64 x"
  by (simp add: wrap64_id)

text \<open>Go's integer division truncates towards zero.\<close>

definition quot :: "int \<Rightarrow> int \<Rightarrow> int" where
  "quot a b = (if 0 \<le> a then a div b else - ((- a) div b))"

lemma quot_nonneg: "0 \<le> a \<Longrightarrow> quot a b = a div b"
  by (simp add: quot_def)

section \<open>Results\<close>

definition is_ok :: "'e + 'a \<Rightarrow> bool" where
  "is_ok r = (case r of Inl _ \<Rightarrow> False | Inr _ \<Rightarrow> True)"

lemma is_ok_simps [simp]: "\<not> is_ok (Inl e)" "is_ok (Inr x)"
  by (simp_all add: is_ok_def)

lemma is_ok_iff: "is_ok r \<longleftrightarrow> (\<exists>x. r = Inr x)"
  by (cases r) auto

section \<open>Lists\<close>

lemma filter_filter_imp:
  assumes "\<And>x. x \<in> set xs \<Longrightarrow> Q x \<Longrightarrow> P x"
  shows "filter Q (filter P xs) = filter Q xs"
  using assms by (induction xs) auto

lemma length_filter_mono:
  assumes "\<And>x. x \<in> set xs \<Longrightarrow> P x \<Longrightarrow> Q x"
  shows "length (filter P xs) \<le> length (filter Q xs)"
  using assms by (induction xs) (auto simp: le_Suc_eq)

lemma list_all_nth: "list_all P xs \<longleftrightarrow> (\<forall>i < length xs. P (xs ! i))"
  by (simp add: list_all_length)

lemma map_if_distinct:
  assumes "distinct (map f xs)" "x \<in> set xs" "y \<in> set xs" "f x = f y"
  shows "x = y"
  using assms by (metis distinct_map inj_onD)

lemma find_map_key:
  assumes "\<And>x. k (g x) = k x"
  shows "find (\<lambda>x. k x = a) (map g xs) = map_option g (find (\<lambda>x. k x = a) xs)"
  using assms by (induction xs) auto

end
