(* ===== verification/Store_Postgres.thy ===== *)
theory Store_Postgres
  imports Zaas_Prelude
begin

text \<open>
  The persistence layer: the records of \<open>store/store.go\<close>, the tables of the migration, and the
  methods of \<open>store/postgres.go\<close>, each with the SQL statement it executes.  A statement is atomic;
  what the server adds to it (its clock, the generated id, whether the call goes through) is an
  argument, so that the theorems hold for every behaviour of the server.
\<close>

section \<open>Records, tables, errors\<close>

type_synonym TokenType = go_string

definition TokenTypeRegistration :: TokenType where
  "TokenTypeRegistration = ''registration''"

definition TokenTypeReissue :: TokenType where
  "TokenTypeReissue = ''reissue''"

record Client =
  client_id :: go_string
  client_email :: go_string
  DisplayName :: go_string
  APIKeyHash :: go_string
  APIKeyPrefix :: go_string
  RateLimitRPM :: int
  CreatedAt :: time
  VerifiedAt :: "time option"
  RevokedAt :: "time option"

record Token =
  token_id :: go_string
  token_email :: go_string
  TokenHash :: go_string
  token_type :: TokenType
  token_created :: time
  ExpiresAt :: time
  UsedAt :: "time option"

record database =
  clients :: "Client list"
  verification_tokens :: "Token list"

definition empty_database :: database where
  "empty_database = \<lparr>clients = [], verification_tokens = []\<rparr>"

text \<open>
  An error of the driver: no row to read, an error of the server with its SQLSTATE, or anything
  else that went wrong on the way.
\<close>

datatype pg_fault = PgError go_string go_string | ConnError go_string

datatype pg_error = ErrNoRows | PgFault pg_fault

datatype store_error =
    ErrNotFound
  | ErrAlreadyExists
  | StoreError go_string pg_error    \<comment> \<open>\<open>fmt.Errorf("<operation>: %w", err)\<close>\<close>

text \<open>
  One call of the server: its \<open>now()\<close>, its \<open>gen_random_uuid()\<close>, and whether the statement runs
  and is answered, is refused, or runs with the answer lost.
\<close>

datatype pg_delivery = Answered | Refused pg_fault | Unanswered pg_fault

record pg_call =
  pg_now :: time
  pg_uuid :: go_string
  delivery_of :: pg_delivery

definition run_statement ::
  "pg_call \<Rightarrow> (database \<Rightarrow> (pg_error + 'a) \<times> database) \<Rightarrow> database \<Rightarrow> (pg_error + 'a) \<times> database"
where
  "run_statement call stmt db =
     (case delivery_of call of
        Answered \<Rightarrow> stmt db
      | Refused e \<Rightarrow> (Inl (PgFault e), db)
      | Unanswered e \<Rightarrow> (Inl (PgFault e), snd (stmt db)))"

text \<open>A \<open>timestamptz\<close> keeps microseconds.\<close>

definition timestamptz :: "time \<Rightarrow> time" where
  "timestamptz t = 1000 * (t div 1000)"

section \<open>The statements\<close>

definition sql_insert_client :: "go_string \<Rightarrow> go_string \<Rightarrow> pg_call \<Rightarrow> database
    \<Rightarrow> (pg_error + unit) \<times> database" where
  "sql_insert_client email name call db =
     (if email \<in> set (map client_email (clients db)) \<or> pg_uuid call \<in> set (map client_id (clients db))
      then (Inl (PgFault (PgError ''23505'' ''duplicate key value violates unique constraint'')), db)
      else (Inr (), db\<lparr>clients := clients db @
        [\<lparr>client_id = pg_uuid call, client_email = email, DisplayName = name, APIKeyHash = '''',
          APIKeyPrefix = '''', RateLimitRPM = 600, CreatedAt = timestamptz (pg_now call),
          VerifiedAt = None, RevokedAt = None\<rparr>]\<rparr>))"

definition sql_select_client :: "(Client \<Rightarrow> bool) \<Rightarrow> database \<Rightarrow> (pg_error + Client) \<times> database" where
  "sql_select_client cond db =
     (case find cond (clients db) of None \<Rightarrow> (Inl ErrNoRows, db) | Some c \<Rightarrow> (Inr c, db))"

text \<open>An update of the clients that meet a condition, with the number of rows it touched.\<close>

definition sql_update_clients :: "(Client \<Rightarrow> bool) \<Rightarrow> (Client \<Rightarrow> Client) \<Rightarrow> database
    \<Rightarrow> (pg_error + nat) \<times> database" where
  "sql_update_clients cond upd db =
     (Inr (length (filter cond (clients db))),
      db\<lparr>clients := map (\<lambda>c. if cond c then upd c else c) (clients db)\<rparr>)"

definition sql_insert_token :: "go_string \<Rightarrow> go_string \<Rightarrow> go_string \<Rightarrow> time \<Rightarrow> pg_call \<Rightarrow> database
    \<Rightarrow> (pg_error + unit) \<times> database" where
  "sql_insert_token email hash ty expires call db =
     (if pg_uuid call \<in> set (map token_id (verification_tokens db))
      then (Inl (PgFault (PgError ''23505'' ''duplicate key value violates unique constraint'')), db)
      else (Inr (), db\<lparr>verification_tokens := verification_tokens db @
        [\<lparr>token_id = pg_uuid call, token_email = email, TokenHash = hash, token_type = ty,
          token_created = timestamptz (pg_now call), ExpiresAt = timestamptz expires,
          UsedAt = None\<rparr>]\<rparr>))"

text \<open>\<open>UPDATE ... RETURNING\<close>: every row that meets the condition is updated, the first is read.\<close>

definition sql_update_tokens :: "(Token \<Rightarrow> bool) \<Rightarrow> (Token \<Rightarrow> Token) \<Rightarrow> database
    \<Rightarrow> (pg_error + Token) \<times> database" where
  "sql_update_tokens cond upd db =
     (case find cond (verification_tokens db) of None \<Rightarrow> Inl ErrNoRows | Some t \<Rightarrow> Inr (upd t),
      db\<lparr>verification_tokens := map (\<lambda>t. if cond t then upd t else t) (verification_tokens db)\<rparr>)"

section \<open>The methods of \<open>PostgresStore\<close>\<close>

definition isDuplicateKeyError :: "pg_error \<Rightarrow> bool" where
  "isDuplicateKeyError err =
     (case err of PgFault (PgError code _) \<Rightarrow> code = ''23505'' | _ \<Rightarrow> False)"

definition CreateClient :: "go_string \<Rightarrow> go_string \<Rightarrow> pg_call \<Rightarrow> database
    \<Rightarrow> (store_error + unit) \<times> database" where
  "CreateClient email displayName call db =
     (case run_statement call (sql_insert_client email displayName call) db of
        (Inl err, db') \<Rightarrow>
          (Inl (if isDuplicateKeyError err then ErrAlreadyExists
                else StoreError ''create client'' err), db')
      | (Inr _, db') \<Rightarrow> (Inr (), db'))"

definition scanClient :: "(Client \<Rightarrow> bool) \<Rightarrow> pg_call \<Rightarrow> database
    \<Rightarrow> (store_error + Client) \<times> database" where
  "scanClient query call db =
     (case run_statement call (sql_select_client query) db of
        (Inl ErrNoRows, db') \<Rightarrow> (Inl ErrNotFound, db')
      | (Inl err, db') \<Rightarrow> (Inl (StoreError ''scan client'' err), db')
      | (Inr c, db') \<Rightarrow> (Inr c, db'))"

definition GetClientByEmail :: "go_string \<Rightarrow> pg_call \<Rightarrow> database
    \<Rightarrow> (store_error + Client) \<times> database" where
  "GetClientByEmail email = scanClient (\<lambda>c. client_email c = email)"

definition GetClientByAPIKeyHash :: "go_string \<Rightarrow> pg_call \<Rightarrow> database
    \<Rightarrow> (store_error + Client) \<times> database" where
  "GetClientByAPIKeyHash keyHash = scanClient (\<lambda>c. APIKeyHash c = keyHash)"

text \<open>The tail of the two updates: no row touched is \<open>ErrNotFound\<close>.\<close>

definition rows_affected :: "go_string \<Rightarrow> (pg_error + nat) \<times> database
    \<Rightarrow> (store_error + unit) \<times> database" where
  "rows_affected op res =
     (case res of
        (Inl err, db) \<Rightarrow> (Inl (StoreError op err), db)
      | (Inr n, db) \<Rightarrow> (if n = 0 then Inl ErrNotFound else Inr (), db))"

definition MarkClientVerified :: "go_string \<Rightarrow> go_string \<Rightarrow> go_string \<Rightarrow> pg_call \<Rightarrow> database
    \<Rightarrow> (store_error + unit) \<times> database" where
  "MarkClientVerified email apiKeyHash apiKeyPrefix call db =
     rows_affected ''mark client verified'' (run_statement call
       (sql_update_clients (\<lambda>c. client_email c = email \<and> VerifiedAt c = None)
          (\<lambda>c. c\<lparr>VerifiedAt := Some (timestamptz (pg_now call)), APIKeyHash := apiKeyHash,
                APIKeyPrefix := apiKeyPrefix\<rparr>)) db)"

definition RevokeClient :: "go_string \<Rightarrow> pg_call \<Rightarrow> database
    \<Rightarrow> (store_error + unit) \<times> database" where
  "RevokeClient email call db =
     rows_affected ''revoke client'' (run_statement call
       (sql_update_clients (\<lambda>c. client_email c = email \<and> RevokedAt c = None)
          (\<lambda>c. c\<lparr>RevokedAt := Some (timestamptz (pg_now call))\<rparr>)) db)"

definition CreateToken :: "go_string \<Rightarrow> go_string \<Rightarrow> TokenType \<Rightarrow> time \<Rightarrow> pg_call \<Rightarrow> database
    \<Rightarrow> (store_error + unit) \<times> database" where
  "CreateToken email tokenHash tokenType expiresAt call db =
     (case run_statement call (sql_insert_token email tokenHash tokenType expiresAt call) db of
        (Inl err, db') \<Rightarrow> (Inl (StoreError ''create token'' err), db')
      | (Inr _, db') \<Rightarrow> (Inr (), db'))"

text \<open>The condition under which a token may be consumed.\<close>

definition consumable :: "go_string \<Rightarrow> TokenType \<Rightarrow> time \<Rightarrow> Token \<Rightarrow> bool" where
  "consumable tokenHash tokenType now t \<longleftrightarrow>
     TokenHash t = tokenHash \<and> token_type t = tokenType \<and> UsedAt t = None \<and>
     now < ExpiresAt t"

definition ConsumeToken :: "go_string \<Rightarrow> TokenType \<Rightarrow> pg_call \<Rightarrow> database
    \<Rightarrow> (store_error + Token) \<times> database" where
  "ConsumeToken tokenHash tokenType call db =
     (case run_statement call
         (sql_update_tokens (consumable tokenHash tokenType (timestamptz (pg_now call)))
            (\<lambda>t. t\<lparr>UsedAt := Some (timestamptz (pg_now call))\<rparr>)) db of
        (Inl ErrNoRows, db') \<Rightarrow> (Inl ErrNotFound, db')
      | (Inl err, db') \<Rightarrow> (Inl (StoreError ''consume token'' err), db')
      | (Inr t, db') \<Rightarrow> (Inr t, db'))"

lemmas store_ops = CreateClient_def scanClient_def MarkClientVerified_def RevokeClient_def
  CreateToken_def ConsumeToken_def GetClientByEmail_def GetClientByAPIKeyHash_def

lemmas sql_defs = run_statement_def sql_insert_client_def sql_select_client_def
  sql_update_clients_def sql_insert_token_def sql_update_tokens_def rows_affected_def

end
