(* ===== verification/Rate_Limiter.thy ===== *)
theory Rate_Limiter
  imports Zaas_Prelude
begin

text \<open>
  The interface of the rate limiters (\<open>ratelimiter/interface.go\<close>) and the contract both backends
  keep: a sliding window.  A limiter is run over a sequence of events, requests and clean-ups, in
  the order in which they take its lock; the log of a run holds the admitted requests.
\<close>

record rl_result =
  Allowed :: bool
  Remaining :: int
  ResetAt :: time

datatype limiter_error =
    ErrUnexpectedResult
  | ErrInvalidResultType
  | BackendError go_string

datatype rl_event =
    Request go_string int time    \<comment> \<open>\<open>AllowN(key, rpm)\<close> with the clock reading it uses\<close>
  | Sweep time                    \<comment> \<open>a pass of the clean-up\<close>

fun event_time :: "rl_event \<Rightarrow> time" where
  "event_time (Request k n t) = t"
| "event_time (Sweep t) = t"

type_synonym rl_log = "(go_string \<times> time) list"

type_synonym 's admission = "'s \<Rightarrow> go_string \<Rightarrow> int \<Rightarrow> time \<Rightarrow> bool \<times> 's"

fun run_events ::
  "'s admission \<Rightarrow> ('s \<Rightarrow> time \<Rightarrow> 's) \<Rightarrow> 's \<times> rl_log \<Rightarrow> rl_event list \<Rightarrow> 's \<times> rl_log" where
  "run_events admit sweep (s, log) [] = (s, log)"
| "run_events admit sweep (s, log) (Request k n t # es) =
     (let (b, s') = admit s k n t
      in run_events admit sweep (s', if b then log @ [(k, t)] else log) es)"
| "run_events admit sweep (s, log) (Sweep t # es) =
     run_events admit sweep (sweep s t, log) es"

text \<open>Events in the order of their clock readings, none before \<open>t\<close>.\<close>

fun in_order :: "time \<Rightarrow> rl_event list \<Rightarrow> bool" where
  "in_order t [] \<longleftrightarrow> True"
| "in_order t (e # es) \<longleftrightarrow> t \<le> event_time e \<and> in_order (event_time e) es"

text \<open>Every request for \<open>k\<close> asks for at most \<open>n\<close> per window.\<close>

definition limited_to :: "go_string \<Rightarrow> int \<Rightarrow> rl_event list \<Rightarrow> bool" where
  "limited_to k n es \<longleftrightarrow>
     list_all (\<lambda>e. case e of Request k' n' t \<Rightarrow> k' = k \<longrightarrow> n' \<le> n | Sweep t \<Rightarrow> True) es"

text \<open>The requests of one key, and what a log says of it.\<close>

fun concerns :: "go_string \<Rightarrow> rl_event \<Rightarrow> bool" where
  "concerns k (Request k' n t) \<longleftrightarrow> k' = k"
| "concerns k (Sweep t) \<longleftrightarrow> False"

definition of_key :: "go_string \<Rightarrow> rl_log \<Rightarrow> rl_log" where
  "of_key k log = filter (\<lambda>(k', u). k' = k) log"

text \<open>\<open>admitted_since log k c\<close>: the admitted requests of \<open>k\<close> whose clock reading satisfies \<open>c\<close>.\<close>

definition admitted_since :: "rl_log \<Rightarrow> go_string \<Rightarrow> (time \<Rightarrow> bool) \<Rightarrow> nat" where
  "admitted_since log k c = length (filter (\<lambda>(k', u). k' = k \<and> c u) log)"

lemma admitted_since_snoc [simp]:
  "admitted_since (log @ [(k', u)]) k c =
     admitted_since log k c + (if k' = k \<and> c u then 1 else 0)"
  by (simp add: admitted_since_def)

lemma admitted_since_Nil [simp]: "admitted_since [] k c = 0"
  by (simp add: admitted_since_def)

lemma of_key_snoc [simp]:
  "of_key k (log @ [(k', u)]) = of_key k log @ (if k' = k then [(k', u)] else [])"
  by (simp add: of_key_def)

lemma admitted_since_of_key: "admitted_since (of_key k log) k c = admitted_since log k c"
  unfolding admitted_since_def of_key_def
  by (auto intro!: arg_cong [where f = length] filter_cong)

lemma admitted_since_mono:
  assumes "\<And>u. (k, u) \<in> set log \<Longrightarrow> c u \<Longrightarrow> d u"
  shows "admitted_since log k c \<le> admitted_since log k d"
  unfolding admitted_since_def by (rule length_filter_mono) (use assms in auto)

section \<open>The contract\<close>

text \<open>
  \<open>used s k t\<close> is the number of admitted requests of \<open>k\<close> that still count at time \<open>t\<close>;
  \<open>inv b t s\<close> is the backend's invariant for states that have seen no clock reading after \<open>t\<close> and
  are good for \<open>b\<close> more requests (a backend may use up a finite resource, such as unique names).
  A backend counts in ticks of its own clock (nanoseconds, milliseconds).
\<close>

locale sliding_window =
  fixes admit :: "'s admission"
    and sweep :: "'s \<Rightarrow> time \<Rightarrow> 's"
    and inv :: "nat \<Rightarrow> time \<Rightarrow> 's \<Rightarrow> bool"
    and used :: "'s \<Rightarrow> go_string \<Rightarrow> time \<Rightarrow> nat"
    and tick :: "time \<Rightarrow> int"
    and window :: int
  assumes tick_mono: "t \<le> t' \<Longrightarrow> tick t \<le> tick t'"
    and inv_mono: "inv b t s \<Longrightarrow> t \<le> t' \<Longrightarrow> inv b t' s"
    and inv_less: "inv (Suc b) t s \<Longrightarrow> inv b t s"
    and inv_admit: "inv (Suc b) t s \<Longrightarrow> inv b t (snd (admit s k n t))"
    and inv_sweep: "inv b t s \<Longrightarrow> inv b t (sweep s t)"
    and admit_iff: "inv (Suc b) t s \<Longrightarrow>
      fst (admit s k n t) \<longleftrightarrow> 0 < n \<and> int (used s k t) < n"
    and used_admit: "inv (Suc b) t s \<Longrightarrow> t \<le> t' \<Longrightarrow>
      used (snd (admit s k n t)) k' t' = used s k' t' +
        (if fst (admit s k n t) \<and> k' = k \<and> tick t' - window < tick t then 1 else 0)"
    and used_sweep: "inv b t s \<Longrightarrow> t \<le> t' \<Longrightarrow> used (sweep s t) k t' = used s k t'"
begin

text \<open>
  The simulation: the counts of the state are the counts of the log.  Everything the log holds
  happened before the current time.
\<close>

definition agrees :: "nat \<Rightarrow> time \<Rightarrow> 's \<Rightarrow> rl_log \<Rightarrow> bool" where
  "agrees b now s log \<longleftrightarrow> inv b now s \<and>
     (\<forall>k t. now \<le> t \<longrightarrow> used s k t = admitted_since log k (\<lambda>u. tick t - window < tick u)) \<and>
     (\<forall>(k, u) \<in> set log. u \<le> now)"

definition bounded :: "go_string \<Rightarrow> int \<Rightarrow> rl_log \<Rightarrow> bool" where
  "bounded k n log \<longleftrightarrow>
     (\<forall>t. int (admitted_since log k (\<lambda>u. tick t - window < tick u \<and> u \<le> t)) \<le> n)"

lemma agrees_later: "agrees b now s log \<Longrightarrow> now \<le> t \<Longrightarrow> agrees b t s log"
  unfolding agrees_def by (fastforce intro: inv_mono)

lemma agrees_less: "agrees (Suc b) now s log \<Longrightarrow> agrees b now s log"
  unfolding agrees_def by (auto intro: inv_less)

lemma agrees_admit:
  assumes "agrees (Suc b) t s log"
  shows "agrees b t (snd (admit s k n t)) (if fst (admit s k n t) then log @ [(k, t)] else log)"
  using assms inv_admit [of b t s k n] used_admit [of b t s _ k n]
  unfolding agrees_def by (auto split: if_splits)

lemma agrees_sweep: "agrees b t s log \<Longrightarrow> agrees b t (sweep s t) log"
  using inv_sweep used_sweep unfolding agrees_def by auto

lemma bounded_snoc:
  assumes agr: "agrees (Suc r) now s log" and b: "bounded k n log"
    and adm: "fst (admit s k' n' now)" and le: "k' = k \<Longrightarrow> n' \<le> n"
  shows "bounded k n (log @ [(k', now)])"
proof (cases "k' = k")
  case False
  with b show ?thesis by (simp add: bounded_def)
next
  case True
  have inv: "inv (Suc r) now s" using agr by (simp add: agrees_def)
  have "int (used s k now) < n"
    using adm admit_iff [OF inv] True le by fastforce
  then have cnt: "int (admitted_since log k (\<lambda>u. tick now - window < tick u)) + 1 \<le> n"
    using agr by (simp add: agrees_def)
  have "int (admitted_since (log @ [(k', now)]) k (\<lambda>u. tick t - window < tick u \<and> u \<le> t)) \<le> n"
    for t
  proof (cases "now \<le> t")
    case False
    then show ?thesis using b True by (auto simp: bounded_def)
  next
    case le: True
    have "admitted_since log k (\<lambda>u. tick t - window < tick u \<and> u \<le> t)
        \<le> admitted_since log k (\<lambda>u. tick now - window < tick u)"
      by (rule admitted_since_mono) (use tick_mono [OF le] in auto)
    with cnt True show ?thesis by auto
  qed
  then show ?thesis by (simp add: bounded_def)
qed

lemma run_bounded:
  assumes "agrees (length es) now s log" "bounded k n log" "in_order now es" "limited_to k n es"
  shows "bounded k n (snd (run_events admit sweep (s, log) es))"
  using assms
proof (induction es arbitrary: now s log)
  case Nil
  then show ?case by simp
next
  case (Cons e es)
  show ?case
  proof (cases e)
    case (Request k' n' t)
    obtain b s' where adm: "admit s k' n' t = (b, s')" by (cases "admit s k' n' t")
    let ?log = "if b then log @ [(k', t)] else log"
    have agr: "agrees (Suc (length es)) t s log" using Cons.prems Request agrees_later by auto
    have "agrees (length es) t s' ?log" using agrees_admit [OF agr, of k' n'] adm by simp
    moreover have "bounded k n ?log"
      using bounded_snoc [OF agr, of k n k' n'] Cons.prems adm Request
      by (auto simp: limited_to_def)
    ultimately show ?thesis
      using Cons.IH [of t s' ?log] Cons.prems Request adm by (simp add: limited_to_def)
  next
    case (Sweep t)
    have "agrees (Suc (length es)) t s log"
      by (rule agrees_later [of _ now]) (use Cons.prems Sweep in simp_all)
    then have "agrees (length es) t (sweep s t) log"
      by (rule agrees_sweep [OF agrees_less])
    then show ?thesis using Cons.IH Cons.prems Sweep by (simp add: limited_to_def)
  qed
qed

text \<open>
  The requests of \<open>k\<close> are decided as if nothing else had happened: other keys and clean-ups may be
  left out of the run.
\<close>

lemma run_of_key:
  assumes "agrees (length es) now s log" "agrees (length es) now s' log'"
    "of_key k log = of_key k log'" "in_order now es"
  shows "of_key k (snd (run_events admit sweep (s, log) es)) =
    of_key k (snd (run_events admit sweep (s', log') (filter (concerns k) es)))"
  using assms
proof (induction es arbitrary: now s log s' log')
  case Nil
  then show ?case by simp
next
  case (Cons e es)
  have now: "now \<le> event_time e" "in_order (event_time e) es" using Cons.prems by simp_all
  have agr: "agrees (Suc (length es)) (event_time e) s log"
    "agrees (Suc (length es)) (event_time e) s' log'"
    using agrees_later [OF _ now(1)] Cons.prems by simp_all
  show ?case
  proof (cases e)
    case (Request k' n t)
    obtain b s1 where adm: "admit s k' n t = (b, s1)" by (cases "admit s k' n t")
    have agr1: "agrees (length es) t s1 (if b then log @ [(k', t)] else log)"
      using agrees_admit [of "length es" t s log k' n] agr adm Request by simp
    show ?thesis
    proof (cases "k' = k")
      case False
      have "of_key k (if b then log @ [(k', t)] else log) = of_key k log'"
        using False Cons.prems by simp
      then show ?thesis
        using Cons.IH [OF agr1 agrees_less] agr now Request adm False by simp
    next
      case True
      obtain b' s1' where adm': "admit s' k' n t = (b', s1')" by (cases "admit s' k' n t")
      have agr1': "agrees (length es) t s1' (if b' then log' @ [(k', t)] else log')"
        using agrees_admit [of "length es" t s' log' k' n] agr adm' Request by simp
      have "used s k t = used s' k t"
        using agr Request Cons.prems(3)
          admitted_since_of_key [of k log] admitted_since_of_key [of k log']
        by (simp add: agrees_def)
      then have eq: "b' = b"
        using admit_iff [of "length es" t s k n] admit_iff [of "length es" t s' k n] agr adm adm'
          Request True
        by (simp add: agrees_def)
      have "of_key k (if b then log @ [(k', t)] else log) =
          of_key k (if b' then log' @ [(k', t)] else log')"
        using eq Cons.prems by simp
      then show ?thesis
        using Cons.IH [OF agr1 agr1'] now Request adm adm' True
        by (cases b; cases b') simp_all
    qed
  next
    case (Sweep t)
    then have "agrees (length es) t (sweep s t) log" "agrees (length es) t s' log'"
      using agr by (simp_all add: agrees_sweep [OF agrees_less] agrees_less)
    then show ?thesis
      using Cons.IH [of t "sweep s t" log s' log'] now Cons.prems(3) Sweep by simp
  qed
qed

text \<open>A limiter that starts with nothing counted admits at most \<open>n\<close> per window.\<close>

definition fresh :: "nat \<Rightarrow> time \<Rightarrow> 's \<Rightarrow> bool" where
  "fresh b now s \<longleftrightarrow> inv b now s \<and> (\<forall>k t. used s k t = 0)"

lemma fresh_agrees: "fresh b now s \<Longrightarrow> agrees b now s []"
  by (simp add: fresh_def agrees_def)

lemma window_bound:
  assumes "fresh (length es) now s" "in_order now es" "limited_to k n es" "0 \<le> n"
  shows "int (admitted_since (snd (run_events admit sweep (s, []) es)) k
    (\<lambda>u. tick t - window < tick u \<and> u \<le> t)) \<le> n"
proof -
  have "bounded k n []" using assms by (simp add: bounded_def)
  then have "bounded k n (snd (run_events admit sweep (s, []) es))"
    using run_bounded [OF fresh_agrees] assms by blast
  then show ?thesis by (simp add: bounded_def)
qed

lemma key_alone:
  assumes "fresh (length es) now s" "in_order now es"
  shows "of_key k (snd (run_events admit sweep (s, []) es)) =
    of_key k (snd (run_events admit sweep (s, []) (filter (concerns k) es)))"
  using run_of_key [OF fresh_agrees fresh_agrees] assms by blast

end

section \<open>Two backends with one window\<close>

text \<open>
  Two backends whose windows hold the same readings admit exactly the same requests of every
  sequence of events: which one runs cannot be told from its decisions.
\<close>

locale same_window =
  a: sliding_window admit_a sweep_a inv_a used_a tick_a window_a +
  b: sliding_window admit_b sweep_b inv_b used_b tick_b window_b
  for admit_a sweep_a inv_a used_a tick_a window_a
    and admit_b sweep_b inv_b used_b tick_b window_b +
  fixes aligned :: "time \<Rightarrow> bool"
  assumes windows_agree: "aligned t \<Longrightarrow> aligned u \<Longrightarrow>
    tick_a t - window_a < tick_a u \<longleftrightarrow> tick_b t - window_b < tick_b u"
begin

lemma counts_agree:
  assumes "aligned t" "list_all (\<lambda>(k, u). aligned u) log"
  shows "admitted_since log k (\<lambda>u. tick_a t - window_a < tick_a u) =
    admitted_since log k (\<lambda>u. tick_b t - window_b < tick_b u)"
  unfolding admitted_since_def
  using assms windows_agree
  by (intro arg_cong [where f = length] filter_cong) (auto simp: list_all_iff)

lemma same_log:
  assumes "a.agrees (length es) now sa log" "b.agrees (length es) now sb log" "in_order now es"
    "list_all (\<lambda>(k, u). aligned u) log" "list_all (\<lambda>e. aligned (event_time e)) es"
  shows "snd (run_events admit_a sweep_a (sa, log) es) =
    snd (run_events admit_b sweep_b (sb, log) es)"
  using assms
proof (induction es arbitrary: now sa sb log)
  case Nil
  then show ?case by simp
next
  case (Cons e es)
  show ?case
  proof (cases e)
    case (Request k n t)
    obtain ba sa' where adma: "admit_a sa k n t = (ba, sa')" by (cases "admit_a sa k n t")
    obtain bb sb' where admb: "admit_b sb k n t = (bb, sb')" by (cases "admit_b sb k n t")
    have agr: "a.agrees (Suc (length es)) t sa log" "b.agrees (Suc (length es)) t sb log"
      using Cons.prems Request a.agrees_later b.agrees_later by auto
    have al: "aligned t" "list_all (\<lambda>e. aligned (event_time e)) es"
      using Cons.prems Request by simp_all
    have "used_a sa k t = used_b sb k t"
      using agr counts_agree [OF al(1)] Cons.prems(4)
      by (simp add: a.agrees_def b.agrees_def)
    then have eq: "ba = bb"
      using a.admit_iff [of "length es" t sa k n] b.admit_iff [of "length es" t sb k n]
        agr adma admb
      by (simp add: a.agrees_def b.agrees_def)
    let ?log = "if ba then log @ [(k, t)] else log"
    have "a.agrees (length es) t sa' ?log" "b.agrees (length es) t sb' ?log"
      using a.agrees_admit [OF agr(1), of k n] b.agrees_admit [OF agr(2), of k n] adma admb eq
      by simp_all
    moreover have "list_all (\<lambda>(k, u). aligned u) ?log"
      using Cons.prems(4) al by (simp add: list_all_iff)
    ultimately have "snd (run_events admit_a sweep_a (sa', ?log) es) =
        snd (run_events admit_b sweep_b (sb', ?log) es)"
      using Cons.IH [of t sa' ?log sb'] Cons.prems Request al by simp
    then show ?thesis using Request adma admb eq by simp
  next
    case (Sweep t)
    have "a.agrees (Suc (length es)) t sa log"
      by (rule a.agrees_later [of _ now]) (use Cons.prems Sweep in simp_all)
    moreover have "b.agrees (Suc (length es)) t sb log"
      by (rule b.agrees_later [of _ now]) (use Cons.prems Sweep in simp_all)
    ultimately have "a.agrees (length es) t (sweep_a sa t) log"
      "b.agrees (length es) t (sweep_b sb t) log"
      by (simp_all add: a.agrees_sweep [OF a.agrees_less] b.agrees_sweep [OF b.agrees_less])
    then show ?thesis using Cons.IH Cons.prems Sweep by simp
  qed
qed

lemma same_decisions:
  assumes "a.fresh (length es) now sa" "b.fresh (length es) now sb" "in_order now es"
    "list_all (\<lambda>e. aligned (event_time e)) es"
  shows "snd (run_events admit_a sweep_a (sa, []) es) =
    snd (run_events admit_b sweep_b (sb, []) es)"
  using same_log [OF a.fresh_agrees b.fresh_agrees] assms by auto

end

end
