(* ===== verification/Limiter_Memory.thy ===== *)
theory Limiter_Memory
  imports Rate_Limiter
begin

text \<open>
  The in-process backend, \<open>ratelimiter/memory.go\<close>.  The state is the limiter struct; the mutex
  makes \<open>AllowN\<close> and \<open>cleanup\<close> atomic, so each is one function, with the clock reading it took as
  an argument.  The theory interprets \<open>sliding_window\<close> on these functions.
\<close>

section \<open>State and operations\<close>

definition cleanupInterval :: time where
  "cleanupInterval = 5 * Minute"

definition entryTTL :: time where
  "entryTTL = 10 * Minute"

definition windowDuration :: time where
  "windowDuration = Minute"

record windowEntry =
  timestamps :: "time list"
  lastSeen :: time

record MemoryRateLimiter =
  entries :: "go_string \<Rightarrow> windowEntry option"
  default_rpm :: int
  stopped :: bool

definition NewMemoryRateLimiter :: "int \<Rightarrow> MemoryRateLimiter" where
  "NewMemoryRateLimiter rpm = \<lparr>entries = (\<lambda>_. None), default_rpm = rpm, stopped = False\<rparr>"

text \<open>The zero \<open>windowEntry\<close>; its \<open>lastSeen\<close> is written before it is read.\<close>

definition getOrCreate :: "MemoryRateLimiter \<Rightarrow> go_string \<Rightarrow> windowEntry" where
  "getOrCreate rl key =
     (case entries rl key of Some e \<Rightarrow> e | None \<Rightarrow> \<lparr>timestamps = [], lastSeen = 0\<rparr>)"

definition memory_AllowN ::
  "MemoryRateLimiter \<Rightarrow> go_string \<Rightarrow> int \<Rightarrow> time \<Rightarrow> rl_result \<times> MemoryRateLimiter" where
  "memory_AllowN rl key rpm now =
     (if rpm \<le> 0 then
        (\<lparr>Allowed = False, Remaining = 0, ResetAt = now + windowDuration\<rparr>, rl)
      else
        (let windowStart = now - windowDuration;
             e = getOrCreate rl key;
             valid = filter (\<lambda>ts. ts > windowStart) (timestamps e);
             count = int (length valid);
             allowed = count < rpm;
             stamps = (if allowed then valid @ [now] else valid);
             count' = (if allowed then count + 1 else count);
             remaining = (if rpm - count' < 0 then 0 else rpm - count');
             resetAt = (case stamps of
                          [] \<Rightarrow> now + windowDuration
                        | oldest # _ \<Rightarrow> oldest + windowDuration)
         in (\<lparr>Allowed = allowed, Remaining = remaining, ResetAt = resetAt\<rparr>,
             rl\<lparr>entries := (entries rl)(key \<mapsto> \<lparr>timestamps = stamps, lastSeen = now\<rparr>)\<rparr>)))"

definition memory_Allow ::
  "MemoryRateLimiter \<Rightarrow> go_string \<Rightarrow> time \<Rightarrow> rl_result \<times> MemoryRateLimiter" where
  "memory_Allow rl key now = memory_AllowN rl key (default_rpm rl) now"

definition cleanup :: "MemoryRateLimiter \<Rightarrow> time \<Rightarrow> MemoryRateLimiter" where
  "cleanup rl now =
     (let cutoff = now - entryTTL
      in rl\<lparr>entries := (\<lambda>key.
           case entries rl key of
             Some e \<Rightarrow> if lastSeen e < cutoff then None else Some e
           | None \<Rightarrow> None)\<rparr>)"

text \<open>\<open>Close\<close>: closing the stop channel once; later calls change nothing.\<close>

definition memory_Close :: "MemoryRateLimiter \<Rightarrow> MemoryRateLimiter" where
  "memory_Close rl = rl\<lparr>stopped := True\<rparr>"

text \<open>
  The goroutine of \<open>cleanupLoop\<close>: at a tick it cleans up and goes on; once the stop channel is
  closed it may return, and after that nothing it does is left.
\<close>

inductive cleanupLoop_step ::
  "MemoryRateLimiter \<times> bool \<Rightarrow> time \<Rightarrow> MemoryRateLimiter \<times> bool \<Rightarrow> bool" where
  ticker: "cleanupLoop_step (rl, True) now (cleanup rl now, True)"
| stop: "stopped rl \<Longrightarrow> cleanupLoop_step (rl, True) now (rl, False)"

inductive_cases cleanupLoop_stepE: "cleanupLoop_step (rl, running) now s'"

inductive_simps cleanupLoop_exited: "cleanupLoop_step (rl, False) now s'"

section \<open>The window of a key\<close>

definition stamps :: "MemoryRateLimiter \<Rightarrow> go_string \<Rightarrow> time list" where
  "stamps rl key = timestamps (getOrCreate rl key)"

definition live :: "time \<Rightarrow> time list \<Rightarrow> time list" where
  "live now ts = filter (\<lambda>t. now - windowDuration < t) ts"

definition memory_used :: "MemoryRateLimiter \<Rightarrow> go_string \<Rightarrow> time \<Rightarrow> nat" where
  "memory_used rl key now = length (live now (stamps rl key))"

text \<open>
  The invariant: the timestamps of an entry ascend, none is after the entry's \<open>lastSeen\<close>, and no
  entry was seen after the last clock reading.
\<close>

definition entry_ok :: "time \<Rightarrow> windowEntry \<Rightarrow> bool" where
  "entry_ok now e \<longleftrightarrow> sorted (timestamps e) \<and>
     (\<forall>t \<in> set (timestamps e). t \<le> lastSeen e) \<and> lastSeen e \<le> now"

definition memory_inv :: "time \<Rightarrow> MemoryRateLimiter \<Rightarrow> bool" where
  "memory_inv now rl \<longleftrightarrow> (\<forall>key e. entries rl key = Some e \<longrightarrow> entry_ok now e)"

lemma windowDuration_pos [simp]: "0 < windowDuration"
  by (simp add: windowDuration_def)

lemma memory_inv_stamps:
  "memory_inv now rl \<Longrightarrow> sorted (stamps rl key) \<and> (\<forall>t \<in> set (stamps rl key). t \<le> now)"
  by (fastforce simp: memory_inv_def entry_ok_def stamps_def getOrCreate_def split: option.splits)

lemma live_later: "now \<le> t \<Longrightarrow> live t (live now ts) = live t ts"
  by (auto simp: live_def intro!: filter_cong)

lemma live_append [simp]: "live now (xs @ ys) = live now xs @ live now ys"
  by (simp add: live_def)

lemma live_now [simp]: "live now [now] = [now]"
  by (simp add: live_def)

lemma stamps_upd [simp]:
  "stamps (rl\<lparr>entries := (entries rl)(key \<mapsto> e)\<rparr>) k =
     (if k = key then timestamps e else stamps rl k)"
  by (simp add: stamps_def getOrCreate_def)

text \<open>The operation in terms of the window: what the rest of the theory uses.\<close>

lemma AllowN_allowed:
  "Allowed (fst (memory_AllowN rl key n now)) \<longleftrightarrow> 0 < n \<and> int (memory_used rl key now) < n"
  by (simp add: memory_AllowN_def Let_def memory_used_def live_def stamps_def)

lemma AllowN_stamps:
  "0 < n \<Longrightarrow> stamps (snd (memory_AllowN rl key n now)) k =
     (if k = key
      then live now (stamps rl key) @ (if int (memory_used rl key now) < n then [now] else [])
      else stamps rl k)"
  by (simp add: memory_AllowN_def Let_def memory_used_def live_def [symmetric] stamps_def
      getOrCreate_def)

lemma AllowN_nonpos: "n \<le> 0 \<Longrightarrow> snd (memory_AllowN rl key n now) = rl"
  by (simp add: memory_AllowN_def)

lemma AllowN_config [simp]:
  "default_rpm (snd (memory_AllowN rl key n now)) = default_rpm rl"
  "stopped (snd (memory_AllowN rl key n now)) = stopped rl"
  by (simp_all add: memory_AllowN_def Let_def)

lemma memory_inv_mono: "memory_inv t rl \<Longrightarrow> t \<le> t' \<Longrightarrow> memory_inv t' rl"
  by (fastforce simp: memory_inv_def entry_ok_def)

lemma sorted_live: "sorted ts \<Longrightarrow> sorted (live now ts)"
  by (simp add: live_def sorted_wrt_filter)

lemma entry_ok_AllowN:
  assumes "memory_inv now rl"
  shows "entry_ok now \<lparr>timestamps = live now (stamps rl key) @ (if b then [now] else []),
    lastSeen = now\<rparr>"
  using memory_inv_stamps [OF assms, of key]
  by (auto simp: entry_ok_def sorted_append sorted_live) (auto simp: live_def)

lemma memory_inv_AllowN:
  assumes "memory_inv now rl"
  shows "memory_inv now (snd (memory_AllowN rl key n now))"
proof (cases "n \<le> 0")
  case True
  with assms show ?thesis by (simp add: AllowN_nonpos)
next
  case False
  define b where "b = (int (memory_used rl key now) < n)"
  have "snd (memory_AllowN rl key n now) = rl\<lparr>entries := (entries rl)(key \<mapsto>
      \<lparr>timestamps = live now (stamps rl key) @ (if b then [now] else []), lastSeen = now\<rparr>)\<rparr>"
    using False by (simp add: memory_AllowN_def Let_def memory_used_def live_def [symmetric]
        stamps_def b_def)
  with assms entry_ok_AllowN [OF assms, of key True] entry_ok_AllowN [OF assms, of key False]
  show ?thesis by (cases b) (auto simp: memory_inv_def)
qed

lemma memory_inv_cleanup: "memory_inv now rl \<Longrightarrow> memory_inv now (cleanup rl t)"
  by (auto simp: memory_inv_def cleanup_def Let_def split: option.splits if_splits)

text \<open>
  A clean-up only drops entries whose timestamps have all left the window: the time to live of an
  entry is longer than the window.
\<close>

lemma cleanup_used:
  assumes "memory_inv now rl" "now \<le> t"
  shows "memory_used (cleanup rl now) key t = memory_used rl key t"
proof (cases "entries rl key")
  case None
  then show ?thesis by (simp add: memory_used_def stamps_def getOrCreate_def cleanup_def Let_def)
next
  case (Some e)
  show ?thesis
  proof (cases "lastSeen e < now - entryTTL")
    case False
    with Some show ?thesis
      by (simp add: memory_used_def stamps_def getOrCreate_def cleanup_def Let_def)
  next
    case True
    have "\<forall>u \<in> set (timestamps e). u \<le> lastSeen e"
      using assms Some by (auto simp: memory_inv_def entry_ok_def)
    moreover have "windowDuration \<le> entryTTL"
      by (simp add: windowDuration_def entryTTL_def duration_defs)
    ultimately have "live t (timestamps e) = []"
      using True assms(2) by (fastforce simp: live_def filter_empty_conv)
    with Some True show ?thesis
      by (simp add: memory_used_def stamps_def getOrCreate_def cleanup_def Let_def live_def)
  qed
qed

lemma AllowN_used:
  assumes "memory_inv now rl" "now \<le> t"
  shows "memory_used (snd (memory_AllowN rl key n now)) k t = memory_used rl k t +
    (if Allowed (fst (memory_AllowN rl key n now)) \<and> k = key \<and> t - windowDuration < now
     then 1 else 0)"
proof (cases "0 < n")
  case False
  then show ?thesis by (simp add: AllowN_nonpos AllowN_allowed)
next
  case True
  then show ?thesis
    using assms(2)
    by (simp add: memory_used_def AllowN_stamps AllowN_allowed live_later)
      (simp add: live_def)
qed

section \<open>The backend keeps the contract\<close>

definition memory_admit :: "MemoryRateLimiter admission" where
  "memory_admit rl key n now = map_prod Allowed id (memory_AllowN rl key n now)"

lemma memory_admit_simps [simp]:
  "fst (memory_admit rl key n now) = Allowed (fst (memory_AllowN rl key n now))"
  "snd (memory_admit rl key n now) = snd (memory_AllowN rl key n now)"
  by (simp_all add: memory_admit_def)

interpretation mem: sliding_window memory_admit cleanup "\<lambda>b. memory_inv" memory_used id
  windowDuration
  by unfold_locales
    (auto simp: memory_inv_mono memory_inv_AllowN memory_inv_cleanup AllowN_allowed AllowN_used
      cleanup_used)

lemma mem_fresh: "mem.fresh b now (NewMemoryRateLimiter rpm)"
  by (simp add: mem.fresh_def NewMemoryRateLimiter_def memory_inv_def memory_used_def
      stamps_def getOrCreate_def live_def)

section \<open>The result of a call\<close>

text \<open>
  A request that was denied is admitted at its \<open>ResetAt\<close>, if the key asks for nothing in between:
  at that time the oldest timestamp has just left the window.
\<close>

lemma live_at_reset:
  assumes "sorted (x # xs)"
  shows "live (x + windowDuration) (x # xs) = filter (\<lambda>t. x < t) xs"
  by (simp add: live_def)

lemma AllowN_denied:
  assumes "0 < n" "\<not> Allowed (fst (memory_AllowN rl key n now))"
  obtains x xs where "live now (stamps rl key) = x # xs"
    "ResetAt (fst (memory_AllowN rl key n now)) = x + windowDuration"
    "stamps (snd (memory_AllowN rl key n now)) key = x # xs"
    "n \<le> int (length (x # xs))"
proof -
  have n: "n \<le> int (memory_used rl key now)" using assms by (simp add: AllowN_allowed)
  then obtain x xs where x: "live now (stamps rl key) = x # xs"
    using assms(1) by (cases "live now (stamps rl key)") (auto simp: memory_used_def)
  have "ResetAt (fst (memory_AllowN rl key n now)) = x + windowDuration"
    using assms(1) n x
    by (simp add: memory_AllowN_def Let_def live_def [symmetric] stamps_def [symmetric]
        memory_used_def)
  moreover have "stamps (snd (memory_AllowN rl key n now)) key = x # xs"
    using assms(1) n x by (simp add: AllowN_stamps)
  ultimately show thesis using that x n by (simp add: memory_used_def)
qed

lemma AllowN_remaining:
  "Remaining (fst (memory_AllowN rl key n now)) =
     (if 0 < n then max 0 (n - int (memory_used (snd (memory_AllowN rl key n now)) key now)) else 0)"
  by (simp add: memory_AllowN_def Let_def memory_used_def live_def stamps_def getOrCreate_def
      windowDuration_def max_def)

lemma AllowN_reset_future:
  assumes "memory_inv now rl"
  shows "now < ResetAt (fst (memory_AllowN rl key n now))"
    "ResetAt (fst (memory_AllowN rl key n now)) \<le> now + windowDuration"
proof -
  have "\<forall>t \<in> set (live now (stamps rl key)). now - windowDuration < t \<and> t \<le> now"
    using memory_inv_stamps [OF assms, of key] by (auto simp: live_def)
  then have "now < ResetAt (fst (memory_AllowN rl key n now)) \<and>
      ResetAt (fst (memory_AllowN rl key n now)) \<le> now + windowDuration"
    by (cases "live now (stamps rl key)")
      (auto simp: memory_AllowN_def Let_def live_def [symmetric] stamps_def [symmetric])
  then show "now < ResetAt (fst (memory_AllowN rl key n now))"
    "ResetAt (fst (memory_AllowN rl key n now)) \<le> now + windowDuration" by simp_all
qed

text \<open>Between a denial and its \<open>ResetAt\<close> every request of the key is denied; at it, one passes.\<close>

lemma denied_window:
  assumes inv: "memory_inv now rl" and n: "0 < n" "int (memory_used rl key now) \<le> n"
    and denied: "\<not> Allowed (fst (memory_AllowN rl key n now))"
    and later: "now \<le> t"
  shows "Allowed (fst (memory_AllowN (snd (memory_AllowN rl key n now)) key n t)) \<longleftrightarrow>
    ResetAt (fst (memory_AllowN rl key n now)) \<le> t"
proof -
  let ?rl = "snd (memory_AllowN rl key n now)"
  obtain x xs where w: "live now (stamps rl key) = x # xs"
      "ResetAt (fst (memory_AllowN rl key n now)) = x + windowDuration"
      "stamps ?rl key = x # xs" "n \<le> int (length (x # xs))"
    using AllowN_denied [OF n(1) denied] .
  have len: "int (length (x # xs)) = n" using w n(2) by (simp add: memory_used_def)
  have sorted: "sorted (x # xs)"
    using sorted_live [of "stamps rl key" now] memory_inv_stamps [OF inv, of key] w(1) by simp
  show ?thesis
  proof (cases "x + windowDuration \<le> t")
    case True
    then have "length (live t (x # xs)) \<le> length xs" by (simp add: live_def)
    with w len n True show ?thesis by (simp add: AllowN_allowed memory_used_def)
  next
    case False
    then have "live t (x # xs) = x # xs"
      using sorted by (auto simp: live_def filter_id_conv)
    with w len False show ?thesis by (simp add: AllowN_allowed memory_used_def)
  qed
qed

section \<open>Properties\<close>

text \<open>
  C35: A denied request tells when to come back: if the key asks for nothing else, a request for the
  same limit is denied before the \<open>ResetAt\<close> of the denial and admitted from then on; and that time
  is at most a window away.
\<close>

theorem denied_until_reset:
  assumes "memory_inv now rl" "0 < n" "int (memory_used rl key now) \<le> n"
    and "\<not> Allowed (fst (memory_AllowN rl key n now))" "now \<le> t"
  shows "(Allowed (fst (memory_AllowN (snd (memory_AllowN rl key n now)) key n t)) \<longleftrightarrow>
      ResetAt (fst (memory_AllowN rl key n now)) \<le> t) \<and>
    now < ResetAt (fst (memory_AllowN rl key n now)) \<and>
    ResetAt (fst (memory_AllowN rl key n now)) \<le> now + windowDuration"
  using denied_window [OF assms] AllowN_reset_future [OF assms(1)] by simp

definition sample_limiter :: MemoryRateLimiter where
  "sample_limiter = snd (memory_AllowN (NewMemoryRateLimiter 60) ''k'' 1 1000)"

theorem denied_until_reset_witness:
  "\<not> Allowed (fst (memory_AllowN (snd (memory_AllowN sample_limiter ''k'' 1 2000)) ''k'' 1 3000))"
proof -
  have inv: "memory_inv 2000 sample_limiter"
    unfolding sample_limiter_def
    by (rule memory_inv_mono [OF memory_inv_AllowN])
      (simp_all add: memory_inv_def NewMemoryRateLimiter_def)
  have used: "memory_used sample_limiter ''k'' 2000 = 1"
    by (simp add: sample_limiter_def memory_used_def AllowN_stamps)
      (simp add: memory_used_def stamps_def getOrCreate_def live_def NewMemoryRateLimiter_def
        windowDuration_def duration_defs)
  have denied: "\<not> Allowed (fst (memory_AllowN sample_limiter ''k'' 1 2000))"
    using used by (simp add: AllowN_allowed)
  have reset: "ResetAt (fst (memory_AllowN sample_limiter ''k'' 1 2000)) = 60000001000"
    by (simp add: sample_limiter_def memory_AllowN_def Let_def getOrCreate_def
        NewMemoryRateLimiter_def windowDuration_def duration_defs)
  show ?thesis
    using denied_until_reset [OF inv, of 1 "''k''" 3000] used denied reset by simp
qed

text \<open>
  What the in-process limiter reports: a request is admitted exactly while fewer than \<open>n\<close>
  requests of the key count, and \<open>Remaining\<close> is what is left of the limit after it, never negative
  and never more than the limit.
\<close>

theorem memory_result:
  "Allowed (fst (memory_AllowN rl key n now)) = (0 < n \<and> int (memory_used rl key now) < n) \<and>
   Remaining (fst (memory_AllowN rl key n now)) =
     (if 0 < n then max 0 (n - int (memory_used (snd (memory_AllowN rl key n now)) key now)) else 0) \<and>
   0 \<le> Remaining (fst (memory_AllowN rl key n now)) \<and>
   Remaining (fst (memory_AllowN rl key n now)) \<le> max 0 n"
  by (simp add: AllowN_allowed AllowN_remaining)

end
