(* ===== verification/Go_Strings.thy ===== *)
theory Go_Strings
  imports Zaas_Prelude
begin

text \<open>
  The part of Go's \<open>strings\<close>, \<open>strconv\<close>, \<open>encoding/hex\<close> and \<open>net\<close> packages the program
  uses, on byte strings: \<open>Split\<close>, \<open>Join\<close>, \<open>TrimSpace\<close>, \<open>TrimRight\<close>, \<open>ToLower\<close>, \<open>HasPrefix\<close>,
  \<open>ContainsAny\<close>, \<open>Itoa\<close>, \<open>Atoi\<close>, \<open>ParseBool\<close>, \<open>EncodeToString\<close>, \<open>SplitHostPort\<close> and
  \<open>JoinHostPort\<close>, with the facts the components rest on.
\<close>

section \<open>Splitting and joining\<close>

fun split_on :: "char \<Rightarrow> go_string \<Rightarrow> go_string list" where
  "split_on c [] = [[]]"
| "split_on c (x # xs) =
     (if x = c then [] # split_on c xs
      else (x # hd (split_on c xs)) # tl (split_on c xs))"

fun join :: "go_string \<Rightarrow> go_string list \<Rightarrow> go_string" where
  "join sep [] = []"
| "join sep [x] = x"
| "join sep (x # y # zs) = x @ sep @ join sep (y # zs)"

lemma split_on_not_Nil [simp]: "split_on c s \<noteq> []"
  by (cases s) auto

lemma join_Cons: "xs \<noteq> [] \<Longrightarrow> join sep (x # xs) = x @ sep @ join sep xs"
  by (cases xs) auto

lemma join_split [strings_simps]: "join [c] (split_on c s) = s"
proof (induction s)
  case (Cons x xs)
  show ?case
  proof (cases "x = c")
    case True
    with Cons show ?thesis by (simp add: join_Cons)
  next
    case False
    obtain y ys where ys: "split_on c xs = y # ys"
      by (metis list.exhaust split_on_not_Nil)
    with Cons False show ?thesis by (cases ys) auto
  qed
qed simp

lemma split_on_no_sep [simp]: "c \<notin> set s \<Longrightarrow> split_on c s = [s]"
  by (induction s) auto

lemma split_on_append:
  "split_on c (a @ c # b) = split_on c a @ split_on c b"
  by (induction a) auto

lemma split_on_parts: "p \<in> set (split_on c s) \<Longrightarrow> c \<notin> set p"
proof (induction s arbitrary: p)
  case (Cons x xs)
  then show ?case
    by (auto split: if_splits) (metis list.set_sel split_on_not_Nil)+
qed simp

lemma last_split_on [strings_simps]:
  "c \<notin> set b \<Longrightarrow> last (split_on c (a @ c # b)) = b"
  by (simp add: split_on_append)

lemma split_on_join:
  assumes "xs \<noteq> []" "\<And>x. x \<in> set xs \<Longrightarrow> c \<notin> set x"
  shows "split_on c (join [c] xs) = xs"
  using assms by (induction "[c]" xs rule: join.induct) (auto simp: split_on_append)

lemma set_join: "set (join sep xs) \<subseteq> \<Union> (set ` set xs) \<union> set sep"
  by (induction sep xs rule: join.induct) auto

section \<open>Trimming\<close>

text \<open>
  The byte sequences of Go's \<open>unicode.IsSpace\<close> runes, as UTF-8: the ASCII blanks, U+0085,
  U+00A0, U+1680, U+2000 to U+200A, U+2028, U+2029, U+202F, U+205F and U+3000.  No sequence is
  a prefix of another, and each starts with a byte that starts a rune, so removing one of them
  at an end of the string removes exactly one rune.
\<close>

definition space_runes :: "go_string list" where
  "space_runes = [[CHR 0x20], [CHR 0x09], [CHR 0x0A], [CHR 0x0B], [CHR 0x0C], [CHR 0x0D],
     [CHR 0xC2, CHR 0x85], [CHR 0xC2, CHR 0xA0], [CHR 0xE1, CHR 0x9A, CHR 0x80],
     [CHR 0xE2, CHR 0x80, CHR 0x80], [CHR 0xE2, CHR 0x80, CHR 0x81], [CHR 0xE2, CHR 0x80, CHR 0x82],
     [CHR 0xE2, CHR 0x80, CHR 0x83], [CHR 0xE2, CHR 0x80, CHR 0x84], [CHR 0xE2, CHR 0x80, CHR 0x85],
     [CHR 0xE2, CHR 0x80, CHR 0x86], [CHR 0xE2, CHR 0x80, CHR 0x87], [CHR 0xE2, CHR 0x80, CHR 0x88],
     [CHR 0xE2, CHR 0x80, CHR 0x89], [CHR 0xE2, CHR 0x80, CHR 0x8A], [CHR 0xE2, CHR 0x80, CHR 0xA8],
     [CHR 0xE2, CHR 0x80, CHR 0xA9], [CHR 0xE2, CHR 0x80, CHR 0xAF], [CHR 0xE2, CHR 0x81, CHR 0x9F],
     [CHR 0xE3, CHR 0x80, CHR 0x80]]"

definition has_prefix :: "go_string \<Rightarrow> go_string \<Rightarrow> bool" where
  "has_prefix s p \<longleftrightarrow> take (length p) s = p"

definition has_suffix :: "go_string \<Rightarrow> go_string \<Rightarrow> bool" where
  "has_suffix s p \<longleftrightarrow> length p \<le> length s \<and> drop (length s - length p) s = p"

lemma space_runes_length: "p \<in> set space_runes \<Longrightarrow> 0 < length p"
  unfolding space_runes_def by auto

lemma Nil_not_space_rune [simp]: "[] \<notin> set space_runes"
  by (simp add: space_runes_def)

lemma has_prefix_iff: "has_prefix s p \<longleftrightarrow> (\<exists>t. s = p @ t)"
  by (metis append_eq_conv_conj append_take_drop_id has_prefix_def)

function trim_left :: "go_string \<Rightarrow> go_string" where
  "trim_left s =
     (case find (\<lambda>p. has_prefix s p) space_runes of
        None \<Rightarrow> s
      | Some p \<Rightarrow> trim_left (drop (length p) s))"
  by pat_completeness auto
termination
proof (relation "measure length")
  fix s p
  assume f: "find (\<lambda>p. has_prefix s p) space_runes = Some p"
  then have "p \<in> set space_runes" "has_prefix s p"
    by (auto simp: find_Some_iff)
  then have "0 < length p" "length p \<le> length s"
    using space_runes_length by (auto simp: has_prefix_iff)
  then show "(drop (length p) s, s) \<in> measure length" by (cases s) auto
qed simp

function trim_right :: "go_string \<Rightarrow> go_string" where
  "trim_right s =
     (case find (\<lambda>p. has_suffix s p) space_runes of
        None \<Rightarrow> s
      | Some p \<Rightarrow> trim_right (take (length s - length p) s))"
  by pat_completeness auto
termination
proof (relation "measure length")
  fix s p
  assume f: "find (\<lambda>p. has_suffix s p) space_runes = Some p"
  then have "p \<in> set space_runes" "has_suffix s p"
    by (auto simp: find_Some_iff)
  then have "0 < length p" "length p \<le> length s"
    using space_runes_length by (auto simp: has_suffix_def)
  then show "(take (length s - length p) s, s) \<in> measure length" by (auto intro: diff_less)
qed simp

declare trim_left.simps [simp del] trim_right.simps [simp del]

definition trim_space :: "go_string \<Rightarrow> go_string" where
  "trim_space s = trim_right (trim_left s)"

text \<open>A string is trim when no space rune stands at either end.\<close>

definition no_outer_space :: "go_string \<Rightarrow> bool" where
  "no_outer_space s \<longleftrightarrow>
     list_all (\<lambda>p. \<not> has_prefix s p \<and> \<not> has_suffix s p) space_runes"

lemma trim_left_id: "list_all (\<lambda>p. \<not> has_prefix s p) space_runes \<Longrightarrow> trim_left s = s"
  by (subst trim_left.simps) (simp add: find_None_iff[THEN iffD2] list_all_iff)

lemma trim_right_id: "list_all (\<lambda>p. \<not> has_suffix s p) space_runes \<Longrightarrow> trim_right s = s"
  by (subst trim_right.simps) (simp add: find_None_iff[THEN iffD2] list_all_iff)

lemma trim_space_id: "no_outer_space s \<Longrightarrow> trim_space s = s"
  by (auto simp: trim_space_def no_outer_space_def trim_left_id trim_right_id list_all_iff)

lemma trim_left_blank [strings_simps]: "trim_left (CHR '' '' # s) = trim_left s"
  by (subst trim_left.simps) (simp add: space_runes_def has_prefix_def)

lemma set_trim_left: "set (trim_left s) \<subseteq> set s"
proof (induction s rule: trim_left.induct)
  case (1 s)
  then show ?case
    by (subst trim_left.simps) (auto split: option.split dest: in_set_dropD)
qed

lemma set_trim_right: "set (trim_right s) \<subseteq> set s"
proof (induction s rule: trim_right.induct)
  case (1 s)
  then show ?case
    by (subst trim_right.simps) (auto split: option.split dest: in_set_takeD)
qed

lemma set_trim_space: "set (trim_space s) \<subseteq> set s"
  unfolding trim_space_def using set_trim_left set_trim_right by blast

text \<open>\<open>strings.TrimRight(s, ">")\<close>: every trailing byte of a one-byte cut set goes.\<close>

definition trim_right_byte :: "char \<Rightarrow> go_string \<Rightarrow> go_string" where
  "trim_right_byte c s = rev (dropWhile (\<lambda>x. x = c) (rev s))"

section \<open>Case and prefixes\<close>

text \<open>
  \<open>strings.ToLower\<close> on the bytes below 128; the other bytes are kept.  The program only asks
  whether the result starts with an ASCII text, and no rune outside ASCII has one of the letters
  of \<open>bearer\<close> as its lower case.
\<close>

definition lower_char :: "char \<Rightarrow> char" where
  "lower_char c =
     (let n = of_char c :: nat in if 65 \<le> n \<and> n \<le> 90 then char_of (n + 32) else c)"

definition to_lower :: "go_string \<Rightarrow> go_string" where
  "to_lower s = map lower_char s"

definition contains_any :: "go_string \<Rightarrow> go_string \<Rightarrow> bool" where
  "contains_any s chars = list_ex (\<lambda>c. c \<in> set chars) s"

lemma contains_any_iff: "contains_any s chars \<longleftrightarrow> set s \<inter> set chars \<noteq> {}"
  by (auto simp: contains_any_def list_ex_iff)

section \<open>Decimal numbers\<close>

definition digit_char :: "nat \<Rightarrow> char" where
  "digit_char d = char_of (48 + d)"

definition is_digit :: "char \<Rightarrow> bool" where
  "is_digit c \<longleftrightarrow> (48::nat) \<le> of_char c \<and> of_char c \<le> (57::nat)"

definition digit_val :: "char \<Rightarrow> int" where
  "digit_val c = int (of_char c) - 48"

fun itoa_nat :: "nat \<Rightarrow> go_string" where
  "itoa_nat n =
     (if n < 10 then [digit_char n] else itoa_nat (n div 10) @ [digit_char (n mod 10)])"

declare itoa_nat.simps [simp del]

text \<open>\<open>strconv.Itoa\<close>, and what \<open>fmt\<close> prints for \<open>%d\<close>.\<close>

definition itoa :: "int \<Rightarrow> go_string" where
  "itoa n = (if n < 0 then CHR ''-'' # itoa_nat (nat (- n)) else itoa_nat (nat n))"

definition parse_digits :: "go_string \<Rightarrow> int option" where
  "parse_digits s =
     (if s = [] \<or> \<not> list_all is_digit s then None
      else Some (foldl (\<lambda>v c. 10 * v + digit_val c) 0 s))"

text \<open>\<open>strconv.Atoi\<close>: an optional sign, at least one digit, and a value that fits 64 bits.\<close>

definition atoi :: "go_string \<Rightarrow> int option" where
  "atoi s =
     (case s of
        [] \<Rightarrow> None
      | c # cs \<Rightarrow>
          (let neg = (c = CHR ''-''); body = (if c = CHR ''-'' \<or> c = CHR ''+'' then cs else s)
           in case parse_digits body of
                None \<Rightarrow> None
              | Some n \<Rightarrow> let v = (if neg then - n else n) in if int64 v then Some v else None))"

lemma of_char_digit [simp]: "d < 10 \<Longrightarrow> of_char (digit_char d) = (48 + d :: nat)"
  by (simp add: digit_char_def)

lemma digit_char_simps [simp]:
  "d < 10 \<Longrightarrow> is_digit (digit_char d)"
  "d < 10 \<Longrightarrow> digit_val (digit_char d) = int d"
  by (simp_all add: is_digit_def digit_val_def digit_char_def)

lemma itoa_nat_not_Nil [simp]: "itoa_nat n \<noteq> []"
  by (subst itoa_nat.simps) simp

lemma itoa_nat_digits: "list_all is_digit (itoa_nat n)"
proof (induction n rule: itoa_nat.induct)
  case (1 n)
  then show ?case by (subst itoa_nat.simps) simp
qed

lemma itoa_nat_value: "foldl (\<lambda>v c. 10 * v + digit_val c) 0 (itoa_nat n) = int n"
proof (induction n rule: itoa_nat.induct)
  case (1 n)
  show ?case
  proof (cases "n < 10")
    case True
    then show ?thesis by (subst itoa_nat.simps) simp
  next
    case False
    with 1 have "foldl (\<lambda>v c. 10 * v + digit_val c) 0 (itoa_nat (n div 10)) = int (n div 10)"
      by simp
    moreover have "10 * int (n div 10) + int (n mod 10) = int n"
      by presburger
    ultimately show ?thesis using False by (subst itoa_nat.simps) simp
  qed
qed

lemma parse_itoa_nat [simp]: "parse_digits (itoa_nat n) = Some (int n)"
  by (simp add: parse_digits_def itoa_nat_digits itoa_nat_value)

lemma is_digit_not_sign: "is_digit c \<Longrightarrow> c \<noteq> CHR ''-'' \<and> c \<noteq> CHR ''+''"
  by (auto simp: is_digit_def)

lemma atoi_itoa [strings_simps]:
  assumes "int64 n"
  shows "atoi (itoa n) = Some n"
proof (cases "n < 0")
  case True
  with assms show ?thesis by (simp add: itoa_def atoi_def)
next
  case False
  obtain c cs where c: "itoa_nat (nat n) = c # cs"
    by (metis list.exhaust itoa_nat_not_Nil)
  have "is_digit c" using itoa_nat_digits [of "nat n"] c by simp
  with c False assms parse_itoa_nat [of "nat n"] show ?thesis
    by (simp add: itoa_def atoi_def is_digit_not_sign)
qed

lemma atoi_int64: "atoi s = Some n \<Longrightarrow> int64 n"
  by (auto simp: atoi_def Let_def split: list.splits option.splits if_splits)

lemma inj_itoa: "int64 m \<Longrightarrow> int64 n \<Longrightarrow> itoa m = itoa n \<Longrightarrow> m = n"
  by (metis atoi_itoa option.inject)

lemma set_itoa_nat: "set (itoa_nat n) \<subseteq> {c. is_digit c}"
  using itoa_nat_digits [of n] by (auto simp: list_all_iff)

text \<open>\<open>strconv.ParseBool\<close>.\<close>

definition parse_bool :: "go_string \<Rightarrow> bool option" where
  "parse_bool s =
     (if s \<in> set [''1'', ''t'', ''T'', ''true'', ''TRUE'', ''True''] then Some True
      else if s \<in> set [''0'', ''f'', ''F'', ''false'', ''FALSE'', ''False''] then Some False
      else None)"

section \<open>Hexadecimal\<close>

text \<open>\<open>hex.EncodeToString\<close>: two lower-case digits for each byte.\<close>

definition hex_digit :: "nat \<Rightarrow> char" where
  "hex_digit d = ''0123456789abcdef'' ! d"

definition hex_byte :: "byte \<Rightarrow> go_string" where
  "hex_byte b = [hex_digit (unat b div 16), hex_digit (unat b mod 16)]"

definition hex_encode :: "byte list \<Rightarrow> go_string" where
  "hex_encode bs = concat (map hex_byte bs)"

definition is_hex :: "char \<Rightarrow> bool" where
  "is_hex c \<longleftrightarrow> c \<in> set ''0123456789abcdef''"

lemma unat_byte_less [simp]: "unat (b :: byte) < 256"
  using unsigned_less [of b, where ?'a = nat] by simp

lemma unat_byte_div [simp]: "unat (b :: byte) div 16 < 16"
  using unat_byte_less [of b] by linarith

lemma is_hex_digit: "d < 16 \<Longrightarrow> is_hex (hex_digit d)"
  unfolding is_hex_def hex_digit_def by (rule nth_mem) simp

lemma hex_digit_inj: "d < 16 \<Longrightarrow> e < 16 \<Longrightarrow> hex_digit d = hex_digit e \<longleftrightarrow> d = e"
  unfolding hex_digit_def by (rule nth_eq_iff_index_eq) simp_all

lemma hex_byte_inj [simp]: "hex_byte a = hex_byte b \<longleftrightarrow> a = b"
proof
  assume "hex_byte a = hex_byte b"
  then have "unat a div 16 = unat b div 16" "unat a mod 16 = unat b mod 16"
    by (simp_all add: hex_byte_def hex_digit_inj)
  then have "unat a = unat b" by (metis div_mult_mod_eq)
  then show "a = b" by (rule unsigned_word_eqI)
qed simp

lemma length_hex_byte [simp]: "length (hex_byte b) = 2"
  by (simp add: hex_byte_def)

lemma length_hex_encode [strings_simps]: "length (hex_encode bs) = 2 * length bs"
  by (induction bs) (simp_all add: hex_encode_def)

lemma hex_encode_hex [strings_simps]: "list_all is_hex (hex_encode bs)"
  by (induction bs) (simp_all add: hex_encode_def hex_byte_def is_hex_digit)

lemma hex_encode_simps [simp]:
  "hex_encode [] = []"
  "hex_encode (b # bs) = hex_byte b @ hex_encode bs"
  by (simp_all add: hex_encode_def)

lemma hex_encode_inj [simp]: "hex_encode as = hex_encode bs \<longleftrightarrow> as = bs"
proof (induction as arbitrary: bs)
  case Nil
  then show ?case by (cases bs) (simp_all add: hex_byte_def)
next
  case (Cons a as)
  show ?case
  proof (cases bs)
    case Nil
    then show ?thesis by (simp add: hex_byte_def)
  next
    case (Cons b cs)
    have "hex_byte a @ hex_encode as = hex_byte b @ hex_encode cs \<longleftrightarrow>
        hex_byte a = hex_byte b \<and> hex_encode as = hex_encode cs"
      by (rule append_eq_append_conv) simp
    with Cons Cons.IH show ?thesis by simp
  qed
qed

section \<open>Host and port\<close>

definition index_byte :: "char \<Rightarrow> go_string \<Rightarrow> nat option" where
  "index_byte c s = (if c \<in> set s then Some (length (takeWhile (\<lambda>x. x \<noteq> c) s)) else None)"

definition last_index_byte :: "char \<Rightarrow> go_string \<Rightarrow> nat option" where
  "last_index_byte c s = map_option (\<lambda>i. length s - Suc i) (index_byte c (rev s))"

text \<open>
  \<open>net.SplitHostPort\<close>; \<open>None\<close> is any of its errors.  In brackets the host may hold colons, and
  the closing bracket must stand right before the last colon.
\<close>

definition split_host_port :: "go_string \<Rightarrow> (go_string \<times> go_string) option" where
  "split_host_port s =
     (let finish = (\<lambda>i host j k.
            if CHR ''['' \<in> set (drop j s) \<or> CHR '']'' \<in> set (drop k s) then None
            else Some (host, drop (Suc i) s))
      in case last_index_byte (CHR '':'') s of
           None \<Rightarrow> None
         | Some i \<Rightarrow>
             if has_prefix s ''['' then
               (case index_byte (CHR '']'') s of
                  None \<Rightarrow> None
                | Some e \<Rightarrow>
                    if Suc e = i then finish i (take (e - 1) (drop 1 s)) 1 (Suc e) else None)
             else if CHR '':'' \<in> set (take i s) then None
             else finish i (take i s) 0 0)"

text \<open>\<open>net.JoinHostPort\<close>.\<close>

definition join_host_port :: "go_string \<Rightarrow> go_string \<Rightarrow> go_string" where
  "join_host_port host port =
     (if CHR '':'' \<in> set host then ''['' @ host @ '']:'' @ port else host @ '':'' @ port)"

lemma index_byte_append: "c \<notin> set a \<Longrightarrow> index_byte c (a @ c # b) = Some (length a)"
  by (auto simp: index_byte_def takeWhile_append)

lemma last_index_byte_append [simp]:
  "c \<notin> set b \<Longrightarrow> last_index_byte c (a @ c # b) = Some (length a)"
  using index_byte_append [of c "rev b" "rev a"] by (simp add: last_index_byte_def)

definition plain_host :: "go_string \<Rightarrow> bool" where
  "plain_host s \<longleftrightarrow> CHR ''['' \<notin> set s \<and> CHR '']'' \<notin> set s"

lemma plain_host_no_bracket: "plain_host h \<Longrightarrow> \<not> has_prefix (h @ CHR '':'' # p) ''[''"
  by (cases h) (auto simp: has_prefix_def plain_host_def)

lemma split_join_host_port [strings_simps]:
  assumes "plain_host host" "plain_host port" "CHR '':'' \<notin> set port"
  shows "split_host_port (join_host_port host port) = Some (host, port)"
proof (cases "CHR '':'' \<in> set host")
  case False
  with assms show ?thesis
    by (simp add: split_host_port_def join_host_port_def plain_host_no_bracket plain_host_def)
next
  case True
  let ?s = "CHR ''['' # host @ CHR '']'' # CHR '':'' # port"
  have "last_index_byte (CHR '':'') ?s = Some (Suc (Suc (length host)))"
    using last_index_byte_append [of "CHR '':''" port "CHR ''['' # host @ [CHR '']'']"] assms
    by simp
  moreover have "index_byte (CHR '']'') ?s = Some (Suc (length host))"
    using index_byte_append [of "CHR '']''" "CHR ''['' # host"] assms
    by (simp add: plain_host_def)
  moreover have "has_prefix ?s ''[''" by (simp add: has_prefix_def)
  ultimately show ?thesis using True assms
    by (simp add: split_host_port_def join_host_port_def plain_host_def)
qed

end
