(* ===== verification/Go_Random.thy ===== *)
theory Go_Random
  imports Go_Strings
begin

text \<open>
  The random sources of the program.  \<open>math/rand/v2\<close> and \<open>crypto/rand\<close> are read as a tape of
  choices: every draw takes the next natural number of the tape and reduces it to the range
  asked for, so each sequence of results the library may return is the outcome of some tape, and
  a theorem for all tapes holds for every behaviour of the library.  \<open>faults\<close> gives the text of
  the error with which a read of the entropy source fails, where it does.

  A generator has type \<open>rng \<Rightarrow> ('a \<times> rng) option\<close>; \<open>None\<close> is a Go panic (\<open>IntN\<close> panics on a bound
  that is not positive, the key generators panic when the entropy source fails).
\<close>

section \<open>The tape\<close>

record rng =
  draws :: "nat \<Rightarrow> nat"
  faults :: "nat \<Rightarrow> go_string option"
  cursor :: nat

definition advance :: "nat \<Rightarrow> rng \<Rightarrow> rng" where
  "advance n r = r\<lparr>cursor := cursor r + n\<rparr>"

definition no_faults :: "rng \<Rightarrow> bool" where
  "no_faults r \<longleftrightarrow> (\<forall>i. faults r i = None)"

text \<open>\<open>rand.IntN(n)\<close>: a number in \<open>[0, n)\<close>; panics when \<open>n \<le> 0\<close>.\<close>

definition rand_IntN :: "int \<Rightarrow> rng \<Rightarrow> (int \<times> rng) option" where
  "rand_IntN n r =
     (if n \<le> 0 then None else Some (int (draws r (cursor r)) mod n, advance 1 r))"

text \<open>\<open>crypto/rand.Read\<close> on a buffer of \<open>n\<close> bytes: the bytes, or an error.\<close>

definition crypto_Read :: "nat \<Rightarrow> rng \<Rightarrow> (go_string + byte list) \<times> rng" where
  "crypto_Read n r =
     (case faults r (cursor r) of
        Some err \<Rightarrow> (Inl err, advance 1 r)
      | None \<Rightarrow> (Inr (map (\<lambda>i. of_nat (draws r (cursor r + i))) [0..<n]), advance n r))"

text \<open>\<open>crypto/rand.Int(rand.Reader, big.NewInt(n))\<close>: panics when \<open>n \<le> 0\<close>; the read may fail.\<close>

definition crypto_Int :: "int \<Rightarrow> rng \<Rightarrow> ((go_string + int) \<times> rng) option" where
  "crypto_Int n r =
     (if n \<le> 0 then None
      else case faults r (cursor r) of
             Some err \<Rightarrow> Some (Inl err, advance 1 r)
           | None \<Rightarrow> Some (Inr (int (draws r (cursor r)) mod n), advance 1 r))"

lemma advance_simps [simp]:
  "draws (advance n r) = draws r" "faults (advance n r) = faults r"
  "cursor (advance n r) = cursor r + n"
  by (simp_all add: advance_def)

lemma no_faults_advance [simp]: "no_faults (advance n r) \<longleftrightarrow> no_faults r"
  by (simp add: no_faults_def)

lemma rand_IntN_total [random_intros]:
  "0 < n \<Longrightarrow> \<exists>x r'. rand_IntN n r = Some (x, r') \<and> 0 \<le> x \<and> x < n"
  by (simp add: rand_IntN_def)

lemma rand_IntN_range: "rand_IntN n r = Some (x, r') \<Longrightarrow> 0 \<le> x \<and> x < n"
  by (auto simp: rand_IntN_def split: if_splits)

lemma rand_IntN_panics: "rand_IntN n r = None \<longleftrightarrow> n \<le> 0"
  by (simp add: rand_IntN_def)

lemma crypto_Read_ok: "no_faults r \<Longrightarrow> \<exists>bs. crypto_Read n r = (Inr bs, advance n r) \<and> length bs = n"
  by (simp add: crypto_Read_def no_faults_def)

lemma crypto_Read_length: "crypto_Read n r = (Inr bs, r') \<Longrightarrow> length bs = n"
  by (auto simp: crypto_Read_def split: option.splits)

lemma crypto_Int_total [random_intros]:
  "0 < n \<Longrightarrow> \<exists>res r'. crypto_Int n r = Some (res, r') \<and> (\<forall>x. res = Inr x \<longrightarrow> 0 \<le> x \<and> x < n)"
  by (auto simp: crypto_Int_def split: option.splits)

text \<open>Every number of the range is the outcome of some tape.\<close>

lemma rand_IntN_surj:
  assumes "0 \<le> x" "x < n"
  shows "rand_IntN n \<lparr>draws = (\<lambda>_. nat x), faults = f, cursor = c\<rparr>
    = Some (x, advance 1 \<lparr>draws = (\<lambda>_. nat x), faults = f, cursor = c\<rparr>)"
  using assms by (simp add: rand_IntN_def)

section \<open>Filling a slice\<close>

text \<open>
  The loop \<open>for i := range results { results[i] = gen(i) }\<close>: \<open>fill_from i n gen\<close> makes the
  elements of the indices \<open>i\<close> to \<open>i + n - 1\<close>, in this order, from one tape.  \<open>try_fill\<close> is the same
  loop with \<open>if err != nil { return nil, err }\<close> in its body.
\<close>

type_synonym 'a gen = "nat \<Rightarrow> rng \<Rightarrow> ('a \<times> rng) option"

fun fill_from :: "nat \<Rightarrow> nat \<Rightarrow> 'a gen \<Rightarrow> rng \<Rightarrow> ('a list \<times> rng) option" where
  "fill_from i 0 gen r = Some ([], r)"
| "fill_from i (Suc n) gen r = do {
     (x, r') \<leftarrow> gen i r;
     (xs, r'') \<leftarrow> fill_from (Suc i) n gen r';
     Some (x # xs, r'')
   }"

fun try_fill_from :: "nat \<Rightarrow> nat \<Rightarrow> ('e + 'a) gen \<Rightarrow> rng \<Rightarrow> (('e + 'a list) \<times> rng) option" where
  "try_fill_from i 0 gen r = Some (Inr [], r)"
| "try_fill_from i (Suc n) gen r = do {
     (x, r') \<leftarrow> gen i r;
     (case x of
        Inl e \<Rightarrow> Some (Inl e, r')
      | Inr x \<Rightarrow> do {
          (xs, r'') \<leftarrow> try_fill_from (Suc i) n gen r';
          Some (map_sum id ((#) x) xs, r'')
        })
   }"

definition fill :: "int \<Rightarrow> 'a gen \<Rightarrow> rng \<Rightarrow> ('a list \<times> rng) option" where
  "fill count gen = fill_from 0 (nat count) gen"

definition try_fill :: "int \<Rightarrow> ('e + 'a) gen \<Rightarrow> rng \<Rightarrow> (('e + 'a list) \<times> rng) option" where
  "try_fill count gen = try_fill_from 0 (nat count) gen"

section \<open>The contract of a generator\<close>

text \<open>
  What a loop over a generator relies on: for a parameter \<open>p\<close> that satisfies \<open>ok\<close>, the generator
  does not panic; a value it makes at index \<open>i\<close> satisfies \<open>good p i\<close>, an error it returns satisfies
  \<open>bad p\<close>.  Every generator of the service layer interprets one of the two locales; the facts on
  whole result slices are proved once, here.
\<close>

locale fallible_generator =
  fixes ok :: "'p \<Rightarrow> bool"
    and gen :: "'p \<Rightarrow> ('e + 'a) gen"
    and good :: "'p \<Rightarrow> nat \<Rightarrow> 'a \<Rightarrow> bool"
    and bad :: "'p \<Rightarrow> 'e \<Rightarrow> bool"
  assumes gen_outcome: "ok p \<Longrightarrow> \<exists>x r'. gen p i r = Some (x, r') \<and>
    (case x of Inl e \<Rightarrow> bad p e | Inr a \<Rightarrow> good p i a)"
begin

lemma try_fill_from_outcome:
  assumes "ok p"
  shows "\<exists>res r'. try_fill_from i n (gen p) r = Some (res, r') \<and>
    (case res of
       Inl e \<Rightarrow> bad p e
     | Inr xs \<Rightarrow> length xs = n \<and> (\<forall>j < n. good p (i + j) (xs ! j)))"
proof (induction n arbitrary: i r)
  case 0
  show ?case by simp
next
  case (Suc n)
  obtain x r1 where x: "gen p i r = Some (x, r1)"
      and g: "case x of Inl e \<Rightarrow> bad p e | Inr a \<Rightarrow> good p i a"
    using gen_outcome [OF assms] by blast
  show ?case
  proof (cases x)
    case (Inl e)
    with x g show ?thesis by simp
  next
    case (Inr a)
    obtain res r2 where res: "try_fill_from (Suc i) n (gen p) r1 = Some (res, r2)"
        "case res of Inl e \<Rightarrow> bad p e
         | Inr xs \<Rightarrow> length xs = n \<and> (\<forall>j < n. good p (Suc i + j) (xs ! j))"
      using Suc.IH by blast
    with x g Inr show ?thesis
      by (cases res) (auto simp: less_Suc_eq_0_disj)
  qed
qed

lemma try_fill_outcome:
  assumes "ok p" "0 \<le> count"
  shows "\<exists>res r'. try_fill count (gen p) r = Some (res, r') \<and>
    (case res of
       Inl e \<Rightarrow> bad p e
     | Inr xs \<Rightarrow> int (length xs) = count \<and> (\<forall>j < length xs. good p j (xs ! j)))"
  using try_fill_from_outcome [OF assms(1), of 0 "nat count" r] assms(2)
  by (auto simp: try_fill_def split: sum.splits)

end

locale generator =
  fixes ok :: "'p \<Rightarrow> bool"
    and gen :: "'p \<Rightarrow> 'a gen"
    and good :: "'p \<Rightarrow> nat \<Rightarrow> 'a \<Rightarrow> bool"
  assumes gen_total: "ok p \<Longrightarrow> \<exists>x r'. gen p i r = Some (x, r') \<and> good p i x"

text \<open>A generator that cannot fail is a fallible one whose error is impossible.\<close>

definition never_fails :: "'a gen \<Rightarrow> (unit + 'a) gen" where
  "never_fails g i r = map_option (\<lambda>(x, r'). (Inr x, r')) (g i r)"

sublocale generator \<subseteq> lifted: fallible_generator ok "\<lambda>p. never_fails (gen p)" good "\<lambda>p e. False"
proof unfold_locales
  fix p i r
  assume "ok p"
  then show "\<exists>x r'. never_fails (gen p) i r = Some (x, r') \<and>
      (case x of Inl e \<Rightarrow> False | Inr a \<Rightarrow> good p i a)"
    using gen_total [of p i r] by (auto simp: never_fails_def)
qed

lemma try_fill_from_never_fails:
  "try_fill_from i n (never_fails g) r =
     map_option (\<lambda>(xs, r'). (Inr xs, r')) (fill_from i n g r)"
  by (induction i n g r rule: fill_from.induct)
     (auto simp: never_fails_def split: Option.bind_splits)

lemma try_fill_never_fails:
  "try_fill n (never_fails g) r = map_option (\<lambda>(xs, r'). (Inr xs, r')) (fill n g r)"
  by (simp add: try_fill_def fill_def try_fill_from_never_fails)

context generator
begin

lemma gen_good: "ok p \<Longrightarrow> gen p i r = Some (x, r') \<Longrightarrow> good p i x"
  using gen_total [of p i r] by auto

lemma fill_total:
  assumes "ok p" "0 \<le> count"
  shows "\<exists>xs r'. fill count (gen p) r = Some (xs, r') \<and> int (length xs) = count \<and>
    (\<forall>j < length xs. good p j (xs ! j))"
  using lifted.try_fill_outcome [OF assms, of r]
  by (fastforce simp: try_fill_never_fails)

end

text \<open>The two library draws are the first generators.\<close>

interpretation intn: generator "\<lambda>n. 0 < n" "\<lambda>n i. rand_IntN n" "\<lambda>n i x. 0 \<le> x \<and> x < n"
  by unfold_locales (rule rand_IntN_total)

section \<open>Picking an element\<close>

text \<open>\<open>words[rand.IntN(len(words))]\<close>; panics on an empty list.\<close>

definition rand_pick :: "'a list \<Rightarrow> rng \<Rightarrow> ('a \<times> rng) option" where
  "rand_pick ws r = do {
     (i, r') \<leftarrow> rand_IntN (int (length ws)) r;
     Some (ws ! nat i, r')
   }"

lemma rand_pick_total [random_intros]:
  "ws \<noteq> [] \<Longrightarrow> \<exists>w r'. rand_pick ws r = Some (w, r') \<and> w \<in> set ws"
  using rand_IntN_total [of "int (length ws)" r] by (auto simp: rand_pick_def)

interpretation pick: generator "\<lambda>ws. ws \<noteq> []" "\<lambda>ws i. rand_pick ws" "\<lambda>ws i w. w \<in> set ws"
  by unfold_locales (rule rand_pick_total)

end
