(* ===== verification/Limiter_Redis.thy ===== *)
theory Limiter_Redis
  imports Rate_Limiter Go_Random
begin

text \<open>
  The distributed backend, \<open>ratelimiter/redis.go\<close>: the Lua script it runs on the server, the
  decoding of the reply, and \<open>AllowN\<close> around them.  The Redis server is not part of the program:
  the commands the script calls are a parameter, with the documented effect of each as the laws of
  the locale \<open>redis_server\<close>.  Times of the model are nanoseconds since the Unix epoch.
\<close>

section \<open>The script\<close>

text \<open>
  \<open>zremrangebyscore k m\<close> is \<open>ZREMRANGEBYSCORE k -inf m\<close>; \<open>zrange_first k\<close> is the score that
  \<open>ZRANGE k 0 0 WITHSCORES\<close> returns, if it returns any.
\<close>

record 's redis_commands =
  zremrangebyscore :: "go_string \<Rightarrow> int \<Rightarrow> 's \<Rightarrow> 's"
  zcard :: "go_string \<Rightarrow> 's \<Rightarrow> int"
  zadd :: "go_string \<Rightarrow> int \<Rightarrow> go_string \<Rightarrow> 's \<Rightarrow> 's"
  pexpire :: "go_string \<Rightarrow> int \<Rightarrow> 's \<Rightarrow> 's"
  zrange_first :: "go_string \<Rightarrow> 's \<Rightarrow> int option"

text \<open>An element of a reply: a 64-bit integer, or something else.\<close>

datatype redis_value = Int64 int | OtherValue

definition slidingWindowLua ::
  "'s redis_commands \<Rightarrow> go_string \<Rightarrow> int \<Rightarrow> int \<Rightarrow> int \<Rightarrow> go_string \<Rightarrow> 's
    \<Rightarrow> redis_value list \<times> 's" where
  "slidingWindowLua redis key now window limit member s =
     (let s1 = zremrangebyscore redis key (now - window) s;
          count = zcard redis key s1;
          (allowed, count', s2) =
            (if count < limit then
               (1, count + 1, pexpire redis key window (zadd redis key now member s1))
             else (0, count, s1));
          oldest_ts = (case zrange_first redis key s2 of Some ts \<Rightarrow> ts | None \<Rightarrow> 0)
      in ([Int64 allowed, Int64 count', Int64 oldest_ts], s2))"

section \<open>The client\<close>

definition parseScriptResult :: "redis_value list \<Rightarrow> limiter_error + bool \<times> int \<times> int" where
  "parseScriptResult res =
     (if length res \<noteq> 3 then Inl ErrUnexpectedResult
      else
        (case res ! 0 of
           OtherValue \<Rightarrow> Inl ErrInvalidResultType
         | Int64 allowedRaw \<Rightarrow>
             (case res ! 1 of
                OtherValue \<Rightarrow> Inl ErrInvalidResultType
              | Int64 countRaw \<Rightarrow>
                  (case res ! 2 of
                     OtherValue \<Rightarrow> Inl ErrInvalidResultType
                   | Int64 oldestMsRaw \<Rightarrow> Inr (allowedRaw = 1, countRaw, oldestMsRaw)))))"

text \<open>The error of \<open>rand.Read\<close> is dropped: the buffer stays zero.\<close>

definition randomHex :: "nat \<Rightarrow> rng \<Rightarrow> go_string \<times> rng" where
  "randomHex n r =
     (case crypto_Read n r of
        (Inl err, r') \<Rightarrow> (hex_encode (replicate n 0), r')
      | (Inr b, r') \<Rightarrow> (hex_encode b, r'))"

text \<open>\<open>time.UnixMilli\<close>.\<close>

definition millis :: "time \<Rightarrow> int" where
  "millis t = t div 1000000"

definition redis_key :: "go_string \<Rightarrow> go_string" where
  "redis_key key = ''rate:'' @ key"

lemma redis_key_inj [simp]: "redis_key a = redis_key b \<longleftrightarrow> a = b"
  by (simp add: redis_key_def)

text \<open>
  How a call to the server ends: the reply arrives; the call fails before the script ran; or it
  fails after the script ran (the context's deadline passed).
\<close>

datatype delivery = Delivered | Lost go_string | ReplyLost go_string

record RedisRateLimiter =
  redis_rpm :: int

definition redis_AllowN ::
  "'s redis_commands \<Rightarrow> go_string \<Rightarrow> int \<Rightarrow> time \<Rightarrow> delivery \<Rightarrow> 's \<times> rng
    \<Rightarrow> (limiter_error + rl_result) \<times> 's \<times> rng" where
  "redis_AllowN redis key rpm now delivery = (\<lambda>(s, r).
     if rpm \<le> 0 then (Inr \<lparr>Allowed = False, Remaining = 0, ResetAt = now + Minute\<rparr>, s, r)
     else
       (let nowMs = millis now;
            windowMs = 60000;
            redisKey = redis_key key;
            (nonce, r') = randomHex 8 r;
            member = itoa nowMs @ CHR '':'' # nonce;
            (res, s') = slidingWindowLua redis redisKey nowMs windowMs rpm member s
        in case delivery of
             Lost err \<Rightarrow> (Inl (BackendError err), s, r')
           | ReplyLost err \<Rightarrow> (Inl (BackendError err), s', r')
           | Delivered \<Rightarrow>
               (case parseScriptResult res of
                  Inl err \<Rightarrow> (Inl err, s', r')
                | Inr (allowed, count, oldestMs) \<Rightarrow>
                    (let remaining = (if rpm - count < 0 then 0 else rpm - count);
                         resetAt = (if oldestMs > 0 then oldestMs * 1000000 + Minute
                                    else now + Minute)
                     in (Inr \<lparr>Allowed = allowed, Remaining = remaining, ResetAt = resetAt\<rparr>,
                         s', r')))))"

definition redis_Allow ::
  "'s redis_commands \<Rightarrow> RedisRateLimiter \<Rightarrow> go_string \<Rightarrow> time \<Rightarrow> delivery \<Rightarrow> 's \<times> rng
    \<Rightarrow> (limiter_error + rl_result) \<times> 's \<times> rng" where
  "redis_Allow redis rl key now delivery = redis_AllowN redis key (redis_rpm rl) now delivery"

lemma parse_three_ints [simp]:
  "parseScriptResult [Int64 a, Int64 c, Int64 t] = Inr (a = 1, c, t)"
  by (simp add: parseScriptResult_def)

section \<open>The server\<close>

text \<open>
  \<open>zset s k\<close> is the content of the sorted set at key \<open>k\<close>, as pairs of member and score;
  \<open>deadline s k\<close> is the server time at which the key expires, if it does; \<open>server_at T s\<close> is the
  server once its clock shows \<open>T\<close>, which is when due keys vanish.
\<close>

locale redis_server =
  fixes redis :: "'s redis_commands"
    and zset :: "'s \<Rightarrow> go_string \<Rightarrow> (go_string \<times> int) set"
    and deadline :: "'s \<Rightarrow> go_string \<Rightarrow> int option"
    and clock :: "'s \<Rightarrow> int"
    and server_at :: "int \<Rightarrow> 's \<Rightarrow> 's"
  assumes zset_finite: "finite (zset s k)"
    and zrem_zset: "zset (zremrangebyscore redis k m s) =
      (zset s)(k := {p \<in> zset s k. m < snd p})"
    and zrem_deadline: "deadline (zremrangebyscore redis k m s) k' \<in> {None, deadline s k'}"
    and zrem_clock: "clock (zremrangebyscore redis k m s) = clock s"
    and zcard_card: "zcard redis k s = int (card (zset s k))"
    and zadd_zset: "zset (zadd redis k sc x s) =
      (zset s)(k := insert (x, sc) {p \<in> zset s k. fst p \<noteq> x})"
    and zadd_deadline: "deadline (zadd redis k sc x s) = deadline s"
    and zadd_clock: "clock (zadd redis k sc x s) = clock s"
    and pexpire_zset: "zset (pexpire redis k d s) = zset s"
    and pexpire_deadline: "zset s k \<noteq> {} \<Longrightarrow>
      deadline (pexpire redis k d s) = (deadline s)(k \<mapsto> clock s + d)"
    and pexpire_clock: "clock (pexpire redis k d s) = clock s"
    and zrange_Min: "zrange_first redis k s =
      (if zset s k = {} then None else Some (Min (snd ` zset s k)))"
    and server_zset: "zset (server_at T s) k =
      (case deadline s k of Some d \<Rightarrow> if d \<le> T then {} else zset s k | None \<Rightarrow> zset s k)"
    and server_deadline: "deadline (server_at T s) k \<in> {None, deadline s k}"
    and server_clock: "clock (server_at T s) = T"

text \<open>
  A request, when it reaches the server at the time of the clock reading the client took; the
  passage of time on the server is the clean-up of this backend.
\<close>

definition redis_admit ::
  "'s redis_commands \<Rightarrow> (int \<Rightarrow> 's \<Rightarrow> 's) \<Rightarrow> ('s \<times> rng) admission" where
  "redis_admit redis server_at sr key n now =
     (case redis_AllowN redis key n now Delivered (server_at (millis now) (fst sr), snd sr) of
        (res, sr') \<Rightarrow> (case res of Inl err \<Rightarrow> False | Inr x \<Rightarrow> Allowed x, sr'))"

definition redis_sweep :: "(int \<Rightarrow> 's \<Rightarrow> 's) \<Rightarrow> 's \<times> rng \<Rightarrow> time \<Rightarrow> 's \<times> rng" where
  "redis_sweep server_at sr now = (server_at (millis now) (fst sr), snd sr)"

text \<open>
  The nonces: the \<open>i\<close>-th eight bytes the tape will give, as hex.  Members of the sets differ from
  the members of the next \<open>b\<close> requests because their nonces do.
\<close>

definition nonce :: "rng \<Rightarrow> nat \<Rightarrow> go_string" where
  "nonce r i = hex_encode (map (\<lambda>j. of_nat (draws r (cursor r + 8 * i + j))) [0..<8])"

definition unique_nonces :: "nat \<Rightarrow> rng \<Rightarrow> bool" where
  "unique_nonces b r \<longleftrightarrow> no_faults r \<and> inj_on (nonce r) {..<b}"

lemma randomHex_nonce:
  assumes "no_faults r"
  shows "randomHex 8 r = (nonce r 0, advance 8 r)"
  using assms by (simp add: randomHex_def crypto_Read_def nonce_def no_faults_def)

lemma nonce_advance: "nonce (advance 8 r) i = nonce r (Suc i)"
  by (simp add: nonce_def algebra_simps)

lemma unique_nonces_advance: "unique_nonces (Suc b) r \<Longrightarrow> unique_nonces b (advance 8 r)"
  by (auto simp: unique_nonces_def inj_on_def nonce_advance)

lemma millis_mono: "t \<le> t' \<Longrightarrow> millis t \<le> millis t'"
  by (simp add: millis_def zdiv_mono1)

text \<open>A colon does not occur in a decimal number, so equal members have equal nonces.\<close>

lemma colon_notin_itoa: "CHR '':'' \<notin> set (itoa n)"
proof -
  have "CHR '':'' \<notin> set (itoa_nat k)" for k
    using set_itoa_nat [of k] by (auto simp: is_digit_def)
  then show ?thesis by (simp add: itoa_def)
qed

lemma member_nonce:
  assumes "itoa m @ CHR '':'' # x = itoa n @ CHR '':'' # y"
  shows "x = y"
proof -
  have "dropWhile (\<lambda>c. c \<noteq> CHR '':'') (itoa k @ CHR '':'' # z) = CHR '':'' # z" for k z
    using colon_notin_itoa [of k] by (subst dropWhile_append2) auto
  then show ?thesis using assms by (metis list.inject)
qed

context redis_server
begin

definition spent :: "nat \<Rightarrow> 's \<Rightarrow> rng \<Rightarrow> bool" where
  "spent b s r \<longleftrightarrow>
     (\<forall>k x sc m i. (x, sc) \<in> zset s k \<longrightarrow> i < b \<longrightarrow> x \<noteq> itoa m @ CHR '':'' # nonce r i)"

definition redis_inv :: "nat \<Rightarrow> time \<Rightarrow> 's \<times> rng \<Rightarrow> bool" where
  "redis_inv b now = (\<lambda>(s, r). unique_nonces b r \<and> spent b s r \<and> clock s \<le> millis now \<and>
     (\<forall>k x sc. (x, sc) \<in> zset s k \<longrightarrow> sc \<le> millis now \<and>
        (\<forall>d. deadline s k = Some d \<longrightarrow> sc + 60000 \<le> d)))"

definition redis_used :: "'s \<times> rng \<Rightarrow> go_string \<Rightarrow> time \<Rightarrow> nat" where
  "redis_used = (\<lambda>(s, r) k t. card {p \<in> zset s (redis_key k). millis t - 60000 < snd p})"

lemma redis_inv_shrink:
  assumes "redis_inv b now (s, r)" "\<And>k. zset s' k \<subseteq> zset s k"
    "\<And>k. deadline s' k \<in> {None, deadline s k}" "clock s' \<le> millis now"
  shows "redis_inv b now (s', r)"
proof -
  have "spent b s' r" using assms(1,2) unfolding redis_inv_def spent_def by blast
  moreover have "sc \<le> millis now \<and> (\<forall>d. deadline s' k = Some d \<longrightarrow> sc + 60000 \<le> d)"
    if "(x, sc) \<in> zset s' k" for k x sc
  proof -
    have "(x, sc) \<in> zset s k" using that assms(2) by blast
    then have "sc \<le> millis now \<and> (\<forall>d. deadline s k = Some d \<longrightarrow> sc + 60000 \<le> d)"
      using assms(1) by (auto simp: redis_inv_def)
    then show ?thesis using assms(3) [of k] by auto
  qed
  ultimately show ?thesis using assms(1,4) by (auto simp: redis_inv_def)
qed

lemma server_at_subset: "zset (server_at T s) k \<subseteq> zset s k"
  by (auto simp: server_zset split: option.splits if_splits)

lemma redis_inv_server_at:
  assumes "redis_inv b now (s, r)"
  shows "redis_inv b now (server_at (millis now) s, r)"
  by (rule redis_inv_shrink [OF assms server_at_subset server_deadline]) (simp add: server_clock)

text \<open>A key that expires holds nothing that still counts.\<close>

definition counted :: "'s \<Rightarrow> go_string \<Rightarrow> int \<Rightarrow> (go_string \<times> int) set" where
  "counted s k T = {p \<in> zset s k. T - 60000 < snd p}"

lemma redis_used_counted: "redis_used (s, r) k t = card (counted s (redis_key k) (millis t))"
  by (simp add: redis_used_def counted_def)

lemma counted_server_at:
  assumes inv: "redis_inv b now (s, r)" and T: "millis now \<le> T"
  shows "counted (server_at (millis now) s) k T = counted s k T"
proof (cases "\<exists>d. deadline s k = Some d \<and> d \<le> millis now")
  case False
  then show ?thesis by (auto simp: counted_def server_zset split: option.splits)
next
  case True
  then obtain d where d: "deadline s k = Some d" "d \<le> millis now" by blast
  have "snd p + 60000 \<le> d" if "p \<in> zset s k" for p
    using inv d(1) that by (cases p) (auto simp: redis_inv_def)
  then have "counted s k T = {}" using d T by (fastforce simp: counted_def)
  with d show ?thesis by (simp add: counted_def server_zset)
qed

text \<open>The script, run when the server's clock shows the time it is given.\<close>

definition after_script :: "go_string \<Rightarrow> int \<Rightarrow> int \<Rightarrow> go_string \<Rightarrow> 's \<Rightarrow> 's" where
  "after_script k T n x s = snd (slidingWindowLua redis k T 60000 n x s)"

definition script_allows :: "go_string \<Rightarrow> int \<Rightarrow> int \<Rightarrow> 's \<Rightarrow> bool" where
  "script_allows k T n s \<longleftrightarrow> int (card (counted s k T)) < n"

lemma zrem_counted: "zset (zremrangebyscore redis k (T - 60000) s) k = counted s k T"
  by (simp add: zrem_zset counted_def)

lemma script_reply:
  "\<exists>c t. fst (slidingWindowLua redis k T 60000 n x s) =
     [Int64 (if script_allows k T n s then 1 else 0), Int64 c, Int64 t]"
  by (simp add: slidingWindowLua_def Let_def zcard_card zrem_counted script_allows_def)

lemma script_state:
  "after_script k T n x s =
     (let s1 = zremrangebyscore redis k (T - 60000) s
      in if script_allows k T n s then pexpire redis k 60000 (zadd redis k T x s1) else s1)"
  by (simp add: after_script_def slidingWindowLua_def Let_def zcard_card zrem_counted
      script_allows_def)

lemma script_zset:
  assumes "\<forall>sc. (x, sc) \<notin> zset s k"
  shows "zset (after_script k T n x s) =
    (zset s)(k := counted s k T \<union> (if script_allows k T n s then {(x, T)} else {}))"
proof -
  have "{p \<in> counted s k T. fst p \<noteq> x} = counted s k T"
    using assms by (auto simp: counted_def)
  then show ?thesis
    by (intro ext) (simp add: script_state Let_def pexpire_zset zadd_zset zrem_zset counted_def)
qed

definition member_of :: "time \<Rightarrow> rng \<Rightarrow> go_string" where
  "member_of now r = itoa (millis now) @ CHR '':'' # nonce r 0"

lemma spent_advance: "spent (Suc b) s r \<Longrightarrow> spent b s (advance 8 r)"
  unfolding spent_def nonce_advance by (metis Suc_less_eq)

lemma member_unspent: "spent (Suc b) s r \<Longrightarrow> \<forall>sc. (member_of now r, sc) \<notin> zset s k"
  unfolding spent_def member_of_def by blast

lemma member_differs:
  assumes "unique_nonces (Suc b) r" "i < b"
  shows "member_of now r \<noteq> itoa m @ CHR '':'' # nonce (advance 8 r) i"
proof
  assume "member_of now r = itoa m @ CHR '':'' # nonce (advance 8 r) i"
  then have "nonce r 0 = nonce r (Suc i)"
    unfolding member_of_def nonce_advance by (rule member_nonce)
  with assms show False by (auto simp: unique_nonces_def inj_on_def)
qed

lemma redis_inv_advance: "redis_inv (Suc b) now (s, r) \<Longrightarrow> redis_inv b now (s, advance 8 r)"
  by (simp add: redis_inv_def unique_nonces_advance spent_advance)

text \<open>After a request was added, its key's deadline is a full window away.\<close>

lemma redis_inv_add:
  assumes inv: "redis_inv (Suc b) now (s, r)" and clock: "clock s = millis now"
  shows "redis_inv b now (pexpire redis k 60000 (zadd redis k (millis now) (member_of now r) s),
    advance 8 r)" (is "redis_inv b now (?s, _)")
proof -
  have unsp: "spent (Suc b) s r" and uniq: "unique_nonces (Suc b) r" using inv by (simp_all add: redis_inv_def)
  have z: "zset ?s = (zset s)(k := insert (member_of now r, millis now)
      {p \<in> zset s k. fst p \<noteq> member_of now r})"
    by (simp add: pexpire_zset zadd_zset)
  have d: "deadline ?s = (deadline s)(k \<mapsto> millis now + 60000)"
    using clock by (subst pexpire_deadline) (simp_all add: zadd_zset zadd_deadline zadd_clock)
  have "spent b ?s (advance 8 r)"
    using spent_advance [OF unsp] member_differs [OF uniq, THEN not_sym]
    unfolding spent_def z by (auto split: if_splits)
  moreover have "sc \<le> millis now \<and> (\<forall>e. deadline ?s k' = Some e \<longrightarrow> sc + 60000 \<le> e)"
    if "(x, sc) \<in> zset ?s k'" for k' x sc
    using inv that unfolding z d redis_inv_def by (auto split: if_splits)
  ultimately show ?thesis
    using clock uniq by (simp add: redis_inv_def unique_nonces_advance pexpire_clock zadd_clock)
qed

lemma redis_inv_script:
  assumes inv: "redis_inv (Suc b) now (s, r)" and clock: "clock s = millis now"
  shows "redis_inv b now (after_script k (millis now) n (member_of now r) s, advance 8 r)"
proof -
  let ?s1 = "zremrangebyscore redis k (millis now - 60000) s"
  have s1: "redis_inv (Suc b) now (?s1, r)"
    by (rule redis_inv_shrink [OF inv _ zrem_deadline]) (auto simp: zrem_zset zrem_clock clock)
  have "clock ?s1 = millis now" by (simp add: zrem_clock clock)
  with s1 show ?thesis
    by (simp add: script_state Let_def redis_inv_add redis_inv_advance)
qed

text \<open>\<open>AllowN\<close> in terms of the script.\<close>

lemma redis_AllowN_delivered:
  assumes "no_faults r" "0 < n"
  shows "\<exists>res. redis_AllowN redis key n now Delivered (s, r) =
      (Inr res, after_script (redis_key key) (millis now) n (member_of now r) s, advance 8 r) \<and>
    Allowed res = script_allows (redis_key key) (millis now) n s"
proof -
  let ?k = "redis_key key"
  obtain c t where "fst (slidingWindowLua redis ?k (millis now) 60000 n (member_of now r) s) =
      [Int64 (if script_allows ?k (millis now) n s then 1 else 0), Int64 c, Int64 t]"
    using script_reply by blast
  then have "slidingWindowLua redis ?k (millis now) 60000 n (member_of now r) s =
      ([Int64 (if script_allows ?k (millis now) n s then 1 else 0), Int64 c, Int64 t],
       after_script ?k (millis now) n (member_of now r) s)"
    by (simp add: after_script_def prod_eq_iff)
  then show ?thesis
    using assms by (simp add: redis_AllowN_def randomHex_nonce member_of_def Let_def)
qed

lemma redis_admit_eq:
  assumes "no_faults r" "0 < n"
  shows "redis_admit redis server_at (s, r) key n now =
    (script_allows (redis_key key) (millis now) n (server_at (millis now) s),
     after_script (redis_key key) (millis now) n (member_of now r) (server_at (millis now) s),
     advance 8 r)"
  using redis_AllowN_delivered [OF assms, of key now "server_at (millis now) s"]
  by (auto simp: redis_admit_def)

lemma redis_admit_nonpos:
  "n \<le> 0 \<Longrightarrow> redis_admit redis server_at (s, r) key n now = (False, server_at (millis now) s, r)"
  by (simp add: redis_admit_def redis_AllowN_def)

lemma redis_inv_no_faults: "redis_inv b now (s, r) \<Longrightarrow> no_faults r"
  by (simp add: redis_inv_def unique_nonces_def)

lemma redis_inv_less: "redis_inv (Suc b) now s \<Longrightarrow> redis_inv b now s"
  by (cases s) (auto simp: redis_inv_def unique_nonces_def inj_on_def spent_def)

lemma redis_inv_admit:
  assumes "redis_inv (Suc b) now (s, r)"
  shows "redis_inv b now (snd (redis_admit redis server_at (s, r) key n now))"
  using redis_inv_server_at [OF assms] redis_inv_server_at [OF redis_inv_less [OF assms]]
    redis_inv_no_faults [OF assms]
  by (cases "0 < n")
    (simp_all add: redis_admit_eq redis_admit_nonpos redis_inv_script server_clock)

lemma redis_admit_allows:
  assumes "redis_inv (Suc b) now (s, r)"
  shows "fst (redis_admit redis server_at (s, r) key n now) \<longleftrightarrow>
    0 < n \<and> int (redis_used (s, r) key now) < n"
  using redis_inv_no_faults [OF assms] counted_server_at [OF assms order_refl]
  by (cases "0 < n")
    (simp_all add: redis_admit_eq redis_admit_nonpos script_allows_def redis_used_counted)

lemma redis_used_script:
  assumes inv: "redis_inv (Suc b) now (s, r)" and t: "now \<le> t"
  shows "redis_used (after_script (redis_key key) (millis now) n (member_of now r) s, r') k t =
    redis_used (s, r) k t +
      (if script_allows (redis_key key) (millis now) n s \<and> k = key \<and>
          millis t - 60000 < millis now then 1 else 0)"
proof -
  let ?k = "redis_key key" and ?x = "member_of now r"
  have fresh: "\<forall>sc. (?x, sc) \<notin> zset s ?k"
    by (rule member_unspent [of b]) (use inv in \<open>simp add: redis_inv_def\<close>)
  have z: "zset (after_script ?k (millis now) n ?x s) = (zset s)(?k :=
      counted s ?k (millis now) \<union> (if script_allows ?k (millis now) n s then {(?x, millis now)} else {}))"
    by (rule script_zset [OF fresh])
  show ?thesis
  proof (cases "k = key")
    case False
    then show ?thesis by (simp add: redis_used_counted counted_def z)
  next
    case True
    have fin: "finite (counted s ?k T)" for T
      by (simp add: counted_def zset_finite)
    have notin: "(?x, millis now) \<notin> counted s ?k T" for T
      using fresh by (simp add: counted_def)
    have "counted (after_script ?k (millis now) n ?x s) ?k (millis t) =
        counted s ?k (millis t) \<union>
        (if script_allows ?k (millis now) n s \<and> millis t - 60000 < millis now
         then {(?x, millis now)} else {})"
      using millis_mono [OF t] by (auto simp: counted_def z)
    then show ?thesis using True fin notin by (simp add: redis_used_counted)
  qed
qed

lemma redis_used_admit:
  assumes inv: "redis_inv (Suc b) now (s, r)" and t: "now \<le> t"
  shows "redis_used (snd (redis_admit redis server_at (s, r) key n now)) k t =
    redis_used (s, r) k t +
      (if fst (redis_admit redis server_at (s, r) key n now) \<and> k = key \<and>
          millis t - 60000 < millis now then 1 else 0)"
proof (cases "0 < n")
  case False
  then show ?thesis
    using counted_server_at [OF inv millis_mono [OF t]]
    by (simp add: redis_admit_nonpos redis_used_counted)
next
  case True
  have inv': "redis_inv (Suc b) now (server_at (millis now) s, r)"
    by (rule redis_inv_server_at [OF inv])
  have "redis_used (server_at (millis now) s, r) k t = redis_used (s, r) k t"
    using counted_server_at [OF inv millis_mono [OF t]] by (simp add: redis_used_counted)
  with True redis_used_script [OF inv' t, of key n "advance 8 r" k] redis_inv_no_faults [OF inv]
  show ?thesis by (simp add: redis_admit_eq)
qed

end

text \<open>A server that keeps its documented behaviour makes this backend a sliding window.\<close>

sublocale redis_server \<subseteq> rwin: sliding_window "redis_admit redis server_at" "redis_sweep server_at"
  redis_inv redis_used millis 60000
proof unfold_locales
  fix b :: nat and t t' :: time and s :: "'s \<times> rng" and k k' :: go_string and n :: int
  show "t \<le> t' \<Longrightarrow> millis t \<le> millis t'" by (rule millis_mono)
  obtain sv r where s: "s = (sv, r)" by (cases s)
  show "redis_inv b t s \<Longrightarrow> t \<le> t' \<Longrightarrow> redis_inv b t' s"
    using millis_mono [of t t'] by (fastforce simp: redis_inv_def s)
  show "redis_inv (Suc b) t s \<Longrightarrow> redis_inv b t s"
    by (rule redis_inv_less)
  show "redis_inv (Suc b) t s \<Longrightarrow> redis_inv b t (snd (redis_admit redis server_at s k n t))"
    by (simp add: s redis_inv_admit)
  show "redis_inv b t s \<Longrightarrow> redis_inv b t (redis_sweep server_at s t)"
    by (simp add: s redis_sweep_def redis_inv_server_at)
  show "redis_inv (Suc b) t s \<Longrightarrow> fst (redis_admit redis server_at s k n t) \<longleftrightarrow>
      0 < n \<and> int (redis_used s k t) < n"
    by (simp add: s redis_admit_allows)
  show "redis_inv (Suc b) t s \<Longrightarrow> t \<le> t' \<Longrightarrow>
      redis_used (snd (redis_admit redis server_at s k n t)) k' t' = redis_used s k' t' +
        (if fst (redis_admit redis server_at s k n t) \<and> k' = k \<and> millis t' - 60000 < millis t
         then 1 else 0)"
    by (simp add: s redis_used_admit)
  show "redis_inv b t s \<Longrightarrow> t \<le> t' \<Longrightarrow>
      redis_used (redis_sweep server_at s t) k t' = redis_used s k t'"
    using counted_server_at [OF _ millis_mono]
    by (simp add: s redis_sweep_def redis_used_counted)
qed

end
