(* ===== verification/World.thy ===== *)
theory World
  imports Store_Postgres Limiter_Memory Limiter_Redis
begin

text \<open>
  The state a running server acts on, and the outside world it reads: the tables, the random tape,
  the clock, the database server, the mail server and the rate limiters.  What the outside does at
  its \<open>i\<close>-th use is a tape, so a theorem that quantifies over worlds covers every behaviour.
\<close>

text \<open>
  A mail handed to \<open>smtp.SendMail\<close>.  The server takes it, or the call fails; a failed call may have
  left the mail with the server.
\<close>

record mail =
  mail_server :: go_string
  mail_auth :: "(go_string \<times> go_string) option"
  mail_from :: go_string
  mail_to :: go_string
  mail_data :: go_string

datatype smtp_outcome = Sent | NotSent go_string | SentUnconfirmed go_string

record 's world =
  w_db :: database
  w_pg :: "nat \<Rightarrow> pg_call"
  w_pgn :: nat
  w_rng :: rng
  w_clock :: "nat \<Rightarrow> time"
  w_clockn :: nat
  w_smtp :: "nat \<Rightarrow> smtp_outcome"
  w_smtpn :: nat
  w_outbox :: "mail list"
  w_memory :: MemoryRateLimiter      \<comment> \<open>the limiter of the main API, if in process\<close>
  w_redis :: 's                      \<comment> \<open>the Redis server, if that is the backend\<close>
  w_net :: "nat \<Rightarrow> delivery"
  w_netn :: nat
  w_auth :: MemoryRateLimiter        \<comment> \<open>the limiter of the auth endpoints\<close>

text \<open>\<open>time.Now()\<close>.\<close>

definition time_Now :: "'s world \<Rightarrow> time \<times> 's world" where
  "time_Now w = (w_clock w (w_clockn w), w\<lparr>w_clockn := Suc (w_clockn w)\<rparr>)"

text \<open>A method of the store.\<close>

definition sql :: "(pg_call \<Rightarrow> database \<Rightarrow> 'a \<times> database) \<Rightarrow> 's world \<Rightarrow> 'a \<times> 's world" where
  "sql m w =
     (let (res, db) = m (w_pg w (w_pgn w)) (w_db w)
      in (res, w\<lparr>w_db := db, w_pgn := Suc (w_pgn w)\<rparr>))"

text \<open>A generator of the service layer; \<open>None\<close> if it panics.\<close>

definition random :: "(rng \<Rightarrow> ('a \<times> rng) option) \<Rightarrow> 's world \<Rightarrow> ('a \<times> 's world) option" where
  "random g w = map_option (\<lambda>(x, r). (x, w\<lparr>w_rng := r\<rparr>)) (g (w_rng w))"

text \<open>
  \<open>smtp.SendMail\<close>: it rejects an address with a line break before it connects
  (\<open>validateLine\<close> of \<open>net/smtp\<close>).
\<close>

definition has_line_break :: "go_string \<Rightarrow> bool" where
  "has_line_break s \<longleftrightarrow> CHR 0x0A \<in> set s \<or> CHR 0x0D \<in> set s"

definition smtp_SendMail :: "mail \<Rightarrow> 's world \<Rightarrow> (go_string + unit) \<times> 's world" where
  "smtp_SendMail m w =
     (if has_line_break (mail_from m) \<or> has_line_break (mail_to m)
      then (Inl ''smtp: A line must not contain CR or LF'', w)
      else
        (let w' = w\<lparr>w_smtpn := Suc (w_smtpn w)\<rparr>; out = w_outbox w @ [m]
         in case w_smtp w (w_smtpn w) of
              Sent \<Rightarrow> (Inr (), w'\<lparr>w_outbox := out\<rparr>)
            | NotSent err \<Rightarrow> (Inl err, w')
            | SentUnconfirmed err \<Rightarrow> (Inl err, w'\<lparr>w_outbox := out\<rparr>)))"

text \<open>
  The interface \<open>ratelimiter.RateLimiter\<close>: a value of it is a pair of methods.  The in-process
  limiter reads the clock under its lock; the distributed one before it calls the server.
\<close>

record 's RateLimiter =
  Allow :: "go_string \<Rightarrow> 's world \<Rightarrow> (limiter_error + rl_result) \<times> 's world"
  AllowN :: "go_string \<Rightarrow> int \<Rightarrow> 's world \<Rightarrow> (limiter_error + rl_result) \<times> 's world"

definition memory_call ::
  "('s world \<Rightarrow> MemoryRateLimiter) \<Rightarrow> ((MemoryRateLimiter \<Rightarrow> MemoryRateLimiter) \<Rightarrow> 's world \<Rightarrow> 's world)
    \<Rightarrow> (MemoryRateLimiter \<Rightarrow> time \<Rightarrow> rl_result \<times> MemoryRateLimiter) \<Rightarrow> 's world
    \<Rightarrow> (limiter_error + rl_result) \<times> 's world" where
  "memory_call get upd m w =
     (let (now, w1) = time_Now w; (res, rl) = m (get w1) now in (Inr res, upd (\<lambda>_. rl) w1))"

definition memory_limiter ::
  "('s world \<Rightarrow> MemoryRateLimiter) \<Rightarrow> ((MemoryRateLimiter \<Rightarrow> MemoryRateLimiter) \<Rightarrow> 's world \<Rightarrow> 's world)
    \<Rightarrow> 's RateLimiter" where
  "memory_limiter get upd =
     \<lparr>Allow = (\<lambda>key. memory_call get upd (\<lambda>rl. memory_Allow rl key)),
      AllowN = (\<lambda>key rpm. memory_call get upd (\<lambda>rl. memory_AllowN rl key rpm))\<rparr>"

definition redis_call ::
  "(time \<Rightarrow> delivery \<Rightarrow> 's \<times> rng \<Rightarrow> (limiter_error + rl_result) \<times> 's \<times> rng) \<Rightarrow> 's world
    \<Rightarrow> (limiter_error + rl_result) \<times> 's world" where
  "redis_call m w =
     (let (now, w1) = time_Now w;
          (res, s, r) = m now (w_net w1 (w_netn w1)) (w_redis w1, w_rng w1)
      in (res, w1\<lparr>w_redis := s, w_rng := r, w_netn := Suc (w_netn w1)\<rparr>))"

definition redis_limiter :: "'s redis_commands \<Rightarrow> RedisRateLimiter \<Rightarrow> 's RateLimiter" where
  "redis_limiter redis rl =
     \<lparr>Allow = (\<lambda>key. redis_call (\<lambda>now. redis_Allow redis rl key now)),
      AllowN = (\<lambda>key rpm. redis_call (\<lambda>now. redis_AllowN redis key rpm now))\<rparr>"

section \<open>What an operation leaves alone\<close>

text \<open>
  \<open>quiet w w'\<close>: nothing durable happened from \<open>w\<close> to \<open>w'\<close>; the tables and the outbox are the same.
\<close>

definition quiet :: "'s world \<Rightarrow> 's world \<Rightarrow> bool" where
  "quiet w w' \<longleftrightarrow> w_db w' = w_db w \<and> w_outbox w' = w_outbox w"

lemma quiet_refl [simp]: "quiet w w"
  by (simp add: quiet_def)

lemma quiet_trans: "quiet u v \<Longrightarrow> quiet v w \<Longrightarrow> quiet u w"
  by (simp add: quiet_def)

lemma time_Now_quiet [simp]: "quiet w (snd (time_Now w))"
  by (simp add: quiet_def time_Now_def)

lemma random_quiet: "random g w = Some (x, w') \<Longrightarrow> quiet w w'"
  by (auto simp: random_def quiet_def)

lemma sql_db: "w_db (snd (sql m w)) = snd (m (w_pg w (w_pgn w)) (w_db w))"
  by (simp add: sql_def Let_def case_prod_beta)

lemma sql_fst: "fst (sql m w) = fst (m (w_pg w (w_pgn w)) (w_db w))"
  by (simp add: sql_def Let_def case_prod_beta)

lemma sql_outbox [simp]: "w_outbox (snd (sql m w)) = w_outbox w"
  by (simp add: sql_def Let_def case_prod_beta)

text \<open>A limiter that only touches its own state, the clock and the network.\<close>

definition tame_limiter :: "'s RateLimiter \<Rightarrow> bool" where
  "tame_limiter rl \<longleftrightarrow> (\<forall>key w. quiet w (snd (Allow rl key w))) \<and>
     (\<forall>key rpm w. quiet w (snd (AllowN rl key rpm w)))"

lemma memory_limiter_tame:
  assumes "\<And>f w. quiet w (upd f w)"
  shows "tame_limiter (memory_limiter get upd)"
  using assms
  by (auto simp: tame_limiter_def memory_limiter_def memory_call_def Let_def case_prod_beta
      intro: quiet_trans [OF time_Now_quiet])

lemma redis_limiter_tame: "tame_limiter (redis_limiter redis rl)"
  by (simp add: tame_limiter_def redis_limiter_def redis_call_def Let_def case_prod_beta quiet_def
      time_Now_def)

end
