(* ===== verification/Http.thy ===== *)
theory Http
  imports World "HOL-Library.AList"
begin

text \<open>
  Requests, the response writer, and the response helpers of \<open>handler/respond.go\<close>.  A handler takes
  a request and the state of the connection (world and response writer) to the state it leaves.
\<close>

section \<open>JSON values\<close>

datatype 'n json =
    JNull
  | JStr go_string
  | JInt int
  | JBool bool
  | JNum 'n                          \<comment> \<open>a floating-point number\<close>
  | JArr "'n json list"
  | JObj "(go_string \<times> 'n json) list"

fun members :: "'n json \<Rightarrow> (go_string \<times> 'n json) list" where
  "members (JObj ms) = ms"
| "members _ = []"

definition jget :: "go_string \<Rightarrow> 'n json \<Rightarrow> 'n json option" where
  "jget name j = map_of (members j) name"

section \<open>Requests and responses\<close>

text \<open>\<open>middleware.ClientInfo\<close>, carried by the request's context.\<close>

record ClientInfo =
  info_id :: go_string
  info_name :: go_string
  info_rpm :: int

text \<open>
  \<open>Headers\<close> maps a canonical header name to the first value it has, \<open>""\<close> if it has none, as
  \<open>Header.Get\<close> reads it.  \<open>Json\<close> is the first JSON value of the body, if the body starts with one.
\<close>

record 'n request =
  Method :: go_string
  Path :: go_string
  Query :: "(go_string \<times> go_string) list"
  Headers :: "go_string \<Rightarrow> go_string"
  RemoteAddr :: go_string
  Json :: "'n json option"
  RequestID :: go_string
  CtxClient :: "ClientInfo option"

datatype 'n payload = Encoded "'n json" | Bytes go_string

text \<open>
  The connection: the world, the header map, the status once it is written, the body written so
  far, and whether the handler panicked (the server then drops the connection).
\<close>

record ('s, 'n) conn =
  cworld :: "'s world"
  header :: "(go_string \<times> go_string) list"
  status :: "int option"
  body :: "'n payload list"
  panicked :: bool

definition new_conn :: "'s world \<Rightarrow> ('s, 'n) conn" where
  "new_conn w = \<lparr>cworld = w, header = [], status = None, body = [], panicked = False\<rparr>"

type_synonym ('s, 'n) handler = "'n request \<Rightarrow> ('s, 'n) conn \<Rightarrow> ('s, 'n) conn"

text \<open>\<open>w.Header().Set\<close>; what is set after the status line was written is not sent.\<close>

definition set_header :: "go_string \<Rightarrow> go_string \<Rightarrow> ('s, 'n) conn \<Rightarrow> ('s, 'n) conn" where
  "set_header k v c =
     (if status c = None then c\<lparr>header := AList.update k v (header c)\<rparr> else c)"

definition get_header :: "go_string \<Rightarrow> ('s, 'n) conn \<Rightarrow> go_string option" where
  "get_header k c = map_of (header c) k"

text \<open>\<open>w.WriteHeader\<close>: only the first call counts.\<close>

definition write_header :: "int \<Rightarrow> ('s, 'n) conn \<Rightarrow> ('s, 'n) conn" where
  "write_header code c = (if status c = None then c\<lparr>status := Some code\<rparr> else c)"

definition write_body :: "'n payload \<Rightarrow> ('s, 'n) conn \<Rightarrow> ('s, 'n) conn" where
  "write_body p c = (let c' = write_header 200 c in c'\<lparr>body := body c' @ [p]\<rparr>)"

definition panic :: "('s, 'n) conn \<Rightarrow> ('s, 'n) conn" where
  "panic c = c\<lparr>panicked := True\<rparr>"

text \<open>A status, a content type and one JSON value: how every response of the program is sent.\<close>

definition send_json :: "go_string \<Rightarrow> int \<Rightarrow> 'n json \<Rightarrow> ('s, 'n) conn \<Rightarrow> ('s, 'n) conn" where
  "send_json ctype code j c =
     write_body (Encoded j) (write_header code (set_header ''Content-Type'' ctype c))"

section \<open>Errors: RFC 9457 problems\<close>

definition json_type :: go_string where
  "json_type = ''application/json''"

definition problem_type :: go_string where
  "problem_type = ''application/problem+json''"

definition slugs :: "(go_string \<times> go_string) list" where
  "slugs =
     [(''RATE_LIMITED'', ''rate-limited''),
      (''INVALID_PARAM'', ''invalid-param''),
      (''INTERNAL_ERROR'', ''internal-error''),
      (''INVALID_API_KEY'', ''invalid-api-key''),
      (''SERVICE_UNAVAILABLE'', ''service-unavailable'')]"

definition titles :: "(go_string \<times> go_string) list" where
  "titles =
     [(''RATE_LIMITED'', ''Too Many Requests''),
      (''INVALID_PARAM'', ''Bad Request''),
      (''INTERNAL_ERROR'', ''Internal Server Error''),
      (''INVALID_API_KEY'', ''Unauthorized''),
      (''SERVICE_UNAVAILABLE'', ''Service Unavailable'')]"

definition errors_url :: go_string where
  "errors_url = ''https://zaas.at/errors/''"

definition problemTypeURL :: "go_string \<Rightarrow> go_string" where
  "problemTypeURL code =
     errors_url @ (case map_of slugs code of None \<Rightarrow> ''unknown'' | Some slug \<Rightarrow> slug)"

definition problemTitle :: "go_string \<Rightarrow> go_string" where
  "problemTitle code = (case map_of titles code of None \<Rightarrow> ''Error'' | Some title \<Rightarrow> title)"

definition problem_body ::
  "'n request \<Rightarrow> int \<Rightarrow> go_string \<Rightarrow> go_string \<Rightarrow> int \<Rightarrow> 'n json" where
  "problem_body r code_status code detail retryAfter =
     JObj ([(''code'', JStr code), (''detail'', JStr detail), (''instance'', JStr (Path r)),
            (''request_id'', JStr (RequestID r))] @
           (if retryAfter > 0 then [(''retry_after'', JInt retryAfter)] else []) @
           [(''status'', JInt code_status), (''title'', JStr (problemTitle code)),
            (''type'', JStr (problemTypeURL code))])"

definition WriteError ::
  "int \<Rightarrow> go_string \<Rightarrow> go_string \<Rightarrow> int \<Rightarrow> ('s, 'n) handler" where
  "WriteError code_status code detail retryAfter r c =
     send_json problem_type code_status (problem_body r code_status code detail retryAfter) c"

section \<open>Results\<close>

text \<open>The text of a timestamp is the library's; the value is the clock reading.\<close>

definition buildMeta ::
  "'n request \<Rightarrow> (go_string \<times> 'n json) list \<Rightarrow> ('s, 'n) conn \<Rightarrow> 'n json \<times> ('s, 'n) conn" where
  "buildMeta r params c =
     (let (now, w) = time_Now (cworld c)
      in (JObj [(''endpoint'', JStr (Path r)), (''params'', JObj params),
                (''request_id'', JStr (RequestID r)), (''timestamp'', JInt now)],
          c\<lparr>cworld := w\<rparr>))"

definition WriteSingle ::
  "'n json \<Rightarrow> (go_string \<times> 'n json) list \<Rightarrow> ('s, 'n) handler" where
  "WriteSingle res params r c =
     (let (meta, c') = buildMeta r params c
      in send_json json_type 200 (JObj [(''result'', res), (''meta'', meta)]) c')"

definition WriteMultiple ::
  "'n json list \<Rightarrow> (go_string \<times> 'n json) list \<Rightarrow> ('s, 'n) handler" where
  "WriteMultiple results params r c =
     (let (meta, c') = buildMeta r params c
      in send_json json_type 200 (JObj [(''results'', JArr results), (''meta'', meta)]) c')"

definition writeResults ::
  "('a \<Rightarrow> 'n json) \<Rightarrow> 'a list \<Rightarrow> (go_string \<times> 'n json) list \<Rightarrow> ('s, 'n) handler" where
  "writeResults enc results params =
     (case results of
        [x] \<Rightarrow> WriteSingle (enc x) params
      | _ \<Rightarrow> WriteMultiple (map enc results) params)"

definition defaultPtr :: "'a option \<Rightarrow> 'a \<Rightarrow> 'a" where
  "defaultPtr p def = (case p of None \<Rightarrow> def | Some x \<Rightarrow> x)"

lemma defaultPtr_simps [simp]: "defaultPtr None d = d" "defaultPtr (Some x) d = x"
  by (simp_all add: defaultPtr_def)

section \<open>What was sent\<close>

text \<open>\<open>replied code j c\<close>: the response is complete, with this status and this JSON body.\<close>

definition replied :: "int \<Rightarrow> 'n json \<Rightarrow> ('s, 'n) conn \<Rightarrow> bool" where
  "replied code j c \<longleftrightarrow> status c = Some code \<and> body c = [Encoded j] \<and> \<not> panicked c"

definition unsent :: "('s, 'n) conn \<Rightarrow> bool" where
  "unsent c \<longleftrightarrow> status c = None \<and> body c = [] \<and> \<not> panicked c"

lemma unsent_new [simp]: "unsent (new_conn w)"
  by (simp add: unsent_def new_conn_def)

lemma cworld_new [simp]: "cworld (new_conn w) = w"
  by (simp add: new_conn_def)

lemma set_header_simps [http_simps, simp]:
  "cworld (set_header k v c) = cworld c" "status (set_header k v c) = status c"
  "body (set_header k v c) = body c" "panicked (set_header k v c) = panicked c"
  "unsent (set_header k v c) = unsent c"
  by (simp_all add: set_header_def unsent_def)

lemma get_set_header [simp]:
  "status c = None \<Longrightarrow> get_header k (set_header k' v c) = (if k = k' then Some v else get_header k c)"
  by (simp add: get_header_def set_header_def update_conv')

lemma write_header_simps [simp]:
  "cworld (write_header code c) = cworld c" "panicked (write_header code c) = panicked c"
  "header (write_header code c) = header c" "body (write_header code c) = body c"
  "get_header k (write_header code c) = get_header k c"
  by (simp_all add: write_header_def get_header_def)

lemma status_write_header [simp]:
  "status (write_header code c) = (case status c of None \<Rightarrow> Some code | Some x \<Rightarrow> Some x)"
  by (simp add: write_header_def split: option.split)

lemma write_body_simps [simp]:
  "cworld (write_body p c) = cworld c" "panicked (write_body p c) = panicked c"
  "header (write_body p c) = header c" "body (write_body p c) = body c @ [p]"
  "status (write_body p c) = (case status c of None \<Rightarrow> Some 200 | Some x \<Rightarrow> Some x)"
  "get_header k (write_body p c) = get_header k c"
  by (simp_all add: write_body_def Let_def get_header_def)

lemma send_json_replied [http_simps]: "unsent c \<Longrightarrow> replied code j (send_json ctype code j c)"
  by (simp add: send_json_def replied_def unsent_def)

lemma send_json_simps [simp]:
  "cworld (send_json ctype code j c) = cworld c"
  "panicked (send_json ctype code j c) = panicked c"
  by (simp_all add: send_json_def)

lemma send_json_header:
  "unsent c \<Longrightarrow> get_header k (send_json ctype code j c) =
     (if k = ''Content-Type'' then Some ctype else get_header k c)"
  by (simp add: send_json_def unsent_def)

lemma send_json_status [simp]: "unsent c \<Longrightarrow> status (send_json ctype code j c) = Some code"
  by (simp add: send_json_def unsent_def)

lemma WriteError_replied [http_simps]:
  "unsent c \<Longrightarrow> replied st (problem_body r st code detail retry) (WriteError st code detail retry r c)"
  by (simp add: WriteError_def send_json_replied)

lemma WriteError_world [simp]: "cworld (WriteError st code detail retry r c) = cworld c"
  by (simp add: WriteError_def)

lemma WriteError_status [simp]: "unsent c \<Longrightarrow> status (WriteError st code detail retry r c) = Some st"
  by (simp add: WriteError_def)

lemma buildMeta_simps [simp]:
  "status (snd (buildMeta r ps c)) = status c" "body (snd (buildMeta r ps c)) = body c"
  "panicked (snd (buildMeta r ps c)) = panicked c" "header (snd (buildMeta r ps c)) = header c"
  "unsent (snd (buildMeta r ps c)) = unsent c"
  "cworld (snd (buildMeta r ps c)) = snd (time_Now (cworld c))"
  by (simp_all add: buildMeta_def Let_def case_prod_beta unsent_def)

lemma panic_simps [simp]:
  "cworld (panic c) = cworld c" "panicked (panic c)" "status (panic c) = status c"
  "body (panic c) = body c"
  by (simp_all add: panic_def)

text \<open>
  The shape of a result response: one result is sent bare under \<open>result\<close>, any other number as an
  array under \<open>results\<close>; the parameters come back in \<open>meta\<close>.
\<close>

definition results_body :: "'n json list \<Rightarrow> 'n json \<Rightarrow> 'n json" where
  "results_body xs meta =
     (case xs of [x] \<Rightarrow> JObj [(''result'', x), (''meta'', meta)]
      | _ \<Rightarrow> JObj [(''results'', JArr xs), (''meta'', meta)])"

definition meta_body :: "'n request \<Rightarrow> (go_string \<times> 'n json) list \<Rightarrow> time \<Rightarrow> 'n json" where
  "meta_body r params now =
     JObj [(''endpoint'', JStr (Path r)), (''params'', JObj params),
           (''request_id'', JStr (RequestID r)), (''timestamp'', JInt now)]"

lemma fst_buildMeta: "fst (buildMeta r ps c) = meta_body r ps (fst (time_Now (cworld c)))"
  by (simp add: buildMeta_def meta_body_def Let_def case_prod_beta)

lemma writeResults_replied [http_simps]:
  assumes "unsent c"
  shows "replied 200 (results_body (map enc xs) (meta_body r ps (fst (time_Now (cworld c)))))
    (writeResults enc xs ps r c)"
  using assms
  by (auto simp: writeResults_def WriteSingle_def WriteMultiple_def results_body_def Let_def
      case_prod_beta send_json_replied fst_buildMeta split: list.split)

lemma writeResults_world [simp]:
  "cworld (writeResults enc xs ps r c) = snd (time_Now (cworld c))"
  by (auto simp: writeResults_def WriteSingle_def WriteMultiple_def Let_def case_prod_beta
      split: list.split)

end
