(* ===== verification/Service_Errors.thy ===== *)
theory Service_Errors
  imports Go_Random
begin

text \<open>
  The errors of the service layer: the sentinel values of \<open>service/*.go\<close>, the formatted errors
  that wrap them (\<open>fmt.Errorf("%w: ...")\<close>) with the arguments of their format string, and the
  text \<open>err.Error()\<close> gives, which the handlers return to the client.  The quoting of \<open>%q\<close> is a
  parameter of the rendering.
\<close>

datatype sentinel =
    ErrInvalidSides
  | ErrCountOutOfRange
  | ErrInvalidFormat
  | ErrMinGreaterThanMax
  | ErrBoundsExceeded
  | ErrInvalidParam
  | ErrNoCharacterSets
  | ErrInvalidWordStyle
  | ErrSeparatorTooLong
  | ErrInvalidColorFormat
  | ErrInvalidKeyType
  | ErrInvalidKeyBits

text \<open>The pieces of a format string: literal text, \<open>%d\<close> and \<open>%q\<close>.\<close>

datatype piece = Lit go_string | D int | Q go_string

datatype service_error =
    Plain sentinel                      \<comment> \<open>the sentinel itself, or \<open>fmt.Errorf("%w", e)\<close>\<close>
  | Errorf sentinel "piece list"        \<comment> \<open>\<open>fmt.Errorf("%w: ...", e, args)\<close>\<close>
  | Library go_string                   \<comment> \<open>an error a library returned, with its text\<close>
  | Wrap "piece list" service_error     \<comment> \<open>\<open>fmt.Errorf("...: %w", args, err)\<close>\<close>

type_synonym 'a service = "rng \<Rightarrow> ((service_error + 'a) \<times> rng) option"

fun sentinel_text :: "sentinel \<Rightarrow> go_string" where
  "sentinel_text ErrInvalidSides = ''invalid sides value''"
| "sentinel_text ErrCountOutOfRange = ''count out of range''"
| "sentinel_text ErrInvalidFormat = ''invalid format''"
| "sentinel_text ErrMinGreaterThanMax = ''min must be <= max''"
| "sentinel_text ErrBoundsExceeded = ''bounds exceeded''"
| "sentinel_text ErrInvalidParam = ''invalid parameter''"
| "sentinel_text ErrNoCharacterSets = ''at least one character set must be enabled''"
| "sentinel_text ErrInvalidWordStyle = ''invalid word style''"
| "sentinel_text ErrSeparatorTooLong = ''separator too long''"
| "sentinel_text ErrInvalidColorFormat = ''invalid color format''"
| "sentinel_text ErrInvalidKeyType = ''invalid key type''"
| "sentinel_text ErrInvalidKeyBits = ''invalid key bits''"

fun piece_text :: "(go_string \<Rightarrow> go_string) \<Rightarrow> piece \<Rightarrow> go_string" where
  "piece_text quote (Lit s) = s"
| "piece_text quote (D n) = itoa n"
| "piece_text quote (Q s) = quote s"

fun error_text :: "(go_string \<Rightarrow> go_string) \<Rightarrow> service_error \<Rightarrow> go_string" where
  "error_text quote (Plain e) = sentinel_text e"
| "error_text quote (Errorf e ps) = sentinel_text e @ '': '' @ concat (map (piece_text quote) ps)"
| "error_text quote (Library err) = err"
| "error_text quote (Wrap ps e) = concat (map (piece_text quote) ps) @ '': '' @ error_text quote e"

text \<open>\<open>errors.Is(err, sentinel)\<close>.\<close>

fun error_is :: "service_error \<Rightarrow> sentinel \<Rightarrow> bool" where
  "error_is (Plain e) s \<longleftrightarrow> e = s"
| "error_is (Errorf e ps) s \<longleftrightarrow> e = s"
| "error_is (Library err) s \<longleftrightarrow> False"
| "error_is (Wrap ps e) s \<longleftrightarrow> error_is e s"

text \<open>The count check every endpoint but two shares, and its message.\<close>

definition count_error :: "int \<Rightarrow> int \<Rightarrow> service_error" where
  "count_error hi got = Errorf ErrCountOutOfRange
     [Lit ''count must be between 1 and '', D hi, Lit ''; got '', D got]"

text \<open>\<open>return nil, err\<close>, and the last line of a generating function, \<open>return results, nil\<close>.\<close>

definition fails :: "service_error \<Rightarrow> 'a service" where
  "fails e r = Some (Inl e, r)"

definition returns :: "(rng \<Rightarrow> ('a \<times> rng) option) \<Rightarrow> 'a service" where
  "returns g r = map_option (\<lambda>(x, r'). (Inr x, r')) (g r)"

lemma fails_simp [simp]: "fails e r = Some (Inl e, r)"
  by (simp add: fails_def)

lemma returns_eq_Some [simp]:
  "returns g r = Some (res, r') \<longleftrightarrow> (\<exists>x. res = Inr x \<and> g r = Some (x, r'))"
  by (auto simp: returns_def)

lemma returns_eq_None [simp]: "returns g r = None \<longleftrightarrow> g r = None"
  by (simp add: returns_def)

lemma count_error_is [simp]: "error_is (count_error hi got) s \<longleftrightarrow> s = ErrCountOutOfRange"
  by (auto simp: count_error_def)

end
