(* ===== verification/Service_Keys.thy ===== *)
theory Service_Keys
  imports Service_Errors
begin

text \<open>
  API keys, tokens and passwords: \<open>service/auth.go\<close> and \<open>service/password.go\<close>.  The SHA-256
  function of \<open>crypto/sha256\<close> is a parameter, \<open>sha256\<close>, from byte strings to 32 bytes.
\<close>

section \<open>Keys and tokens\<close>

definition GenerateAPIKey :: "rng \<Rightarrow> (go_string \<times> rng) option" where
  "GenerateAPIKey r =
     (case crypto_Read 16 r of
        (Inl err, r') \<Rightarrow> None
      | (Inr b, r') \<Rightarrow> Some (''zaas_'' @ hex_encode b, r'))"

definition HashKey :: "(go_string \<Rightarrow> byte list) \<Rightarrow> go_string \<Rightarrow> go_string" where
  "HashKey sha256 key = hex_encode (sha256 key)"

definition KeyPrefix :: "go_string \<Rightarrow> go_string" where
  "KeyPrefix key = (if length key < 8 then key else take 8 key)"

definition GenerateToken :: "rng \<Rightarrow> (go_string \<times> rng) option" where
  "GenerateToken r =
     (case crypto_Read 32 r of
        (Inl err, r') \<Rightarrow> None
      | (Inr b, r') \<Rightarrow> Some (hex_encode b, r'))"

text \<open>What the two generators make.\<close>

definition api_key_format :: "go_string \<Rightarrow> bool" where
  "api_key_format k \<longleftrightarrow>
     length k = 37 \<and> has_prefix k ''zaas_'' \<and> list_all is_hex (drop 5 k)"

definition token_format :: "go_string \<Rightarrow> bool" where
  "token_format t \<longleftrightarrow> length t = 64 \<and> list_all is_hex t"

lemma GenerateAPIKey_format: "GenerateAPIKey r = Some (k, r') \<Longrightarrow> api_key_format k"
  by (auto simp: GenerateAPIKey_def api_key_format_def has_prefix_def strings_simps
      dest: crypto_Read_length split: prod.splits sum.splits)

lemma GenerateAPIKey_total [random_intros]:
  "no_faults r \<Longrightarrow> \<exists>k r'. GenerateAPIKey r = Some (k, r') \<and> api_key_format k \<and> no_faults r'"
proof -
  assume "no_faults r"
  then obtain bs where "crypto_Read 16 r = (Inr bs, advance 16 r)" "no_faults (advance 16 r)"
    using crypto_Read_ok [of r 16] by auto
  then have "GenerateAPIKey r = Some (''zaas_'' @ hex_encode bs, advance 16 r)"
    by (simp add: GenerateAPIKey_def)
  with \<open>no_faults (advance 16 r)\<close> show ?thesis using GenerateAPIKey_format by blast
qed

lemma GenerateToken_format: "GenerateToken r = Some (t, r') \<Longrightarrow> token_format t"
  by (auto simp: GenerateToken_def token_format_def strings_simps
      dest: crypto_Read_length split: prod.splits sum.splits)

lemma GenerateToken_total [random_intros]:
  "no_faults r \<Longrightarrow> \<exists>t r'. GenerateToken r = Some (t, r') \<and> token_format t \<and> no_faults r'"
proof -
  assume "no_faults r"
  then obtain bs where "crypto_Read 32 r = (Inr bs, advance 32 r)" "no_faults (advance 32 r)"
    using crypto_Read_ok [of r 32] by auto
  then have "GenerateToken r = Some (hex_encode bs, advance 32 r)"
    by (simp add: GenerateToken_def)
  with \<open>no_faults (advance 32 r)\<close> show ?thesis using GenerateToken_format by blast
qed

lemma KeyPrefix_api_key:
  assumes "api_key_format k"
  shows "KeyPrefix k = ''zaas_'' @ take 3 (drop 5 k)"
proof -
  from assms obtain t where k: "k = ''zaas_'' @ t" "length k = 37"
    by (auto simp: api_key_format_def has_prefix_iff)
  then show ?thesis by (simp add: KeyPrefix_def)
qed

text \<open>The stored hash is 64 hex digits, and never the empty default of the column.\<close>

lemma HashKey_length: "length (sha256 key) = 32 \<Longrightarrow> length (HashKey sha256 key) = 64"
  by (simp add: HashKey_def strings_simps)

lemma HashKey_not_Nil: "length (sha256 key) = 32 \<Longrightarrow> HashKey sha256 key \<noteq> []"
  using HashKey_length by fastforce

lemma HashKey_eq_iff [simp]: "HashKey sha256 a = HashKey sha256 b \<longleftrightarrow> sha256 a = sha256 b"
  by (simp add: HashKey_def)

section \<open>Passwords\<close>

definition passwordSymbols :: go_string where
  "passwordSymbols = ''!@#$%^&*()-_=+''"

definition char_range :: "nat \<Rightarrow> nat \<Rightarrow> go_string" where
  "char_range a b = map char_of [a..<Suc b]"

definition password_charset :: "bool \<Rightarrow> bool \<Rightarrow> bool \<Rightarrow> bool \<Rightarrow> go_string" where
  "password_charset uppercase lowercase digits symbols =
     (if uppercase then char_range 65 90 else []) @
     (if lowercase then char_range 97 122 else []) @
     (if digits then char_range 48 57 else []) @
     (if symbols then passwordSymbols else [])"

definition password_byte :: "go_string \<Rightarrow> (service_error + char) gen" where
  "password_byte charset j r = do {
     (n, r') \<leftarrow> crypto_Int (int (length charset)) r;
     Some (case n of
             Inl err \<Rightarrow> Inl (Wrap [Lit ''crypto/rand failed''] (Library err))
           | Inr k \<Rightarrow> Inr (charset ! nat k), r')
   }"

definition password :: "go_string \<times> int \<Rightarrow> (service_error + go_string) gen" where
  "password = (\<lambda>(charset, len) i. try_fill len (password_byte charset))"

definition GeneratePasswords ::
  "int \<Rightarrow> int \<Rightarrow> bool \<Rightarrow> bool \<Rightarrow> bool \<Rightarrow> bool \<Rightarrow> go_string list service" where
  "GeneratePasswords count len uppercase lowercase digits symbols =
     (if \<not> uppercase \<and> \<not> lowercase \<and> \<not> digits \<and> \<not> symbols then
        fails (Plain ErrNoCharacterSets)
      else if len < 8 \<or> len > 128 then
        fails (Errorf ErrInvalidParam [Lit ''length must be between 8 and 128; got '', D len])
      else if count < 1 \<or> count > 100 then fails (count_error 100 count)
      else try_fill count
             (password (password_charset uppercase lowercase digits symbols, len)))"

definition entropy_error :: "service_error \<Rightarrow> bool" where
  "entropy_error e \<longleftrightarrow> (\<exists>err. e = Wrap [Lit ''crypto/rand failed''] (Library err))"

interpretation pwbyte: fallible_generator "\<lambda>cs. cs \<noteq> []" password_byte
  "\<lambda>cs i c. c \<in> set cs" "\<lambda>cs e. entropy_error e"
proof unfold_locales
  fix cs :: go_string and i r
  assume "cs \<noteq> []"
  then obtain n r' where n: "crypto_Int (int (length cs)) r = Some (n, r')"
      "\<forall>k. n = Inr k \<longrightarrow> 0 \<le> k \<and> k < int (length cs)"
    using crypto_Int_total [of "int (length cs)" r] by auto
  then show "\<exists>x r'. password_byte cs i r = Some (x, r') \<and>
      (case x of Inl e \<Rightarrow> entropy_error e | Inr c \<Rightarrow> c \<in> set cs)"
    by (cases n) (auto simp: password_byte_def entropy_error_def)
qed

interpretation pw: fallible_generator "\<lambda>(cs, len). cs \<noteq> [] \<and> 0 \<le> len" password
  "\<lambda>(cs, len) i s. int (length s) = len \<and> set s \<subseteq> set cs" "\<lambda>p e. entropy_error e"
proof unfold_locales
  fix p :: "go_string \<times> int" and i r
  assume ok: "case p of (cs, len) \<Rightarrow> cs \<noteq> [] \<and> 0 \<le> len"
  obtain cs len where p: "p = (cs, len)" by (cases p)
  obtain res r' where res: "try_fill len (password_byte cs) r = Some (res, r')"
      "case res of Inl e \<Rightarrow> entropy_error e
       | Inr s \<Rightarrow> int (length s) = len \<and> (\<forall>j < length s. s ! j \<in> set cs)"
    using pwbyte.try_fill_outcome [of cs len r] ok p by auto
  then show "\<exists>x r'. password p i r = Some (x, r') \<and>
      (case x of Inl e \<Rightarrow> entropy_error e
       | Inr a \<Rightarrow> (case p of (cs, len) \<Rightarrow> \<lambda>i s. int (length s) = len \<and> set s \<subseteq> set cs) i a)"
    using p by (auto simp: password_def subset_code(1) in_set_conv_nth split: sum.splits)
qed

lemma password_charset_not_Nil:
  "password_charset u l d s \<noteq> [] \<longleftrightarrow> u \<or> l \<or> d \<or> s"
  by (auto simp: password_charset_def char_range_def passwordSymbols_def)

definition password_error :: "int \<Rightarrow> int \<Rightarrow> bool \<Rightarrow> sentinel option" where
  "password_error count len any_set =
     (if \<not> any_set then Some ErrNoCharacterSets
      else if len < 8 \<or> 128 < len then Some ErrInvalidParam
      else if count < 1 \<or> 100 < count then Some ErrCountOutOfRange
      else None)"

lemma GeneratePasswords_outcome:
  "\<exists>res r'. GeneratePasswords count len u l d s r = Some (res, r') \<and>
    (case password_error count len (u \<or> l \<or> d \<or> s) of
       Some sen \<Rightarrow> (\<exists>e. res = Inl e \<and> error_is e sen) \<and> r' = r
     | None \<Rightarrow>
         (case res of
            Inl e \<Rightarrow> entropy_error e
          | Inr ps \<Rightarrow> int (length ps) = count \<and>
              list_all (\<lambda>p. int (length p) = len \<and> set p \<subseteq> set (password_charset u l d s)) ps))"
proof (cases "password_error count len (u \<or> l \<or> d \<or> s)")
  case None
  then have ok: "u \<or> l \<or> d \<or> s" "8 \<le> len" "len \<le> 128" "1 \<le> count" "count \<le> 100"
    by (auto simp: password_error_def split: if_splits)
  then have "password_charset u l d s \<noteq> []" by (simp add: password_charset_not_Nil)
  then obtain res r' where
      "try_fill count (password (password_charset u l d s, len)) r = Some (res, r')"
      "case res of Inl e \<Rightarrow> entropy_error e
       | Inr ps \<Rightarrow> int (length ps) = count \<and>
          (\<forall>j < length ps. int (length (ps ! j)) = len \<and>
             set (ps ! j) \<subseteq> set (password_charset u l d s))"
    using pw.try_fill_outcome [of "(password_charset u l d s, len)" count r] ok by auto
  with None ok show ?thesis
    by (cases res) (auto simp: GeneratePasswords_def list_all_nth)
next
  case (Some sen)
  then show ?thesis
    by (auto simp: GeneratePasswords_def password_error_def split: if_splits)
qed

end
