(* ===== verification/Middleware.thy ===== *)
theory Middleware
  imports Http Service_Keys
begin

text \<open>
  The middlewares (\<open>middleware/*.go\<close>): functions from the next handler to a handler.  The
  contract most of them share, locale \<open>gate\<close>, is that a middleware either hands on to the next
  handler or answers itself, and that it touches neither the tables nor the outbox.
\<close>

section \<open>The context\<close>

definition WithClient :: "'n request \<Rightarrow> ClientInfo \<Rightarrow> 'n request" where
  "WithClient r info = r\<lparr>CtxClient := Some info\<rparr>"

definition GetClient :: "'n request \<Rightarrow> ClientInfo option" where
  "GetClient r = CtxClient r"

definition ClientInfoFromStore :: "Client \<Rightarrow> ClientInfo" where
  "ClientInfoFromStore c =
     \<lparr>info_id = client_id c, info_name = DisplayName c, info_rpm = RateLimitRPM c\<rparr>"

section \<open>Authentication\<close>

definition mw_slugs :: "(go_string \<times> go_string) list" where
  "mw_slugs =
     [(''RATE_LIMITED'', ''rate-limited''),
      (''INVALID_PARAM'', ''invalid-param''),
      (''INTERNAL_ERROR'', ''internal-error''),
      (''INVALID_API_KEY'', ''invalid-api-key''),
      (''SERVICE_UNAVAILABLE'', ''service-unavailable''),
      (''INVALID_ADMIN_TOKEN'', ''invalid-admin-token'')]"

definition mw_titles :: "(go_string \<times> go_string) list" where
  "mw_titles =
     [(''RATE_LIMITED'', ''Too Many Requests''),
      (''INVALID_PARAM'', ''Bad Request''),
      (''INTERNAL_ERROR'', ''Internal Server Error''),
      (''INVALID_API_KEY'', ''Unauthorized''),
      (''SERVICE_UNAVAILABLE'', ''Service Unavailable''),
      (''INVALID_ADMIN_TOKEN'', ''Unauthorized'')]"

definition writeProblem :: "go_string \<Rightarrow> go_string \<Rightarrow> ('s, 'n) handler" where
  "writeProblem code detail r c =
     (let slug = (case map_of mw_slugs code of None \<Rightarrow> ''unknown'' | Some s \<Rightarrow> s);
          title = (case map_of mw_titles code of None \<Rightarrow> ''Error'' | Some t \<Rightarrow> t)
      in send_json problem_type 401
           (JObj [(''type'', JStr (errors_url @ slug)), (''title'', JStr title),
                  (''status'', JInt 401), (''detail'', JStr detail), (''instance'', JStr (Path r)),
                  (''code'', JStr code), (''request_id'', JStr (RequestID r))]) c)"

definition key_rejected :: go_string where
  "key_rejected = ''Invalid or revoked API key. Email contact@zaas.at to request a reissue.''"

definition bearer :: go_string where
  "bearer = ''bearer ''"

definition sha256sum :: "(go_string \<Rightarrow> byte list) \<Rightarrow> go_string \<Rightarrow> go_string" where
  "sha256sum sha256 s = hex_encode (sha256 s)"

definition Auth ::
  "(go_string \<Rightarrow> byte list) \<Rightarrow> bool \<Rightarrow> ('s, 'n) handler \<Rightarrow> ('s, 'n) handler" where
  "Auth sha256 has_store next r c =
     (let authHeader = Headers r ''Authorization''
      in if authHeader = '''' then next r c
         else if \<not> has_prefix (to_lower authHeader) bearer then
           writeProblem ''INVALID_API_KEY'' key_rejected r c
         else
           (let key = drop (length bearer) authHeader
            in if \<not> has_store then writeProblem ''INVALID_API_KEY'' key_rejected r c
               else
                 (let hash = sha256sum sha256 key;
                      (res, w) = sql (GetClientByAPIKeyHash hash) (cworld c);
                      c' = c\<lparr>cworld := w\<rparr>
                  in case res of
                       Inl err \<Rightarrow> writeProblem ''INVALID_API_KEY'' key_rejected r c'
                     | Inr client \<Rightarrow>
                         if RevokedAt client \<noteq> None \<or> VerifiedAt client = None
                         then writeProblem ''INVALID_API_KEY'' key_rejected r c'
                         else next (WithClient r (ClientInfoFromStore client)) c')))"

definition AdminAuth :: "go_string \<Rightarrow> ('s, 'n) handler \<Rightarrow> ('s, 'n) handler" where
  "AdminAuth adminToken next r c =
     (let provided = Headers r ''X-Admin-Token''
      in if adminToken = '''' \<or> provided \<noteq> adminToken then
           writeProblem ''INVALID_ADMIN_TOKEN'' ''Missing or invalid X-Admin-Token header.'' r c
         else next r c)"

section \<open>CORS and the access log\<close>

definition CORS :: "go_string \<Rightarrow> ('s, 'n) handler \<Rightarrow> ('s, 'n) handler" where
  "CORS origins next r c =
     (let origin = Headers r ''Origin'';
          c1 = (if origins = ''*'' then set_header ''Access-Control-Allow-Origin'' ''*'' c
                else
                  (case find (\<lambda>allowed. trim_space allowed = origin) (split_on (CHR '','') origins) of
                     Some _ \<Rightarrow> set_header ''Vary'' ''Origin''
                       (set_header ''Access-Control-Allow-Origin'' origin c)
                   | None \<Rightarrow> c));
          c2 = set_header ''Access-Control-Allow-Headers'' ''Content-Type, Authorization''
                 (set_header ''Access-Control-Allow-Methods'' ''GET, OPTIONS'' c1)
      in if Method r = ''OPTIONS'' then write_header 204 c2 else next r c2)"

text \<open>The log line itself is not part of the state; the two clock readings are.\<close>

definition Logger :: "('s, 'n) handler \<Rightarrow> ('s, 'n) handler" where
  "Logger next r c =
     (if Path r = ''/healthz'' \<or> Path r = ''/readyz'' then next r c
      else
        (let (start, w) = time_Now (cworld c);
             c' = next r (c\<lparr>cworld := w\<rparr>)
         in if panicked c' then c' else c'\<lparr>cworld := snd (time_Now (cworld c'))\<rparr>))"

section \<open>Rate limiting\<close>

definition extractIP :: "'n request \<Rightarrow> go_string" where
  "extractIP r =
     (let xff = Headers r ''X-Forwarded-For'';
          ip = trim_space (last (split_on (CHR '','') xff));
          remote = (case split_host_port (RemoteAddr r) of
                      None \<Rightarrow> RemoteAddr r
                    | Some (host, _) \<Rightarrow> host)
      in if xff \<noteq> '''' \<and> ip \<noteq> '''' then ip else remote)"

definition client_key :: "go_string \<Rightarrow> go_string" where
  "client_key i = ''client:'' @ i"

text \<open>The key of a request, and the limit it is held to.\<close>

definition rate_check ::
  "'s RateLimiter \<Rightarrow> int \<Rightarrow> 'n request \<Rightarrow> 's world
    \<Rightarrow> int \<times> (limiter_error + rl_result) \<times> 's world" where
  "rate_check rl rpm r w =
     (case GetClient r of
        Some client \<Rightarrow> (info_rpm client, AllowN rl (client_key (info_id client)) (info_rpm client) w)
      | None \<Rightarrow> (rpm, Allow rl (extractIP r) w))"

definition limiter_unavailable :: "'n request \<Rightarrow> 'n json" where
  "limiter_unavailable r =
     JObj [(''type'', JStr ''https://zaas.at/errors/service-unavailable''),
           (''title'', JStr ''Service Unavailable''), (''status'', JInt 503),
           (''detail'', JStr ''Rate limiter temporarily unavailable. Please retry shortly.''),
           (''instance'', JStr (Path r)), (''code'', JStr ''SERVICE_UNAVAILABLE''),
           (''retry_after'', JInt 5), (''request_id'', JStr (RequestID r))]"

definition rate_limited :: "'n request \<Rightarrow> int \<Rightarrow> int \<Rightarrow> 'n json" where
  "rate_limited r limit retryAfter =
     JObj [(''type'', JStr ''https://zaas.at/errors/rate-limited''),
           (''title'', JStr ''Too Many Requests''), (''status'', JInt 429),
           (''detail'', JStr (''Rate limit exceeded ('' @ itoa limit @
             '' req/min). Email contact@zaas.at to request a free API key for higher limits.'')),
           (''instance'', JStr (Path r)), (''code'', JStr ''RATE_LIMITED''),
           (''retry_after'', JInt retryAfter), (''request_id'', JStr (RequestID r))]"

text \<open>\<open>int(time.Until(resetAt).Seconds())\<close>, at least one.\<close>

definition retry_after :: "time \<Rightarrow> time \<Rightarrow> int" where
  "retry_after resetAt now =
     (let s = quot (resetAt - now) Second in if s < 1 then 1 else s)"

definition RateLimit ::
  "'s RateLimiter \<Rightarrow> int \<Rightarrow> bool \<Rightarrow> ('s, 'n) handler \<Rightarrow> ('s, 'n) handler" where
  "RateLimit rl rpm failClosed next r c =
     (let (limit, res, w) = rate_check rl rpm r (cworld c);
          c1 = c\<lparr>cworld := w\<rparr>
      in case res of
           Inl err \<Rightarrow>
             if failClosed then
               send_json problem_type 503 (limiter_unavailable r) (set_header ''Retry-After'' ''5'' c1)
             else next r c1
         | Inr result \<Rightarrow>
             (let resetUnix = ResetAt result div Second;
                  c2 = set_header ''X-RateLimit-Reset'' (itoa resetUnix)
                    (set_header ''X-RateLimit-Remaining'' (itoa (Remaining result))
                      (set_header ''X-RateLimit-Limit'' (itoa limit) c1))
              in if \<not> Allowed result then
                   (let (now, w') = time_Now (cworld c2);
                        retryAfter = retry_after (ResetAt result) now
                    in send_json problem_type 429 (rate_limited r limit retryAfter)
                         (set_header ''Retry-After'' (itoa retryAfter) (c2\<lparr>cworld := w'\<rparr>)))
                 else next r c2))"

section \<open>The contract of a gate\<close>

text \<open>
  \<open>hands_on mw r c r' c'\<close>: whatever the next handler is, the middleware calls it on \<open>r'\<close> and
  \<open>c'\<close> and does nothing after; \<open>answers mw r c c'\<close>: the next handler is not called.
\<close>

type_synonym ('s, 'n) middleware = "('s, 'n) handler \<Rightarrow> ('s, 'n) handler"

definition hands_on ::
  "('s, 'n) middleware \<Rightarrow> 'n request \<Rightarrow> ('s, 'n) conn \<Rightarrow> 'n request \<Rightarrow> ('s, 'n) conn \<Rightarrow> bool"
where
  "hands_on mw r c r' c' \<longleftrightarrow> (\<forall>next. mw next r c = next r' c')"

definition answers ::
  "('s, 'n) middleware \<Rightarrow> 'n request \<Rightarrow> ('s, 'n) conn \<Rightarrow> ('s, 'n) conn \<Rightarrow> bool" where
  "answers mw r c c' \<longleftrightarrow> (\<forall>next. mw next r c = c')"

text \<open>What both need: the response is still open, or complete; nothing durable has happened.\<close>

definition opened :: "('s, 'n) conn \<Rightarrow> ('s, 'n) conn \<Rightarrow> bool" where
  "opened c c' \<longleftrightarrow> unsent c' \<and> quiet (cworld c) (cworld c')"

definition refused :: "('s, 'n) conn \<Rightarrow> ('s, 'n) conn \<Rightarrow> bool" where
  "refused c c' \<longleftrightarrow> status c' \<noteq> None \<and> \<not> panicked c' \<and> quiet (cworld c) (cworld c')"

locale gate =
  fixes mw :: "('s, 'n) middleware"
  assumes gate_cases: "unsent c \<Longrightarrow>
    (\<exists>r' c'. hands_on mw r c r' c' \<and> opened c c') \<or> (\<exists>c'. answers mw r c c' \<and> refused c c')"
begin

text \<open>Around a handler with no durable effect, a gate has none.\<close>

lemma gate_quiet:
  assumes "\<And>r c. unsent c \<Longrightarrow> quiet (cworld c) (cworld (next r c))" "unsent c"
  shows "quiet (cworld c) (cworld (mw next r c))"
  using gate_cases [OF assms(2), of r]
proof
  assume "\<exists>r' c'. hands_on mw r c r' c' \<and> opened c c'"
  then obtain r' c' where "hands_on mw r c r' c'" "opened c c'" by blast
  then show ?thesis
    using assms(1) [of c' r'] by (auto simp: hands_on_def opened_def intro: quiet_trans)
next
  assume "\<exists>c'. answers mw r c c' \<and> refused c c'"
  then show ?thesis by (auto simp: answers_def refused_def)
qed

text \<open>
  More generally, a gate keeps what the next handler keeps, for a transitive relation on worlds
  that holds where nothing durable happens.
\<close>

lemma gate_keeps:
  assumes "\<And>w w'. quiet w w' \<Longrightarrow> R w w'" "\<And>u v w. R u v \<Longrightarrow> R v w \<Longrightarrow> R u w"
    and "\<And>r c. unsent c \<Longrightarrow> R (cworld c) (cworld (next r c))" "unsent c"
  shows "R (cworld c) (cworld (mw next r c))"
  using gate_cases [OF assms(4), of r]
proof
  assume "\<exists>r' c'. hands_on mw r c r' c' \<and> opened c c'"
  then obtain r' c' where 1: "hands_on mw r c r' c'" "opened c c'" by blast
  then show ?thesis
    using assms(2) [OF assms(1), of "cworld c" "cworld c'"] assms(3) [of c' r']
    by (simp add: hands_on_def opened_def)
next
  assume "\<exists>c'. answers mw r c c' \<and> refused c c'"
  then show ?thesis using assms(1) by (auto simp: answers_def refused_def)
qed

text \<open>Around a handler that always responds, a gate always responds.\<close>

lemma gate_responds:
  assumes "\<And>r c. unsent c \<Longrightarrow> status (next r c) \<noteq> None" "unsent c"
  shows "status (mw next r c) \<noteq> None"
  using gate_cases [OF assms(2), of r] assms(1)
  unfolding hands_on_def answers_def opened_def refused_def by metis

end

text \<open>A gate that hands on the request as it is.\<close>

locale plain_gate =
  fixes mw :: "('s, 'n) middleware"
  assumes plain_cases: "unsent c \<Longrightarrow>
    (\<exists>c'. hands_on mw r c r c' \<and> opened c c') \<or> (\<exists>c'. answers mw r c c' \<and> refused c c')"
begin

lemma plain_keeps:
  assumes "\<And>w w'. quiet w w' \<Longrightarrow> R w w'" "\<And>u v w. R u v \<Longrightarrow> R v w \<Longrightarrow> R u w"
    and "\<And>c. unsent c \<Longrightarrow> R (cworld c) (cworld (next r c))" "unsent c"
  shows "R (cworld c) (cworld (mw next r c))"
  using plain_cases [OF assms(4), of r]
proof
  assume "\<exists>c'. hands_on mw r c r c' \<and> opened c c'"
  then obtain c' where 1: "hands_on mw r c r c'" "opened c c'" by blast
  then show ?thesis
    using assms(2) [OF assms(1), of "cworld c" "cworld c'"] assms(3) [of c']
    by (simp add: hands_on_def opened_def)
next
  assume "\<exists>c'. answers mw r c c' \<and> refused c c'"
  then show ?thesis using assms(1) by (auto simp: answers_def refused_def)
qed

end

sublocale plain_gate \<subseteq> gate
  by unfold_locales (use plain_cases in blast)

text \<open>Gates compose.\<close>

lemma gate_comp:
  fixes m1 m2 :: "('s, 'n) middleware"
  assumes "gate m1" "gate m2"
  shows "gate (\<lambda>next. m1 (m2 next))"
proof
  fix c :: "('s, 'n) conn" and r
  assume c: "unsent c"
  show "(\<exists>r' c'. hands_on (\<lambda>next. m1 (m2 next)) r c r' c' \<and> opened c c') \<or>
    (\<exists>c'. answers (\<lambda>next. m1 (m2 next)) r c c' \<and> refused c c')"
    using gate.gate_cases [OF assms(1) c, of r]
  proof
    assume "\<exists>r' c'. hands_on m1 r c r' c' \<and> opened c c'"
    then obtain r1 c1 where 1: "hands_on m1 r c r1 c1" "opened c c1" by blast
    then have "unsent c1" by (simp add: opened_def)
    from gate.gate_cases [OF assms(2) this, of r1] 1 show ?thesis
      unfolding hands_on_def answers_def opened_def refused_def by (metis quiet_trans)
  next
    assume "\<exists>c'. answers m1 r c c' \<and> refused c c'"
    then show ?thesis unfolding answers_def by blast
  qed
qed

section \<open>The middlewares are gates\<close>

lemma hands_onI: "(\<And>next. mw next r c = next r' c') \<Longrightarrow> hands_on mw r c r' c'"
  by (simp add: hands_on_def)

lemma answersI: "(\<And>next. mw next r c = c') \<Longrightarrow> answers mw r c c'"
  by (simp add: answers_def)

lemma gate_hands_on:
  "hands_on mw r c r c' \<Longrightarrow> opened c c' \<Longrightarrow>
    (\<exists>c'. hands_on mw r c r c' \<and> opened c c') \<or> (\<exists>c'. answers mw r c c' \<and> refused c c')"
  by blast

lemma gate_answers:
  "answers mw r c c' \<Longrightarrow> refused c c' \<Longrightarrow>
    (\<exists>c'. hands_on mw r c r c' \<and> opened c c') \<or> (\<exists>c'. answers mw r c c' \<and> refused c c')"
  by blast

lemma refused_send_json:
  "unsent c' \<Longrightarrow> quiet (cworld c) (cworld c') \<Longrightarrow> refused c (send_json ctype code j c')"
  by (simp add: refused_def unsent_def)

lemma writeProblem_simps [simp]:
  "cworld (writeProblem code detail r c) = cworld c"
  "panicked (writeProblem code detail r c) = panicked c"
  "unsent c \<Longrightarrow> status (writeProblem code detail r c) = Some 401"
  by (simp_all add: writeProblem_def Let_def)

lemma unsent_world [simp]: "unsent (c\<lparr>cworld := w\<rparr>) = unsent c"
  by (simp add: unsent_def)

lemma AdminAuth_gate_cases:
  assumes c: "unsent c"
  shows "(\<exists>c'. hands_on (AdminAuth tok) r c r c' \<and> opened c c') \<or>
    (\<exists>c'. answers (AdminAuth tok) r c c' \<and> refused c c')"
proof (cases "tok = '''' \<or> Headers r ''X-Admin-Token'' \<noteq> tok")
    case True
    show ?thesis
      by (rule gate_answers [OF answersI [where c' = "writeProblem ''INVALID_ADMIN_TOKEN''
            ''Missing or invalid X-Admin-Token header.'' r c"]])
        (use True c in \<open>simp_all add: AdminAuth_def refused_def unsent_def\<close>)
  next
    case False
    show ?thesis
      by (rule gate_hands_on [OF hands_onI [where c' = c]])
        (use False c in \<open>simp_all add: AdminAuth_def opened_def\<close>)
qed

interpretation admin: plain_gate "AdminAuth tok" for tok
  by unfold_locales (rule AdminAuth_gate_cases)

text \<open>The headers CORS sets.\<close>

definition cors_headers :: "go_string \<Rightarrow> 'n request \<Rightarrow> ('s, 'n) conn \<Rightarrow> ('s, 'n) conn" where
  "cors_headers origins r c = CORS origins (\<lambda>r c. c) (r\<lparr>Method := ''GET''\<rparr>) c"

lemma CORS_headers:
  "CORS origins next r c =
     (if Method r = ''OPTIONS'' then write_header 204 (cors_headers origins r c)
      else next r (cors_headers origins r c))"
  by (simp add: cors_headers_def CORS_def Let_def)

lemma cors_headers_simps [simp]:
  "cworld (cors_headers origins r c) = cworld c" "unsent (cors_headers origins r c) = unsent c"
  by (simp_all add: cors_headers_def CORS_def Let_def split: option.split)

lemma CORS_gate_cases:
  assumes c: "unsent c"
  shows "(\<exists>c'. hands_on (CORS origins) r c r c' \<and> opened c c') \<or>
    (\<exists>c'. answers (CORS origins) r c c' \<and> refused c c')"
proof (cases "Method r = ''OPTIONS''")
    case True
    have "unsent (cors_headers origins r c)" using c by simp
    then show ?thesis
      by (intro gate_answers [OF answersI [where c' = "write_header 204 (cors_headers origins r c)"]])
        (use True in \<open>simp_all add: CORS_headers refused_def unsent_def\<close>)
  next
    case False
    show ?thesis
      by (rule gate_hands_on [OF hands_onI [where c' = "cors_headers origins r c"]])
        (use False c in \<open>simp_all add: CORS_headers opened_def\<close>)
qed

interpretation cors: plain_gate "CORS origins" for origins
  by unfold_locales (rule CORS_gate_cases)

text \<open>
  \<open>Auth\<close>: the key of a header with the bearer scheme, the lookup, and what it decides.
\<close>

definition bearer_key :: "'n request \<Rightarrow> go_string option" where
  "bearer_key r =
     (let h = Headers r ''Authorization''
      in if has_prefix (to_lower h) bearer then Some (drop (length bearer) h) else None)"

definition lookup :: "(go_string \<Rightarrow> byte list) \<Rightarrow> go_string \<Rightarrow> 's world \<Rightarrow> (store_error + Client) \<times> 's world"
where
  "lookup sha256 key w = sql (GetClientByAPIKeyHash (sha256sum sha256 key)) w"

definition usable :: "store_error + Client \<Rightarrow> Client option" where
  "usable res =
     (case res of Inl _ \<Rightarrow> None
      | Inr cl \<Rightarrow> if RevokedAt cl = None \<and> VerifiedAt cl \<noteq> None then Some cl else None)"

lemma Auth_cases:
  "Auth sha256 has_store next r c =
     (if Headers r ''Authorization'' = '''' then next r c
      else case (if has_store then bearer_key r else None) of
        None \<Rightarrow> writeProblem ''INVALID_API_KEY'' key_rejected r c
      | Some key \<Rightarrow>
          (let (res, w) = lookup sha256 key (cworld c)
           in case usable res of
                None \<Rightarrow> writeProblem ''INVALID_API_KEY'' key_rejected r (c\<lparr>cworld := w\<rparr>)
              | Some cl \<Rightarrow> next (WithClient r (ClientInfoFromStore cl)) (c\<lparr>cworld := w\<rparr>)))"
  by (auto simp: Auth_def bearer_key_def lookup_def usable_def Let_def case_prod_beta
      split: sum.splits)

lemma GetClientByAPIKeyHash_world: "w_db (snd (sql (GetClientByAPIKeyHash h) w)) = w_db w"
  by (auto simp: sql_db store_ops sql_defs split: pg_delivery.splits option.splits)

lemma lookup_quiet [simp]: "quiet w (snd (lookup sha256 key w))"
  by (simp add: quiet_def lookup_def GetClientByAPIKeyHash_world)

lemma GetClientByAPIKeyHash_found:
  assumes "fst (GetClientByAPIKeyHash h call db) = Inr cl"
  shows "cl \<in> set (clients db) \<and> APIKeyHash cl = h"
  using assms
  by (auto simp: store_ops sql_defs find_Some_iff split: pg_delivery.splits option.splits
      sum.splits pg_error.splits if_splits)

lemma lookup_found:
  "fst (lookup sha256 key w) = Inr cl \<Longrightarrow>
     cl \<in> set (clients (w_db w)) \<and> APIKeyHash cl = HashKey sha256 key"
  using GetClientByAPIKeyHash_found [of "sha256sum sha256 key"]
  by (simp add: lookup_def sql_fst sha256sum_def HashKey_def)

lemma usable_Some: "usable res = Some cl \<longleftrightarrow> res = Inr cl \<and> RevokedAt cl = None \<and> VerifiedAt cl \<noteq> None"
  by (auto simp: usable_def split: sum.split if_splits)

text \<open>A client that holds the key of the request and may use it.\<close>

definition holds_key :: "(go_string \<Rightarrow> byte list) \<Rightarrow> 'n request \<Rightarrow> database \<Rightarrow> Client \<Rightarrow> bool" where
  "holds_key sha256 r db cl \<longleftrightarrow> cl \<in> set (clients db) \<and>
     (\<exists>key. bearer_key r = Some key \<and> APIKeyHash cl = HashKey sha256 key) \<and>
     VerifiedAt cl \<noteq> None \<and> RevokedAt cl = None"

text \<open>
  The verdict of \<open>Auth\<close>: it hands on an anonymous request unchanged, or a request with the
  information of a client that holds the key; or it answers 401.
\<close>

lemma Auth_verdict:
  assumes c: "unsent c"
  shows "(\<exists>r' c'. hands_on (Auth sha256 has_store) r c r' c' \<and> opened c c' \<and>
      (Headers r ''Authorization'' = '''' \<and> r' = r \<or>
       Headers r ''Authorization'' \<noteq> '''' \<and> has_store \<and>
       (\<exists>cl. holds_key sha256 r (w_db (cworld c)) cl \<and>
         r' = WithClient r (ClientInfoFromStore cl)))) \<or>
    (\<exists>c'. answers (Auth sha256 has_store) r c c' \<and> refused c c' \<and> status c' = Some 401 \<and>
      Headers r ''Authorization'' \<noteq> '''')"
proof (cases "Headers r ''Authorization'' = ''''")
  case True
  then have "hands_on (Auth sha256 has_store) r c r c" by (simp add: hands_on_def Auth_cases)
  then show ?thesis using True c by (auto simp: opened_def)
next
  case False
  show ?thesis
  proof (cases "if has_store then bearer_key r else None")
    case None
    then have "answers (Auth sha256 has_store) r c
        (writeProblem ''INVALID_API_KEY'' key_rejected r c)"
      using False by (simp add: answers_def Auth_cases)
    moreover have "refused c (writeProblem ''INVALID_API_KEY'' key_rejected r c)"
      using c by (simp add: refused_def unsent_def)
    ultimately show ?thesis using False c by auto
  next
    case (Some key)
    then have st: "has_store" and key: "bearer_key r = Some key" by (simp_all split: if_splits)
    obtain res w where l: "lookup sha256 key (cworld c) = (res, w)" by fastforce
    have q: "quiet (cworld c) w" using lookup_quiet [of "cworld c" sha256 key] l by simp
    show ?thesis
    proof (cases "usable res")
      case None
      let ?c = "writeProblem ''INVALID_API_KEY'' key_rejected r (c\<lparr>cworld := w\<rparr>)"
      have "answers (Auth sha256 has_store) r c ?c"
        using False st key l None by (simp add: answers_def Auth_cases)
      moreover have "refused c ?c" using c q by (simp add: refused_def unsent_def)
      moreover have "status ?c = Some 401" using c by simp
      ultimately show ?thesis using False by blast
    next
      case (Some cl)
      then have cl: "res = Inr cl" "RevokedAt cl = None" "VerifiedAt cl \<noteq> None"
        by (simp_all add: usable_Some)
      then have "holds_key sha256 r (w_db (cworld c)) cl"
        using lookup_found [of sha256 key "cworld c" cl] l key by (simp add: holds_key_def)
      moreover have "hands_on (Auth sha256 has_store) r c (WithClient r (ClientInfoFromStore cl))
          (c\<lparr>cworld := w\<rparr>)"
        using False st key l Some by (simp add: hands_on_def Auth_cases)
      moreover have "opened c (c\<lparr>cworld := w\<rparr>)" using c q by (simp add: opened_def)
      ultimately show ?thesis using False st by blast
    qed
  qed
qed

lemma Auth_gate_cases:
  assumes "unsent c"
  shows "(\<exists>r' c'. hands_on (Auth sha256 has_store) r c r' c' \<and> opened c c') \<or>
    (\<exists>c'. answers (Auth sha256 has_store) r c c' \<and> refused c c')"
  using Auth_verdict [OF assms, of sha256 has_store r] by blast

interpretation auth: gate "Auth sha256 has_store" for sha256 has_store
  by unfold_locales (rule Auth_gate_cases)

text \<open>Rate limiting: a gate when its limiter is tame.\<close>

definition limit_headers :: "int \<Rightarrow> rl_result \<Rightarrow> ('s, 'n) conn \<Rightarrow> ('s, 'n) conn" where
  "limit_headers limit result c =
     set_header ''X-RateLimit-Reset'' (itoa (ResetAt result div Second))
       (set_header ''X-RateLimit-Remaining'' (itoa (Remaining result))
         (set_header ''X-RateLimit-Limit'' (itoa limit) c))"

lemma limit_headers_simps [simp]:
  "cworld (limit_headers limit result c) = cworld c"
  "unsent (limit_headers limit result c) = unsent c"
  by (simp_all add: limit_headers_def)

lemma RateLimit_cases:
  assumes "rate_check rl rpm r (cworld c) = (limit, res, w)"
  shows "RateLimit rl rpm failClosed next r c =
    (case res of
       Inl err \<Rightarrow>
         if failClosed then
           send_json problem_type 503 (limiter_unavailable r)
             (set_header ''Retry-After'' ''5'' (c\<lparr>cworld := w\<rparr>))
         else next r (c\<lparr>cworld := w\<rparr>)
     | Inr result \<Rightarrow>
         (let c2 = limit_headers limit result (c\<lparr>cworld := w\<rparr>);
              secs = retry_after (ResetAt result) (fst (time_Now w))
          in if Allowed result then next r c2
             else send_json problem_type 429 (rate_limited r limit secs)
               (set_header ''Retry-After'' (itoa secs) (c2\<lparr>cworld := snd (time_Now w)\<rparr>))))"
  by (simp add: RateLimit_def assms limit_headers_def Let_def case_prod_beta split: sum.split)

locale rate_gate =
  fixes rl :: "'s RateLimiter"
  assumes tame: "tame_limiter rl"
begin

lemma rate_check_quiet: "quiet w (snd (snd (rate_check rl rpm r w)))"
  using tame by (simp add: rate_check_def tame_limiter_def split: option.split)

lemma RateLimit_gate_cases:
  fixes c :: "('s, 'n) conn"
  assumes c: "unsent c"
  shows "(\<exists>c'. hands_on (RateLimit rl rpm failClosed) r c r c' \<and> opened c c') \<or>
    (\<exists>c'. answers (RateLimit rl rpm failClosed) r c c' \<and> refused c c')"
proof -
  obtain limit res w where rc: "rate_check rl rpm r (cworld c) = (limit, res, w)"
    by (metis prod_cases3)
  have q: "quiet (cworld c) w" using rate_check_quiet [of "cworld c" rpm r] rc by simp
  note eq = RateLimit_cases [OF rc]
  show ?thesis
  proof (cases res)
    case (Inl err)
    let ?c = "c\<lparr>cworld := w\<rparr>"
    have "opened c ?c" using c q by (simp add: opened_def)
    moreover have "refused c (send_json problem_type 503 (limiter_unavailable r)
        (set_header ''Retry-After'' ''5'' ?c))"
      using c q by (intro refused_send_json) simp_all
    ultimately show ?thesis
      unfolding hands_on_def answers_def eq Inl by (cases failClosed) auto
  next
    case (Inr result)
    let ?c = "limit_headers limit result (c\<lparr>cworld := w\<rparr>)"
      and ?secs = "retry_after (ResetAt result) (fst (time_Now w))"
    have "opened c ?c" using c q by (simp add: opened_def)
    moreover have "refused c (send_json problem_type 429 (rate_limited r limit ?secs)
        (set_header ''Retry-After'' (itoa ?secs) (?c\<lparr>cworld := snd (time_Now w)\<rparr>)))"
      using c quiet_trans [OF q time_Now_quiet] by (intro refused_send_json) simp_all
    ultimately show ?thesis
      unfolding hands_on_def answers_def eq Inr by (cases "Allowed result") (auto simp: Let_def)
  qed
qed

lemma RateLimit_plain: "plain_gate (RateLimit rl rpm failClosed)"
  by unfold_locales (rule RateLimit_gate_cases)

end

sublocale rate_gate \<subseteq> limit: plain_gate "RateLimit rl rpm failClosed" for rpm failClosed
  by (rule RateLimit_plain)

text \<open>Both backends, for each place a limiter's state is kept.\<close>

interpretation api_memory: rate_gate "memory_limiter w_memory w_memory_update"
  by unfold_locales (simp add: memory_limiter_tame quiet_def)

interpretation auth_memory: rate_gate "memory_limiter w_auth w_auth_update"
  by unfold_locales (simp add: memory_limiter_tame quiet_def)

interpretation api_redis: rate_gate "redis_limiter redis rl" for redis rl
  by unfold_locales (rule redis_limiter_tame)

end
