(* ===== verification/Config_Env.thy ===== *)
theory Config_Env
  imports Go_Strings
begin

text \<open>
  The configuration, \<open>config/config.go\<close>.  The environment is a function from names to values;
  an unset variable reads as the empty string, as \<open>os.Getenv\<close> has it.
\<close>

type_synonym env = "go_string \<Rightarrow> go_string"

record Config =
  Port :: go_string
  BaseURL :: go_string
  LogLevel :: go_string
  LogFormat :: go_string
  CORSOrigins :: go_string
  cfg_RateLimitRPM :: int
  RateLimitBackend :: go_string
  RedisURL :: go_string
  DatabaseURL :: go_string
  OTelEnabled :: bool
  Environment :: go_string
  MetricsEndpointEnabled :: bool
  SMTPHost :: go_string
  SMTPPort :: int
  SMTPUser :: go_string
  SMTPPassword :: go_string
  SMTPFrom :: go_string
  AdminToken :: go_string

definition getEnv :: "env \<Rightarrow> go_string \<Rightarrow> go_string \<Rightarrow> go_string" where
  "getEnv e key defaultVal = (if e key \<noteq> '''' then e key else defaultVal)"

definition getEnvInt :: "env \<Rightarrow> go_string \<Rightarrow> int \<Rightarrow> int" where
  "getEnvInt e key defaultVal =
     (if e key = '''' then defaultVal
      else case atoi (e key) of None \<Rightarrow> defaultVal | Some n \<Rightarrow> n)"

definition getEnvBool :: "env \<Rightarrow> go_string \<Rightarrow> bool \<Rightarrow> bool" where
  "getEnvBool e key defaultVal =
     (if e key = '''' then defaultVal
      else case parse_bool (e key) of None \<Rightarrow> defaultVal | Some b \<Rightarrow> b)"

definition Load :: "env \<Rightarrow> Config" where
  "Load e =
     \<lparr>Port = getEnv e ''ZAAS_PORT'' ''8080'',
      BaseURL = getEnv e ''ZAAS_BASE_URL'' ''http://localhost:8080'',
      LogLevel = getEnv e ''ZAAS_LOG_LEVEL'' ''info'',
      LogFormat = getEnv e ''ZAAS_LOG_FORMAT'' ''text'',
      CORSOrigins = getEnv e ''ZAAS_CORS_ORIGINS'' ''*'',
      cfg_RateLimitRPM = getEnvInt e ''ZAAS_RATE_LIMIT_RPM'' 60,
      RateLimitBackend = getEnv e ''ZAAS_RATE_LIMIT_BACKEND'' ''memory'',
      RedisURL = getEnv e ''ZAAS_REDIS_URL'' '''',
      DatabaseURL = getEnv e ''ZAAS_DB_URL'' '''',
      OTelEnabled = getEnvBool e ''ZAAS_OTEL_ENABLED'' True,
      Environment = getEnv e ''ZAAS_ENVIRONMENT'' ''development'',
      MetricsEndpointEnabled = getEnvBool e ''ZAAS_METRICS_ENDPOINT_ENABLED'' False,
      SMTPHost = getEnv e ''ZAAS_SMTP_HOST'' ''smtp.migadu.com'',
      SMTPPort = getEnvInt e ''ZAAS_SMTP_PORT'' 587,
      SMTPUser = getEnv e ''ZAAS_SMTP_USER'' '''',
      SMTPPassword = getEnv e ''ZAAS_SMTP_PASSWORD'' '''',
      SMTPFrom = getEnv e ''ZAAS_SMTP_FROM'' ''ZaaS <noreply@zaas.at>'',
      AdminToken = getEnv e ''ZAAS_ADMIN_TOKEN'' ''''\<rparr>"

text \<open>A value that is set and well-formed is taken; a malformed one gives the default.\<close>

lemma itoa_not_Nil [simp]: "itoa n \<noteq> []"
  by (simp add: itoa_def)

lemma getEnvInt_set: "e key = itoa n \<Longrightarrow> int64 n \<Longrightarrow> getEnvInt e key d = n"
  by (simp add: getEnvInt_def atoi_itoa)

lemma getEnvInt_malformed: "atoi (e key) = None \<Longrightarrow> getEnvInt e key d = d"
  by (simp add: getEnvInt_def)

lemma getEnvInt_int64: "int64 d \<Longrightarrow> int64 (getEnvInt e key d)"
  by (auto simp: getEnvInt_def atoi_int64 split: option.split)

lemma getEnv_not_empty: "d \<noteq> '''' \<Longrightarrow> getEnv e key d \<noteq> ''''"
  by (simp add: getEnv_def)

end
