(* ===== verification/Email_Msg.thy ===== *)
theory Email_Msg
  imports World Config_Env
begin

text \<open>
  Mails, \<open>email/email.go\<close> with its templates: the assembly of the message and its hand-over to
  the SMTP client.  Three encoders of the standard library are parameters: the two escapers of
  \<open>html/template\<close> and the quoted-printable writer; so is the word encoder of \<open>mime\<close> for a subject
  that needs one.
\<close>

section \<open>Configuration and templates\<close>

record SMTPConfig =
  Host :: go_string
  smtp_Port :: int
  User :: go_string
  Password :: go_string
  From :: go_string

record encoders =
  escape_href :: "go_string \<Rightarrow> go_string"
  escape_text :: "go_string \<Rightarrow> go_string"
  quoted_printable :: "go_string \<Rightarrow> go_string"
  encode_word :: "go_string \<Rightarrow> go_string"

definition CRLF :: go_string where
  "CRLF = [CHR 0x0D, CHR 0x0A]"

definition LF :: go_string where
  "LF = [CHR 0x0A]"

text \<open>A template is text with places for the URL: bare, in an \<open>href\<close>, or in HTML text.\<close>

datatype template_piece = T go_string | Url | UrlHref | UrlText

fun render_piece :: "encoders \<Rightarrow> go_string \<Rightarrow> template_piece \<Rightarrow> go_string" where
  "render_piece enc url (T s) = s"
| "render_piece enc url Url = url"
| "render_piece enc url UrlHref = escape_href enc url"
| "render_piece enc url UrlText = escape_text enc url"

definition render :: "encoders \<Rightarrow> go_string \<Rightarrow> template_piece list \<Rightarrow> go_string" where
  "render enc url ps = concat (map (render_piece enc url) ps)"

text \<open>The lines of a template, each ended by a line feed.\<close>

definition lines_of :: "template_piece list list \<Rightarrow> template_piece list" where
  "lines_of ls = concat (map (\<lambda>l. l @ [T LF]) ls)"

definition signature_txt :: "template_piece list list" where
  "signature_txt =
     [[], [T ''This link expires in 24 hours. If you did not request this, you can ignore this email.''],
      [], [T ''--''], [T ''ZaaS - Zufall as a Service''], [T ''https://zaas.at'']]"

definition verification_txt :: "template_piece list" where
  "verification_txt = lines_of (
     [[T ''ZaaS - Verify your email''], [],
      [T ''Click the link below to verify your email address and receive your API key:''], [],
      [Url]] @ signature_txt)"

definition reissue_txt :: "template_piece list" where
  "reissue_txt = lines_of (
     [[T ''ZaaS - Re-issue your API key''], [],
      [T ''You requested a new API key. Click the link below to confirm.''],
      [T ''Your existing key will be revoked.''], [], [Url]] @ signature_txt)"

definition html_head :: "template_piece list list" where
  "html_head =
     [[T ''<!DOCTYPE html>''], [T ''<html lang=\"en\">''],
      [T ''<head><meta charset=\"utf-8\"></head>''],
      [T ''<body style=\"font-family: -apple-system, BlinkMacSystemFont, 'Segoe UI', Roboto, sans-serif; max-width: 600px; margin: 0 auto; padding: 20px; color: #333;\">'']]"

definition html_link :: "go_string \<Rightarrow> template_piece list" where
  "html_link label =
     [T ''  <p><a href=\"'', UrlHref,
      T ''\" style=\"display: inline-block; padding: 12px 24px; background-color: #6d28d9; color: #fff; text-decoration: none; border-radius: 6px;\">'',
      T label, T ''</a></p>'']"

definition html_tail :: "template_piece list list" where
  "html_tail =
     [[T ''  <p style=\"font-size: 14px; color: #666;\">Or copy this URL into your browser:</p>''],
      [T ''  <p style=\"font-size: 14px; word-break: break-all;\"><code>'', UrlText, T ''</code></p>''],
      [T ''  <p style=\"font-size: 14px; color: #666;\">This link expires in 24 hours. If you did not request this, you can ignore this email.</p>''],
      [T ''  <hr style=\"border: none; border-top: 1px solid #eee; margin: 24px 0;\">''],
      [T ''  <p style=\"font-size: 12px; color: #999;\">ZaaS &#8212; Zufall as a Service &middot; <a href=\"https://zaas.at\" style=\"color: #999;\">zaas.at</a></p>''],
      [T ''</body>''], [T ''</html>'']]"

definition verification_html :: "template_piece list" where
  "verification_html = lines_of (html_head @
     [[T ''  <h2 style=\"color: #6d28d9;\">ZaaS &#8212; Verify your email</h2>''],
      [T ''  <p>Click the link below to verify your email address and receive your API key:</p>''],
      html_link ''Verify email''] @ html_tail)"

definition reissue_html :: "template_piece list" where
  "reissue_html = lines_of (html_head @
     [[T ''  <h2 style=\"color: #6d28d9;\">ZaaS &#8212; Re-issue your API key</h2>''],
      [T ''  <p>You requested a new API key. Click the link below to confirm. <strong>Your existing key will be revoked.</strong></p>''],
      html_link ''Re-issue API key''] @ html_tail)"

text \<open>\<open>ExecuteTemplate\<close>: an unknown name is an error.\<close>

definition html_templates :: "(go_string \<times> template_piece list) list" where
  "html_templates = [(''verification.html'', verification_html), (''reissue.html'', reissue_html)]"

definition text_templates :: "(go_string \<times> template_piece list) list" where
  "text_templates = [(''verification.txt'', verification_txt), (''reissue.txt'', reissue_txt)]"

section \<open>The message\<close>

definition line_break :: "char \<Rightarrow> bool" where
  "line_break c \<longleftrightarrow> c = CHR 0x0D \<or> c = CHR 0x0A"

definition sanitizeHeader :: "go_string \<Rightarrow> go_string" where
  "sanitizeHeader v = filter (\<lambda>c. \<not> line_break c) v"

text \<open>\<open>mime.QEncoding.Encode\<close> leaves a printable ASCII string alone.\<close>

definition mime_printable :: "char \<Rightarrow> bool" where
  "mime_printable c \<longleftrightarrow> of_char c = (9 :: nat) \<or> 32 \<le> (of_char c :: nat) \<and> (of_char c :: nat) \<le> 126"

definition q_encode :: "encoders \<Rightarrow> go_string \<Rightarrow> go_string" where
  "q_encode enc s = (if list_all mime_printable s then s else encode_word enc s)"

definition boundary :: go_string where
  "boundary = ''zaas-boundary-000''"

definition part :: "encoders \<Rightarrow> go_string \<Rightarrow> go_string \<Rightarrow> go_string" where
  "part enc ctype content =
     ''--'' @ boundary @ CRLF @
     ''Content-Type: '' @ ctype @ ''; charset=\"utf-8\"'' @ CRLF @
     ''Content-Transfer-Encoding: quoted-printable'' @ CRLF @
     CRLF @ quoted_printable enc content @ CRLF"

definition header_lines :: "encoders \<Rightarrow> SMTPConfig \<Rightarrow> go_string \<Rightarrow> go_string \<Rightarrow> go_string list" where
  "header_lines enc cfg to subject =
     [''From: '' @ sanitizeHeader (From cfg),
      ''To: '' @ sanitizeHeader to,
      ''Subject: '' @ q_encode enc subject,
      ''MIME-Version: 1.0'',
      ''Content-Type: multipart/alternative; boundary=\"'' @ boundary @ ''\"'']"

definition buildMessage ::
  "encoders \<Rightarrow> SMTPConfig \<Rightarrow> go_string \<Rightarrow> go_string \<Rightarrow> go_string \<Rightarrow> go_string \<Rightarrow> go_string + go_string"
where
  "buildMessage enc cfg to subject templateName url =
     (case map_of html_templates (templateName @ ''.html'') of
        None \<Rightarrow> Inl (''render HTML template '' @ templateName)
      | Some html \<Rightarrow>
          (case map_of text_templates (templateName @ ''.txt'') of
             None \<Rightarrow> Inl (''render text template '' @ templateName)
           | Some txt \<Rightarrow>
               Inr (concat (map (\<lambda>l. l @ CRLF) (header_lines enc cfg to subject)) @ CRLF @
                    part enc ''text/plain'' (render enc url txt) @
                    part enc ''text/html'' (render enc url html) @
                    ''--'' @ boundary @ ''--'' @ CRLF)))"

section \<open>Sending\<close>

text \<open>The envelope sender: what stands between the angle brackets of the configured name.\<close>

definition envelope_from :: "go_string \<Rightarrow> go_string" where
  "envelope_from from =
     (case index_byte (CHR ''<'') from of
        None \<Rightarrow> from
      | Some idx \<Rightarrow> trim_right_byte (CHR ''>'') (drop (Suc idx) from))"

definition smtp_send ::
  "encoders \<Rightarrow> SMTPConfig \<Rightarrow> go_string \<Rightarrow> go_string \<Rightarrow> go_string \<Rightarrow> go_string \<Rightarrow> 's world
    \<Rightarrow> (go_string + unit) \<times> 's world" where
  "smtp_send enc cfg to subject templateName url w =
     (case buildMessage enc cfg to subject templateName url of
        Inl err \<Rightarrow> (Inl err, w)
      | Inr msg \<Rightarrow>
          smtp_SendMail
            \<lparr>mail_server = join_host_port (Host cfg) (itoa (smtp_Port cfg)),
             mail_auth = (if User cfg \<noteq> '''' then Some (User cfg, Password cfg) else None),
             mail_from = envelope_from (From cfg), mail_to = to, mail_data = msg\<rparr> w)"

definition SendVerification ::
  "encoders \<Rightarrow> SMTPConfig \<Rightarrow> go_string \<Rightarrow> go_string \<Rightarrow> 's world \<Rightarrow> (go_string + unit) \<times> 's world"
where
  "SendVerification enc cfg to url w =
     smtp_send enc cfg to ''Verify your email'' ''verification'' url w"

definition SendReissue ::
  "encoders \<Rightarrow> SMTPConfig \<Rightarrow> go_string \<Rightarrow> go_string \<Rightarrow> 's world \<Rightarrow> (go_string + unit) \<times> 's world"
where
  "SendReissue enc cfg to url w =
     smtp_send enc cfg to ''Re-issue your API key'' ''reissue'' url w"

section \<open>The header of a message\<close>

text \<open>What a reader takes for the header: the lines up to the first empty one.\<close>

fun read_header :: "go_string \<Rightarrow> go_string \<Rightarrow> go_string list" where
  "read_header line [] = [line]"
| "read_header line (c # s) =
     (if c = CHR 0x0D \<and> s \<noteq> [] \<and> hd s = CHR 0x0A
      then (if line = [] then [] else line # read_header [] (tl s))
      else read_header (line @ [c]) s)"

definition plain_line :: "go_string \<Rightarrow> bool" where
  "plain_line l \<longleftrightarrow> list_all (\<lambda>c. \<not> line_break c) l"

lemma read_header_line:
  "plain_line l \<Longrightarrow> read_header acc (l @ CRLF @ s) =
     (if acc @ l = [] then [] else (acc @ l) # read_header [] s)"
  by (induction l arbitrary: acc) (auto simp: plain_line_def CRLF_def line_break_def)

lemma read_header_lines:
  assumes "list_all (\<lambda>l. plain_line l \<and> l \<noteq> []) ls"
  shows "read_header [] (concat (map (\<lambda>l. l @ CRLF) ls) @ CRLF @ s) = ls"
  using assms
proof (induction ls)
  case Nil
  show ?case using read_header_line [of "[]" "[]" s] by (simp add: plain_line_def)
next
  case (Cons l ls)
  then show ?case
    using read_header_line [of l "[]" "concat (map (\<lambda>l. l @ CRLF) ls) @ CRLF @ s"] by simp
qed

lemma plain_line_append [simp]: "plain_line (a @ b) \<longleftrightarrow> plain_line a \<and> plain_line b"
  by (simp add: plain_line_def)

lemma plain_line_Cons [simp]: "plain_line [] " "plain_line (c # s) \<longleftrightarrow> \<not> line_break c \<and> plain_line s"
  by (simp_all add: plain_line_def)

lemma plain_line_sanitize [simp]: "plain_line (sanitizeHeader v)"
  by (simp add: plain_line_def sanitizeHeader_def list_all_iff)

lemma sanitizeHeader_id: "plain_line v \<Longrightarrow> sanitizeHeader v = v"
  by (simp add: plain_line_def sanitizeHeader_def list_all_iff filter_id_conv)

lemma plain_line_printable: "list_all mime_printable s \<Longrightarrow> plain_line s"
  by (auto simp: plain_line_def list_all_iff mime_printable_def line_break_def)

lemma subjects_printable:
  "list_all mime_printable ''Verify your email''" "list_all mime_printable ''Re-issue your API key''"
  by (simp_all add: mime_printable_def)

lemma header_lines_plain:
  assumes "list_all mime_printable subject"
  shows "list_all (\<lambda>l. plain_line l \<and> l \<noteq> []) (header_lines enc cfg to subject)"
  using plain_line_printable [OF assms] assms
  by (simp add: header_lines_def q_encode_def boundary_def line_break_def)

lemma buildMessage_header:
  assumes "buildMessage enc cfg to subject templateName url = Inr msg"
    "list_all mime_printable subject"
  shows "read_header [] msg = header_lines enc cfg to subject"
  using assms(1) read_header_lines [OF header_lines_plain [OF assms(2)]]
  by (auto simp: buildMessage_def split: option.splits)

lemma smtp_SendMail_outbox:
  "w_outbox (snd (smtp_SendMail m w)) \<in> {w_outbox w, w_outbox w @ [m]}"
  by (simp add: smtp_SendMail_def Let_def split: smtp_outcome.split)

lemma smtp_SendMail_recipient:
  "w_outbox (snd (smtp_SendMail m w)) \<noteq> w_outbox w \<Longrightarrow> \<not> has_line_break (mail_to m)"
  by (auto simp: smtp_SendMail_def)

lemma smtp_SendMail_db [simp]: "w_db (snd (smtp_SendMail m w)) = w_db w"
  by (simp add: smtp_SendMail_def Let_def split: smtp_outcome.split)

text \<open>A mail of the program: its envelope, its header, and the URL it carries.\<close>

definition mail_ok :: "encoders \<Rightarrow> SMTPConfig \<Rightarrow> go_string \<Rightarrow> go_string \<Rightarrow> mail \<Rightarrow> bool" where
  "mail_ok enc cfg to subject m \<longleftrightarrow>
     mail_to m = to \<and> \<not> has_line_break to \<and> mail_from m = envelope_from (From cfg) \<and>
     read_header [] (mail_data m) = header_lines enc cfg to subject \<and>
     list_all plain_line (header_lines enc cfg to subject)"

lemma smtp_send_outcome:
  assumes "list_all mime_printable subject"
  shows "w_db (snd (smtp_send enc cfg to subject tmpl url w)) = w_db w"
    and "\<exists>ms. w_outbox (snd (smtp_send enc cfg to subject tmpl url w)) = w_outbox w @ ms \<and>
      length ms \<le> 1 \<and> list_all (mail_ok enc cfg to subject) ms"
proof -
  show "w_db (snd (smtp_send enc cfg to subject tmpl url w)) = w_db w"
    by (simp add: smtp_send_def split: sum.split)
  show "\<exists>ms. w_outbox (snd (smtp_send enc cfg to subject tmpl url w)) = w_outbox w @ ms \<and>
      length ms \<le> 1 \<and> list_all (mail_ok enc cfg to subject) ms"
  proof (cases "buildMessage enc cfg to subject tmpl url")
    case (Inl err)
    then show ?thesis by (simp add: smtp_send_def)
  next
    case (Inr msg)
    define m where "m = \<lparr>mail_server = join_host_port (Host cfg) (itoa (smtp_Port cfg)),
      mail_auth = (if User cfg \<noteq> '''' then Some (User cfg, Password cfg) else None),
      mail_from = envelope_from (From cfg), mail_to = to, mail_data = msg\<rparr>"
    have s: "smtp_send enc cfg to subject tmpl url w = smtp_SendMail m w"
      using Inr by (simp add: smtp_send_def m_def)
    have ok: "mail_ok enc cfg to subject m" if "\<not> has_line_break to"
      using that buildMessage_header [OF Inr assms] header_lines_plain [OF assms, of enc cfg to]
      by (simp add: mail_ok_def m_def list_all_iff)
    show ?thesis
      using smtp_SendMail_outbox [of m w] smtp_SendMail_recipient [of m w] ok
      by (cases "w_outbox (snd (smtp_SendMail m w)) = w_outbox w") (auto simp: s m_def)
  qed
qed

lemmas send_outcome =
  smtp_send_outcome [OF subjects_printable(1)] smtp_send_outcome [OF subjects_printable(2)]

end
