(* ===== verification/Handler_Auth.thy ===== *)
theory Handler_Auth
  imports Middleware Email_Msg
begin

text \<open>
  Registration, verification and key re-issue: \<open>handler/auth.go\<close>.  Each handler is one function on
  the connection; every statement of the store, every clock reading and every mail is a step of it,
  in the order of the code.  The address parser of \<open>net/mail\<close>, the decoder of the generated
  \<open>Email\<close> type and SHA-256 are parameters.
\<close>

section \<open>Parameters and the server\<close>

record 'n auth_lib =
  sha256 :: "go_string \<Rightarrow> byte list"
  ParseAddress :: "go_string \<Rightarrow> go_string option"    \<comment> \<open>the address part, if it parses\<close>
  email_json :: "'n json \<Rightarrow> go_string option"          \<comment> \<open>\<open>UnmarshalJSON\<close> of an e-mail field\<close>
  encs :: encoders

record server =
  srv_store :: bool                  \<comment> \<open>whether a store is configured\<close>
  srv_email :: "SMTPConfig option"
  srv_config :: Config

section \<open>Decoding a body\<close>

text \<open>
  The case folding \<open>encoding/json\<close> applies to member names: ASCII letters, and the two other
  letters that fold to one, the Kelvin sign and the long s.
\<close>

fun fold_name :: "go_string \<Rightarrow> go_string" where
  "fold_name [] = []"
| "fold_name (c # s) =
     (if c = CHR 0xC5 \<and> s \<noteq> [] \<and> hd s = CHR 0xBF then CHR ''s'' # fold_name (tl s)
      else if c = CHR 0xE2 \<and> take 2 s = [CHR 0x84, CHR 0xAA] then CHR ''k'' # fold_name (drop 2 s)
      else lower_char c # fold_name s)"

text \<open>
  A field of the target struct: each member with its name sets it, a member of the wrong type is
  an error of the whole call.
\<close>

definition decode_field ::
  "('n json \<Rightarrow> go_string \<Rightarrow> go_string option) \<Rightarrow> go_string \<Rightarrow> (go_string \<times> 'n json) list
    \<Rightarrow> go_string option" where
  "decode_field set_field name ms =
     foldl (\<lambda>cur (k, v). case cur of None \<Rightarrow> None
              | Some x \<Rightarrow> if fold_name k = name then set_field v x else Some x) (Some '''') ms"

fun set_string :: "'n json \<Rightarrow> go_string \<Rightarrow> go_string option" where
  "set_string (JStr s) x = Some s"
| "set_string JNull x = Some x"
| "set_string _ x = None"

definition set_email :: "('n json \<Rightarrow> go_string option) \<Rightarrow> 'n json \<Rightarrow> go_string \<Rightarrow> go_string option" where
  "set_email unmarshal v x = unmarshal v"

definition decode_members :: "'n json option \<Rightarrow> (go_string \<times> 'n json) list option" where
  "decode_members j =
     (case j of Some (JObj ms) \<Rightarrow> Some ms | Some JNull \<Rightarrow> Some [] | _ \<Rightarrow> None)"

record RegisterRequest =
  reg_name :: go_string
  reg_email :: go_string

record VerifyRequest =
  ver_token :: go_string
  ver_type :: go_string

definition decode_register :: "'n auth_lib \<Rightarrow> 'n json option \<Rightarrow> RegisterRequest option" where
  "decode_register lib j = do {
     ms \<leftarrow> decode_members j;
     name \<leftarrow> decode_field set_string ''display_name'' ms;
     email \<leftarrow> decode_field (set_email (email_json lib)) ''email'' ms;
     Some \<lparr>reg_name = name, reg_email = email\<rparr>
   }"

definition decode_verify :: "'n json option \<Rightarrow> VerifyRequest option" where
  "decode_verify j = do {
     ms \<leftarrow> decode_members j;
     token \<leftarrow> decode_field set_string ''token'' ms;
     ty \<leftarrow> decode_field set_string ''type'' ms;
     Some \<lparr>ver_token = token, ver_type = ty\<rparr>
   }"

definition decode_reissue :: "'n auth_lib \<Rightarrow> 'n json option \<Rightarrow> go_string option" where
  "decode_reissue lib j = do {
     ms \<leftarrow> decode_members j;
     decode_field (set_email (email_json lib)) ''email'' ms
   }"

section \<open>The handlers\<close>

datatype email_error = errEmailTooLong | errEmailInvalidChars | errEmailInvalidFormat

definition maxEmailLength :: nat where
  "maxEmailLength = 254"

definition email_forbidden :: go_string where
  "email_forbidden = [CHR 0x0D, CHR 0x0A, CHR ''<'', CHR ''>'']"

definition validateEmail :: "'n auth_lib \<Rightarrow> go_string \<Rightarrow> email_error + go_string" where
  "validateEmail lib raw =
     (if length raw > maxEmailLength then Inl errEmailTooLong
      else if contains_any raw email_forbidden then Inl errEmailInvalidChars
      else case ParseAddress lib raw of
             None \<Rightarrow> Inl errEmailInvalidFormat
           | Some addr \<Rightarrow> Inr addr)"

definition accepted_text :: go_string where
  "accepted_text = ''If this email is eligible, a verification link has been sent.''"

definition writeAccepted :: "('s, 'n) conn \<Rightarrow> ('s, 'n) conn" where
  "writeAccepted c = send_json json_type 202 (JObj [(''message'', JStr accepted_text)]) c"

definition no_database :: "('s, 'n) handler" where
  "no_database = WriteError 503 ''INTERNAL_ERROR'' ''Auth endpoints require database configuration'' 0"

definition bad_request :: "go_string \<Rightarrow> ('s, 'n) handler" where
  "bad_request detail = WriteError 400 ''INVALID_PARAM'' detail 0"

definition server_error :: "go_string \<Rightarrow> ('s, 'n) handler" where
  "server_error detail = WriteError 500 ''INTERNAL_ERROR'' detail 0"

definition verify_url :: "Config \<Rightarrow> go_string \<Rightarrow> go_string \<Rightarrow> go_string" where
  "verify_url cfg token ty = BaseURL cfg @ ''/verify?token='' @ token @ ''&type='' @ ty"

text \<open>
  The part both flows share: a fresh token is stored under its hash with a day to live.  The result
  is the token, or the error of the store; \<open>None\<close> if the generator panics.
\<close>

definition issue_token ::
  "'n auth_lib \<Rightarrow> go_string \<Rightarrow> TokenType \<Rightarrow> 's world \<Rightarrow> ((store_error + go_string) \<times> 's world) option"
where
  "issue_token lib email ty w =
     (case random GenerateToken w of
        None \<Rightarrow> None
      | Some (token, w1) \<Rightarrow>
          (let tokenHash = HashKey (sha256 lib) token;
               (now, w2) = time_Now w1;
               expiresAt = now + 24 * Hour;
               (res, w3) = sql (CreateToken email tokenHash ty expiresAt) w2
           in Some (map_sum id (\<lambda>_. token) res, w3)))"

text \<open>A mail is sent if a sender is configured; its error is only logged.\<close>

definition send_link ::
  "'n auth_lib \<Rightarrow> server
    \<Rightarrow> (encoders \<Rightarrow> SMTPConfig \<Rightarrow> go_string \<Rightarrow> go_string \<Rightarrow> 's world \<Rightarrow> (go_string + unit) \<times> 's world)
    \<Rightarrow> go_string \<Rightarrow> go_string \<Rightarrow> 's world \<Rightarrow> 's world" where
  "send_link lib srv send email url w =
     (case srv_email srv of None \<Rightarrow> w | Some cfg \<Rightarrow> snd (send (encs lib) cfg email url w))"

definition register_token :: "'n auth_lib \<Rightarrow> server \<Rightarrow> go_string \<Rightarrow> ('s, 'n) handler" where
  "register_token lib srv emailAddr r c =
     (case issue_token lib emailAddr TokenTypeRegistration (cworld c) of
        None \<Rightarrow> panic c
      | Some (Inl err, w) \<Rightarrow> server_error ''Registration failed'' r (c\<lparr>cworld := w\<rparr>)
      | Some (Inr token, w) \<Rightarrow>
          writeAccepted (c\<lparr>cworld := send_link lib srv SendVerification emailAddr
            (verify_url (srv_config srv) token ''registration'') w\<rparr>))"

text \<open>From the checked address and name on.\<close>

definition register_account :: "'n auth_lib \<Rightarrow> server \<Rightarrow> go_string \<Rightarrow> go_string \<Rightarrow> ('s, 'n) handler" where
  "register_account lib srv emailAddr name r c =
     (let (existing, w1) = sql (GetClientByEmail emailAddr) (cworld c);
          c1 = c\<lparr>cworld := w1\<rparr>
      in case existing of
           Inr client \<Rightarrow>
             if VerifiedAt client \<noteq> None \<and> RevokedAt client = None then writeAccepted c1
             else register_token lib srv emailAddr r c1
         | Inl err \<Rightarrow>
             if err \<noteq> ErrNotFound then server_error ''Registration failed'' r c1
             else
               (let (created, w2) = sql (CreateClient emailAddr name) w1;
                    c2 = c\<lparr>cworld := w2\<rparr>
                in case created of
                     Inl err \<Rightarrow> server_error ''Registration failed'' r c2
                   | Inr _ \<Rightarrow> register_token lib srv emailAddr r c2))"

definition AuthRegister :: "'n auth_lib \<Rightarrow> server \<Rightarrow> ('s, 'n) handler" where
  "AuthRegister lib srv r c =
     (if \<not> srv_store srv then no_database r c
      else case decode_register lib (Json r) of
        None \<Rightarrow> bad_request ''Invalid request body'' r c
      | Some req \<Rightarrow>
          (case validateEmail lib (reg_email req) of
             Inl err \<Rightarrow> bad_request ''Invalid email address'' r c
           | Inr emailAddr \<Rightarrow>
               if length (reg_name req) = 0 \<or> length (reg_name req) > 100 then
                 bad_request ''display_name must be 1-100 characters'' r c
               else register_account lib srv emailAddr (reg_name req) r c))"

definition store_key :: go_string where
  "store_key = ''Store this key safely - it will not be shown again.''"

definition verified_body :: "TokenType \<Rightarrow> go_string \<Rightarrow> 'n json" where
  "verified_body ty apiKey =
     JObj [(''api_key'', JStr apiKey),
           (''message'', JStr (if ty = TokenTypeReissue
              then ''Your old key has been revoked. '' @ store_key else store_key))]"

text \<open>From the consumed token on: a new key, its hash stored, the key sent.\<close>

definition grant_key :: "'n auth_lib \<Rightarrow> TokenType \<Rightarrow> go_string \<Rightarrow> ('s, 'n) handler" where
  "grant_key lib ty email r c =
     (case random GenerateAPIKey (cworld c) of
        None \<Rightarrow> panic c
      | Some (apiKey, w1) \<Rightarrow>
          (let apiKeyHash = HashKey (sha256 lib) apiKey;
               apiKeyPrefix = KeyPrefix apiKey;
               (res, w2) = sql (MarkClientVerified email apiKeyHash apiKeyPrefix) w1;
               c2 = c\<lparr>cworld := w2\<rparr>
           in case res of
                Inl err \<Rightarrow> server_error ''Verification failed'' r c2
              | Inr _ \<Rightarrow> send_json json_type 200 (verified_body ty apiKey) c2))"

text \<open>From the checked token type on.\<close>

definition verify_token :: "'n auth_lib \<Rightarrow> go_string \<Rightarrow> TokenType \<Rightarrow> ('s, 'n) handler" where
  "verify_token lib tok tokenType r c =
     (let tokenHash = HashKey (sha256 lib) tok;
          (res, w1) = sql (ConsumeToken tokenHash tokenType) (cworld c);
          c1 = c\<lparr>cworld := w1\<rparr>
      in case res of
           Inl err \<Rightarrow> bad_request ''Token is invalid, expired, or already used'' r c1
         | Inr token \<Rightarrow>
             if tokenType = TokenTypeReissue then
               (let (revoked, w2) = sql (RevokeClient (token_email token)) w1;
                    c2 = c\<lparr>cworld := w2\<rparr>
                in case revoked of
                     Inl err \<Rightarrow> server_error ''Verification failed'' r c2
                   | Inr _ \<Rightarrow> grant_key lib tokenType (token_email token) r c2)
             else grant_key lib tokenType (token_email token) r c1)"

definition AuthVerify :: "'n auth_lib \<Rightarrow> server \<Rightarrow> ('s, 'n) handler" where
  "AuthVerify lib srv r c =
     (if \<not> srv_store srv then no_database r c
      else case decode_verify (Json r) of
        None \<Rightarrow> bad_request ''Invalid request body'' r c
      | Some req \<Rightarrow>
          (let tokenType = ver_type req
           in if tokenType \<noteq> TokenTypeRegistration \<and> tokenType \<noteq> TokenTypeReissue then
                bad_request ''Invalid token type'' r c
              else verify_token lib (ver_token req) tokenType r c))"

definition AuthReissue :: "'n auth_lib \<Rightarrow> server \<Rightarrow> ('s, 'n) handler" where
  "AuthReissue lib srv r c =
     (if \<not> srv_store srv then no_database r c
      else case decode_reissue lib (Json r) of
        None \<Rightarrow> bad_request ''Invalid request body'' r c
      | Some raw \<Rightarrow>
          (case validateEmail lib raw of
             Inl err \<Rightarrow> bad_request ''Invalid email address'' r c
           | Inr emailAddr \<Rightarrow>
               (let (existing, w1) = sql (GetClientByEmail emailAddr) (cworld c);
                    c1 = c\<lparr>cworld := w1\<rparr>
                in case existing of
                     Inl err \<Rightarrow> writeAccepted c1
                   | Inr client \<Rightarrow>
                       if VerifiedAt client = None then writeAccepted c1
                       else
                         (case issue_token lib emailAddr TokenTypeReissue w1 of
                            None \<Rightarrow> panic c1
                          | Some (Inl err, w2) \<Rightarrow> writeAccepted (c\<lparr>cworld := w2\<rparr>)
                          | Some (Inr token, w2) \<Rightarrow>
                              writeAccepted (c\<lparr>cworld := send_link lib srv SendReissue emailAddr
                                (verify_url (srv_config srv) token ''reissue'') w2\<rparr>)))))"

end
