(* ===== verification/Single_Use.thy ===== *)
theory Single_Use
  imports Zaas_Prelude
begin

text \<open>
  Runs of a component as sequences of operations with their replies, and the contract of a resource
  that can be taken once: whatever the operations and their order, no item is taken twice.
\<close>

text \<open>The trace of a run pairs each operation with its reply.\<close>

fun run_steps :: "('op \<Rightarrow> 's \<Rightarrow> 'r \<times> 's) \<Rightarrow> 'op list \<Rightarrow> 's \<Rightarrow> ('op \<times> 'r) list \<times> 's" where
  "run_steps step [] s = ([], s)"
| "run_steps step (x # xs) s =
     (let (r, s') = step x s; (tr, s'') = run_steps step xs s' in ((x, r) # tr, s''))"

lemma run_steps_Cons:
  "snd (run_steps step (x # xs) s) = snd (run_steps step xs (snd (step x s)))"
  "fst (run_steps step (x # xs) s) =
     (x, fst (step x s)) # fst (run_steps step xs (snd (step x s)))"
  by (simp_all add: Let_def case_prod_beta)

lemma run_steps_append:
  "snd (run_steps step (xs @ ys) s) = snd (run_steps step ys (snd (run_steps step xs s)))"
  by (induction xs arbitrary: s) (simp_all add: run_steps_Cons del: run_steps.simps(2))

lemma run_steps_inv:
  assumes "\<And>x s. x \<in> set xs \<Longrightarrow> P s \<Longrightarrow> P (snd (step x s))" "P s"
  shows "P (snd (run_steps step xs s))"
  using assms
  by (induction xs arbitrary: s) (simp_all add: run_steps_Cons del: run_steps.simps(2))

text \<open>The items a run took, in order: \<open>takes x r\<close> is what the operation \<open>x\<close> with reply \<open>r\<close> took.\<close>

definition taken :: "('op \<Rightarrow> 'r \<Rightarrow> 'i option) \<Rightarrow> ('op \<times> 'r) list \<Rightarrow> 'i list" where
  "taken takes tr = List.map_filter (\<lambda>(x, r). takes x r) tr"

lemma taken_simps [simp]:
  "taken takes [] = []"
  "taken takes ((x, r) # tr) =
     (case takes x r of None \<Rightarrow> taken takes tr | Some i \<Rightarrow> i # taken takes tr)"
  by (simp_all add: taken_def map_filter_simps split: option.split)

locale single_use =
  fixes step :: "'op \<Rightarrow> 's \<Rightarrow> 'r \<times> 's"
    and allowed :: "'op \<Rightarrow> bool"
    and inv :: "'s \<Rightarrow> bool"
    and used :: "'s \<Rightarrow> 'i set"
    and takes :: "'op \<Rightarrow> 'r \<Rightarrow> 'i option"
  assumes inv_step: "allowed x \<Longrightarrow> inv s \<Longrightarrow> inv (snd (step x s))"
    and used_grows: "allowed x \<Longrightarrow> inv s \<Longrightarrow> used s \<subseteq> used (snd (step x s))"
    and takes_fresh: "allowed x \<Longrightarrow> inv s \<Longrightarrow> takes x (fst (step x s)) = Some i \<Longrightarrow> i \<notin> used s"
    and takes_uses: "allowed x \<Longrightarrow> inv s \<Longrightarrow> takes x (fst (step x s)) = Some i \<Longrightarrow>
      i \<in> used (snd (step x s))"
begin

lemma used_or_fresh:
  assumes "list_all allowed xs" "inv s"
  shows "distinct (taken takes (fst (run_steps step xs s))) \<and>
    set (taken takes (fst (run_steps step xs s))) \<inter> used s = {}"
  using assms
proof (induction xs arbitrary: s)
  case Nil
  show ?case by simp
next
  case (Cons x xs)
  let ?s = "snd (step x s)" and ?tr = "fst (run_steps step xs (snd (step x s)))"
  have inv: "inv ?s" using Cons.prems by (simp add: inv_step)
  have IH: "distinct (taken takes ?tr)" "set (taken takes ?tr) \<inter> used ?s = {}"
    using Cons.IH [OF _ inv] Cons.prems by simp_all
  have grows: "used s \<subseteq> used ?s" using used_grows Cons.prems by simp
  show ?case
  proof (cases "takes x (fst (step x s))")
    case None
    with IH grows show ?thesis
      by (auto simp: run_steps_Cons simp del: run_steps.simps(2))
  next
    case (Some i)
    have "i \<notin> used s" "i \<in> used ?s"
      using takes_fresh [OF _ _ Some] takes_uses [OF _ _ Some] Cons.prems by simp_all
    with Some IH grows show ?thesis
      by (auto simp: run_steps_Cons simp del: run_steps.simps(2))
  qed
qed

lemmas taken_distinct = used_or_fresh [THEN conjunct1]

lemma used_run:
  assumes "list_all allowed xs" "inv s"
  shows "inv (snd (run_steps step xs s)) \<and> used s \<subseteq> used (snd (run_steps step xs s))"
  using assms
proof (induction xs arbitrary: s)
  case Nil
  then show ?case by simp
next
  case (Cons x xs)
  have inv: "inv (snd (step x s))" using Cons.prems by (simp add: inv_step)
  have "used s \<subseteq> used (snd (step x s))" using used_grows Cons.prems by simp
  then show ?case
    using Cons.IH [OF _ inv] Cons.prems
    by (auto simp: run_steps_Cons simp del: run_steps.simps(2))
qed

lemma taken_used:
  assumes "list_all allowed xs" "inv s"
  shows "set (taken takes (fst (run_steps step xs s))) \<subseteq> used (snd (run_steps step xs s))"
  using assms
proof (induction xs arbitrary: s)
  case Nil
  then show ?case by simp
next
  case (Cons x xs)
  let ?s = "snd (step x s)"
  have inv: "inv ?s" using Cons.prems by (simp add: inv_step)
  have sub: "used ?s \<subseteq> used (snd (run_steps step xs ?s))"
    using used_run [OF _ inv] Cons.prems by simp
  have IH: "set (taken takes (fst (run_steps step xs ?s))) \<subseteq> used (snd (run_steps step xs ?s))"
    using Cons.IH [OF _ inv] Cons.prems by simp
  have "i \<in> used ?s" if "takes x (fst (step x s)) = Some i" for i
    using takes_uses [OF _ _ that] Cons.prems by simp
  with IH sub show ?case
    by (auto simp: run_steps_Cons simp del: run_steps.simps(2) split: option.splits)
qed

end

end
