(* ===== verification/Store_Lifecycle.thy ===== *)
theory Store_Lifecycle
  imports Store_Postgres Single_Use
begin

text \<open>
  What the statements do to the tables over time.  Handlers of different requests interleave at the
  statement, so a history of the database is any sequence of statements; the changes it can make
  are those of \<open>db_change\<close>, and every property of a history is an invariant of these changes.
\<close>

section \<open>Histories\<close>

datatype statement =
    InsertClient go_string go_string
  | SelectByEmail go_string
  | SelectByHash go_string
  | Verify go_string go_string go_string
  | Revoke go_string
  | InsertToken go_string go_string TokenType time
  | Consume go_string TokenType

datatype reply = Ok | Failed store_error | Row Client | Consumed Token

definition reply_of :: "('a \<Rightarrow> reply) \<Rightarrow> (store_error + 'a) \<times> database \<Rightarrow> reply \<times> database" where
  "reply_of f = (\<lambda>(res, db). (case_sum Failed f res, db))"

fun execute :: "statement \<Rightarrow> pg_call \<Rightarrow> database \<Rightarrow> reply \<times> database" where
  "execute (InsertClient email name) call db = reply_of (\<lambda>_. Ok) (CreateClient email name call db)"
| "execute (SelectByEmail email) call db = reply_of Row (GetClientByEmail email call db)"
| "execute (SelectByHash h) call db = reply_of Row (GetClientByAPIKeyHash h call db)"
| "execute (Verify email h p) call db = reply_of (\<lambda>_. Ok) (MarkClientVerified email h p call db)"
| "execute (Revoke email) call db = reply_of (\<lambda>_. Ok) (RevokeClient email call db)"
| "execute (InsertToken email h ty e) call db = reply_of (\<lambda>_. Ok) (CreateToken email h ty e call db)"
| "execute (Consume h ty) call db = reply_of Consumed (ConsumeToken h ty call db)"

text \<open>A history, with the reply to each statement.\<close>

definition run_history ::
  "(statement \<times> pg_call) list \<Rightarrow> database \<Rightarrow> ((statement \<times> pg_call) \<times> reply) list \<times> database"
where
  "run_history = run_steps (\<lambda>(st, call). execute st call)"

text \<open>The callers hash every key they store: no stored hash is empty.\<close>

fun hashed :: "statement \<Rightarrow> bool" where
  "hashed (Verify email h p) \<longleftrightarrow> h \<noteq> ''''"
| "hashed _ \<longleftrightarrow> True"

section \<open>The changes a statement can make\<close>

inductive db_change :: "database \<Rightarrow> database \<Rightarrow> bool" where
  unchanged: "db_change db db"
| new_client: "\<lbrakk>email \<notin> set (map client_email (clients db)); i \<notin> set (map client_id (clients db))\<rbrakk>
    \<Longrightarrow> db_change db (db\<lparr>clients := clients db @
      [\<lparr>client_id = i, client_email = email, DisplayName = name, APIKeyHash = '''',
        APIKeyPrefix = '''', RateLimitRPM = 600, CreatedAt = t, VerifiedAt = None,
        RevokedAt = None\<rparr>]\<rparr>)"
| verify: "h \<noteq> '''' \<Longrightarrow> db_change db (db\<lparr>clients := map (\<lambda>c.
      if client_email c = email \<and> VerifiedAt c = None
      then c\<lparr>VerifiedAt := Some t, APIKeyHash := h, APIKeyPrefix := p\<rparr> else c) (clients db)\<rparr>)"
| revoke: "db_change db (db\<lparr>clients := map (\<lambda>c.
      if client_email c = email \<and> RevokedAt c = None then c\<lparr>RevokedAt := Some t\<rparr> else c)
      (clients db)\<rparr>)"
| new_token: "i \<notin> set (map token_id (verification_tokens db)) \<Longrightarrow>
    db_change db (db\<lparr>verification_tokens := verification_tokens db @
      [\<lparr>token_id = i, token_email = email, TokenHash = h, token_type = ty, token_created = t,
        ExpiresAt = e, UsedAt = None\<rparr>]\<rparr>)"
| use_token: "db_change db (db\<lparr>verification_tokens := map (\<lambda>t.
      if consumable h ty now t then t\<lparr>UsedAt := Some now\<rparr> else t) (verification_tokens db)\<rparr>)"

lemma find_None_map: "find P xs = None \<Longrightarrow> map (\<lambda>x. if P x then f x else x) xs = xs"
  by (induction xs) (auto split: if_splits)

lemma CreateClient_change: "db_change db (snd (CreateClient email name call db))"
  by (auto simp: store_ops sql_defs unchanged intro: new_client split: pg_delivery.splits)

lemma GetClientByEmail_same [simp]: "snd (GetClientByEmail email call db) = db"
  by (auto simp: store_ops sql_defs split: pg_delivery.splits option.splits)

lemma GetClientByAPIKeyHash_same [simp]: "snd (GetClientByAPIKeyHash h call db) = db"
  by (auto simp: store_ops sql_defs split: pg_delivery.splits option.splits)

lemma MarkClientVerified_change:
  "h \<noteq> '''' \<Longrightarrow> db_change db (snd (MarkClientVerified email h p call db))"
  by (auto simp: store_ops sql_defs unchanged intro: verify split: pg_delivery.splits)

lemma RevokeClient_change: "db_change db (snd (RevokeClient email call db))"
  by (auto simp: store_ops sql_defs unchanged intro: revoke split: pg_delivery.splits)

lemma CreateToken_change: "db_change db (snd (CreateToken email h ty e call db))"
  by (auto simp: store_ops sql_defs unchanged intro: new_token split: pg_delivery.splits)

lemma ConsumeToken_state:
  "snd (ConsumeToken h ty call db) =
     (case delivery_of call of
        Refused e \<Rightarrow> db
      | _ \<Rightarrow> db\<lparr>verification_tokens := map (\<lambda>t.
          if consumable h ty (timestamptz (pg_now call)) t
          then t\<lparr>UsedAt := Some (timestamptz (pg_now call))\<rparr> else t) (verification_tokens db)\<rparr>)"
  by (simp add: ConsumeToken_def sql_defs split: pg_delivery.splits option.splits)

lemma ConsumeToken_change: "db_change db (snd (ConsumeToken h ty call db))"
  by (simp add: ConsumeToken_state unchanged use_token split: pg_delivery.splits)

lemma snd_reply_of [simp]: "snd (reply_of f x) = snd x"
  by (simp add: reply_of_def case_prod_beta)

lemma execute_change: "hashed st \<Longrightarrow> db_change db (snd (execute st call db))"
  by (cases st) (simp_all add: CreateClient_change MarkClientVerified_change RevokeClient_change
      CreateToken_change ConsumeToken_change unchanged)

lemmas method_changes = CreateClient_change MarkClientVerified_change RevokeClient_change
  CreateToken_change ConsumeToken_change

section \<open>The invariant of the tables\<close>

text \<open>
  Addresses and identifiers are unique, a client has a key exactly when it is verified, and a token
  was used, if it was, before it expired.
\<close>

definition client_ok :: "Client \<Rightarrow> bool" where
  "client_ok c \<longleftrightarrow> (VerifiedAt c = None \<longleftrightarrow> APIKeyHash c = '''')"

definition token_ok :: "Token \<Rightarrow> bool" where
  "token_ok t \<longleftrightarrow> (\<forall>u. UsedAt t = Some u \<longrightarrow> u < ExpiresAt t)"

definition db_ok :: "database \<Rightarrow> bool" where
  "db_ok db \<longleftrightarrow>
     distinct (map client_email (clients db)) \<and> distinct (map client_id (clients db)) \<and>
     distinct (map token_id (verification_tokens db)) \<and>
     list_all client_ok (clients db) \<and> list_all token_ok (verification_tokens db)"

lemma db_ok_empty [simp]: "db_ok empty_database"
  by (simp add: db_ok_def empty_database_def)

lemma map_upd_field:
  "(\<And>x. k (f x) = k x) \<Longrightarrow> map k (map (\<lambda>x. if P x then f x else x) xs) = map k xs"
  by (induction xs) auto

lemma db_ok_change: "db_change db db' \<Longrightarrow> db_ok db \<Longrightarrow> db_ok db'"
proof (induction rule: db_change.induct)
  case (verify h db email p t)
  then show ?case
    by (simp add: db_ok_def map_upd_field del: map_map)
      (auto simp: list_all_iff client_ok_def)
next
  case (revoke db email t)
  then show ?case
    by (simp add: db_ok_def map_upd_field del: map_map)
      (auto simp: list_all_iff client_ok_def)
next
  case (use_token db h ty now)
  then show ?case
    by (simp add: db_ok_def map_upd_field del: map_map)
      (auto simp: list_all_iff token_ok_def consumable_def)
qed (auto simp: db_ok_def client_ok_def token_ok_def)

lemma db_ok_execute: "hashed st \<Longrightarrow> db_ok db \<Longrightarrow> db_ok (snd (execute st call db))"
  using execute_change db_ok_change by blast

definition hashed_history :: "(statement \<times> pg_call) list \<Rightarrow> bool" where
  "hashed_history hist \<longleftrightarrow> list_all (\<lambda>(st, call). hashed st) hist"

lemma run_history_Cons:
  "snd (run_history ((st, call) # rest) db) = snd (run_history rest (snd (execute st call db)))"
  by (simp add: run_history_def run_steps_Cons del: run_steps.simps(2))

lemma run_history_Nil [simp]: "run_history [] db = ([], db)"
  by (simp add: run_history_def)

lemma db_ok_history: "hashed_history hist \<Longrightarrow> db_ok db \<Longrightarrow> db_ok (snd (run_history hist db))"
  unfolding run_history_def hashed_history_def
  by (rule run_steps_inv) (auto simp: list_all_iff db_ok_execute)

section \<open>The life of an account\<close>

text \<open>
  An account is pending until it is verified, holds its key from then on, and can be revoked;
  unchanged leads back from there.
\<close>

datatype account = Pending | Active go_string | Revoked "go_string option"

definition account :: "Client \<Rightarrow> account" where
  "account c =
     (let key = (if VerifiedAt c = None then None else Some (APIKeyHash c))
      in if RevokedAt c = None then (case key of None \<Rightarrow> Pending | Some h \<Rightarrow> Active h)
         else Revoked key)"

inductive account_step :: "account \<Rightarrow> account \<Rightarrow> bool" where
  "account_step Pending (Active h)"
| "account_step Pending (Revoked None)"
| "account_step (Active h) (Revoked (Some h))"
| "account_step (Revoked None) (Revoked (Some h))"

inductive_simps account_step_Active: "account_step (Active h) a"
inductive_simps account_step_Revoked: "account_step (Revoked k) a"

text \<open>What of a client never changes.\<close>

definition same_person :: "Client \<Rightarrow> Client \<Rightarrow> bool" where
  "same_person c c' \<longleftrightarrow> client_id c' = client_id c \<and> client_email c' = client_email c \<and>
     DisplayName c' = DisplayName c \<and> RateLimitRPM c' = RateLimitRPM c \<and>
     CreatedAt c' = CreatedAt c"

lemma change_account:
  assumes "db_change db db'" "c \<in> set (clients db)"
  shows "\<exists>c' \<in> set (clients db'). same_person c c' \<and> account_step\<^sup>=\<^sup>= (account c) (account c')"
  using assms
proof (cases rule: db_change.cases)
  case (verify h email p t)
  define c' where "c' = (if client_email c = email \<and> VerifiedAt c = None
    then c\<lparr>VerifiedAt := Some t, APIKeyHash := h, APIKeyPrefix := p\<rparr> else c)"
  have "c' \<in> set (clients db')" using verify assms(2) by (auto simp: c'_def)
  moreover have "same_person c c' \<and> account_step\<^sup>=\<^sup>= (account c) (account c')"
    by (auto simp: c'_def same_person_def account_def Let_def account_step.simps)
  ultimately show ?thesis by blast
next
  case (revoke email t)
  define c' where "c' = (if client_email c = email \<and> RevokedAt c = None
    then c\<lparr>RevokedAt := Some t\<rparr> else c)"
  have "c' \<in> set (clients db')" using revoke assms(2) by (auto simp: c'_def)
  moreover have "same_person c c' \<and> account_step\<^sup>=\<^sup>= (account c) (account c')"
    by (auto simp: c'_def same_person_def account_def Let_def account_step.simps)
  ultimately show ?thesis by blast
qed (auto simp: same_person_def)

lemma same_person_refl [simp]: "same_person c c"
  by (simp add: same_person_def)

lemma same_person_trans: "same_person a b \<Longrightarrow> same_person b c \<Longrightarrow> same_person a c"
  by (simp add: same_person_def)

lemma history_account:
  assumes "hashed_history hist" "c \<in> set (clients db)"
  shows "\<exists>c' \<in> set (clients (snd (run_history hist db))).
    same_person c c' \<and> account_step\<^sup>*\<^sup>* (account c) (account c')"
  using assms
proof (induction hist arbitrary: db c)
  case Nil
  then show ?case by (intro bexI [of _ c]) simp_all
next
  case (Cons x rest)
  obtain st call where x: "x = (st, call)" by (cases x)
  then obtain c1 where c1: "c1 \<in> set (clients (snd (execute st call db)))" "same_person c c1"
      "account_step\<^sup>=\<^sup>= (account c) (account c1)"
    using change_account [OF execute_change] Cons.prems by (fastforce simp: hashed_history_def)
  obtain c2 where "c2 \<in> set (clients (snd (run_history rest (snd (execute st call db)))))"
      "same_person c1 c2" "account_step\<^sup>*\<^sup>* (account c1) (account c2)"
    using Cons.IH [OF _ c1(1)] Cons.prems(1) by (fastforce simp: hashed_history_def)
  moreover have "account_step\<^sup>*\<^sup>* (account c) (account c1)" using c1(3) by auto
  ultimately show ?case
    using c1(2) x by (metis rtranclp_trans same_person_trans run_history_Cons)
qed

text \<open>A key that was revoked stays revoked; a verified client keeps its key's hash.\<close>

lemma revoked_stays: "account_step\<^sup>*\<^sup>* (Revoked (Some h)) a \<Longrightarrow> a = Revoked (Some h)"
  by (induction rule: rtranclp_induct) (auto simp: account_step_Revoked)

lemma active_keeps: "account_step\<^sup>*\<^sup>* (Active h) a \<Longrightarrow> a = Active h \<or> a = Revoked (Some h)"
  by (induction rule: rtranclp_induct) (auto simp: account_step_Active account_step_Revoked)

section \<open>What can be had once\<close>

text \<open>A token is consumed once; an address is verified, and so given a key, once.\<close>

fun consumed_token :: "statement \<times> pg_call \<Rightarrow> reply \<Rightarrow> go_string option" where
  "consumed_token x (Consumed t) = Some (token_id t)"
| "consumed_token x _ = None"

fun verified_email :: "statement \<times> pg_call \<Rightarrow> reply \<Rightarrow> go_string option" where
  "verified_email (Verify email h p, call) Ok = Some email"
| "verified_email _ _ = None"

definition used_tokens :: "database \<Rightarrow> go_string set" where
  "used_tokens db = token_id ` {t \<in> set (verification_tokens db). UsedAt t \<noteq> None}"

definition verified_emails :: "database \<Rightarrow> go_string set" where
  "verified_emails db = client_email ` {c \<in> set (clients db). VerifiedAt c \<noteq> None}"

lemma change_used_tokens: "db_change db db' \<Longrightarrow> used_tokens db \<subseteq> used_tokens db'"
  by (induction rule: db_change.induct) (auto simp: used_tokens_def consumable_def image_iff)

lemma account_unverified: "VerifiedAt c = None \<longleftrightarrow> account c = Pending \<or> account c = Revoked None"
  by (auto simp: account_def Let_def)

lemma step_verified: "account_step a b \<Longrightarrow> b = Pending \<or> b = Revoked None \<Longrightarrow> a = Pending \<or> a = Revoked None"
  by (auto elim: account_step.cases)

lemma change_verified_emails:
  assumes "db_change db db'"
  shows "verified_emails db \<subseteq> verified_emails db'"
proof
  fix email
  assume "email \<in> verified_emails db"
  then obtain c where c: "c \<in> set (clients db)" "VerifiedAt c \<noteq> None" "client_email c = email"
    unfolding verified_emails_def by blast
  obtain c' where c': "c' \<in> set (clients db')" "same_person c c'"
      "account_step\<^sup>=\<^sup>= (account c) (account c')"
    using change_account [OF assms c(1)] by blast
  have "VerifiedAt c' \<noteq> None"
    using c(2) c'(3) step_verified by (auto simp: account_unverified)
  moreover have "email = client_email c'" using c(3) c'(2) by (simp add: same_person_def)
  ultimately show "email \<in> verified_emails db'"
    using c'(1) unfolding verified_emails_def by blast
qed

text \<open>A successful \<open>ConsumeToken\<close>: what it returns, and what it did to the table.\<close>

lemma ConsumeToken_ok:
  assumes "ConsumeToken h ty call db = (Inr t, db')"
  obtains t0 where "t0 \<in> set (verification_tokens db)"
    "consumable h ty (timestamptz (pg_now call)) t0"
    "t = t0\<lparr>UsedAt := Some (timestamptz (pg_now call))\<rparr>" "t \<in> set (verification_tokens db')"
proof -
  from assms obtain t0 where "find (consumable h ty (timestamptz (pg_now call)))
      (verification_tokens db) = Some t0"
    and t: "t = t0\<lparr>UsedAt := Some (timestamptz (pg_now call))\<rparr>"
    and db': "db' = db\<lparr>verification_tokens := map (\<lambda>t.
        if consumable h ty (timestamptz (pg_now call)) t
        then t\<lparr>UsedAt := Some (timestamptz (pg_now call))\<rparr> else t) (verification_tokens db)\<rparr>"
    by (auto simp: ConsumeToken_def sql_defs split: pg_delivery.splits option.splits sum.splits
        pg_error.splits)
  then have "t0 \<in> set (verification_tokens db)" "consumable h ty (timestamptz (pg_now call)) t0"
    by (auto simp: find_Some_iff)
  then show thesis using that t db' by (auto simp: image_iff)
qed

lemma MarkClientVerified_ok:
  assumes "MarkClientVerified email h p call db = (Inr u, db')"
  obtains c where "c \<in> set (clients db)" "client_email c = email" "VerifiedAt c = None"
    "c\<lparr>VerifiedAt := Some (timestamptz (pg_now call)), APIKeyHash := h, APIKeyPrefix := p\<rparr>
       \<in> set (clients db')"
proof -
  from assms have "filter (\<lambda>c. client_email c = email \<and> VerifiedAt c = None) (clients db) \<noteq> []"
    and db': "db' = db\<lparr>clients := map (\<lambda>c. if client_email c = email \<and> VerifiedAt c = None
        then c\<lparr>VerifiedAt := Some (timestamptz (pg_now call)), APIKeyHash := h, APIKeyPrefix := p\<rparr>
        else c) (clients db)\<rparr>"
    by (auto simp: MarkClientVerified_def sql_defs split: pg_delivery.splits if_splits)
  then obtain c where "c \<in> set (clients db)" "client_email c = email" "VerifiedAt c = None"
    by (auto simp: filter_empty_conv)
  then show thesis using that db' by (auto simp: image_iff)
qed

lemma execute_Consumed:
  assumes "fst (execute st call db) = Consumed t"
  obtains h ty where "st = Consume h ty" "ConsumeToken h ty call db = (Inr t, snd (execute st call db))"
  using assms by (cases st) (auto simp: reply_of_def split: prod.splits sum.splits)

lemma execute_Verify_Ok:
  assumes "fst (execute (Verify email h p) call db) = Ok"
  shows "MarkClientVerified email h p call db = (Inr (), snd (execute (Verify email h p) call db))"
  using assms by (auto simp: reply_of_def split: prod.splits sum.splits)

lemma verified_email_Some:
  "verified_email x r = Some email \<longleftrightarrow> (\<exists>h p call. x = (Verify email h p, call) \<and> r = Ok)"
  by (cases "(x, r)" rule: verified_email.cases) auto

lemma consumed_token_Some: "consumed_token x r = Some i \<longleftrightarrow> (\<exists>t. r = Consumed t \<and> token_id t = i)"
  by (cases r) auto

interpretation tokens: single_use "\<lambda>(st, call). execute st call" "\<lambda>(st, call). hashed st" db_ok
  used_tokens consumed_token
proof unfold_locales
  fix x :: "statement \<times> pg_call" and db i
  obtain st call where x: "x = (st, call)" by (cases x)
  assume *: "case x of (st, call) \<Rightarrow> hashed st" "db_ok db"
  then show "db_ok (snd ((case x of (st, call) \<Rightarrow> execute st call) db))"
    by (simp add: x db_ok_execute)
  show "used_tokens db \<subseteq> used_tokens (snd ((case x of (st, call) \<Rightarrow> execute st call) db))"
    using change_used_tokens [OF execute_change] * by (simp add: x)
  assume "consumed_token x (fst ((case x of (st, call) \<Rightarrow> execute st call) db)) = Some i"
  then obtain t where t: "fst (execute st call db) = Consumed t" "token_id t = i"
    by (auto simp: x consumed_token_Some)
  obtain h ty where "ConsumeToken h ty call db = (Inr t, snd (execute st call db))"
    using execute_Consumed [OF t(1)] by blast
  then obtain t0 where t0: "t0 \<in> set (verification_tokens db)"
      "consumable h ty (timestamptz (pg_now call)) t0"
      "t = t0\<lparr>UsedAt := Some (timestamptz (pg_now call))\<rparr>"
      "t \<in> set (verification_tokens (snd (execute st call db)))"
    by (rule ConsumeToken_ok)
  have "distinct (map token_id (verification_tokens db))" using * by (simp add: db_ok_def)
  then have "t1 = t0" if "t1 \<in> set (verification_tokens db)" "token_id t1 = i" for t1
    using map_if_distinct that t0(1,3) t(2) by fastforce
  then show "i \<notin> used_tokens db"
    using t0(2) by (fastforce simp: used_tokens_def consumable_def)
  show "i \<in> used_tokens (snd ((case x of (st, call) \<Rightarrow> execute st call) db))"
    using t0(3,4) t(2) by (auto simp: used_tokens_def x image_iff)
qed

interpretation keys: single_use "\<lambda>(st, call). execute st call" "\<lambda>(st, call). hashed st" db_ok
  verified_emails verified_email
proof unfold_locales
  fix x :: "statement \<times> pg_call" and db email
  obtain st call where x: "x = (st, call)" by (cases x)
  assume *: "case x of (st, call) \<Rightarrow> hashed st" "db_ok db"
  then show "db_ok (snd ((case x of (st, call) \<Rightarrow> execute st call) db))"
    by (simp add: x db_ok_execute)
  show "verified_emails db \<subseteq> verified_emails (snd ((case x of (st, call) \<Rightarrow> execute st call) db))"
    using change_verified_emails [OF execute_change] * by (simp add: x)
  assume "verified_email x (fst ((case x of (st, call) \<Rightarrow> execute st call) db)) = Some email"
  then obtain h p where st: "st = Verify email h p" "fst (execute st call db) = Ok"
    by (auto simp: x verified_email_Some)
  then obtain c where c: "c \<in> set (clients db)" "client_email c = email" "VerifiedAt c = None"
      "c\<lparr>VerifiedAt := Some (timestamptz (pg_now call)), APIKeyHash := h, APIKeyPrefix := p\<rparr>
        \<in> set (clients (snd (execute st call db)))"
    using MarkClientVerified_ok execute_Verify_Ok by metis
  have "distinct (map client_email (clients db))" using * by (simp add: db_ok_def)
  then have "c1 = c" if "c1 \<in> set (clients db)" "client_email c1 = email" for c1
    using map_if_distinct that c(1,2) by fastforce
  then show "email \<notin> verified_emails db"
    using c(3) by (fastforce simp: verified_emails_def)
  show "email \<in> verified_emails (snd ((case x of (st, call) \<Rightarrow> execute st call) db))"
    using c(2,4) by (force simp: verified_emails_def x image_iff)
qed

section \<open>Properties\<close>

text \<open>
  C3: A token is consumed at most once.  In every history of statements, whatever their order and
  whichever calls fail or lose their answer, no two successful calls of \<open>ConsumeToken\<close> return the
  same token.
\<close>

theorem token_consumed_once:
  assumes "hashed_history hist" "db_ok db"
  shows "distinct (taken consumed_token (fst (run_history hist db)))"
  using tokens.taken_distinct [of hist db] assms
  by (simp add: run_history_def hashed_history_def)

definition call_at :: "time \<Rightarrow> go_string \<Rightarrow> pg_call" where
  "call_at t i = \<lparr>pg_now = t, pg_uuid = i, delivery_of = Answered\<rparr>"

definition sample_history :: "(statement \<times> pg_call) list" where
  "sample_history =
     [(InsertClient ''a@b.c'' ''Ann'', call_at 1000 ''c1''),
      (InsertToken ''a@b.c'' ''h'' ''registration'' 90000, call_at 2000 ''t1''),
      (Consume ''h'' ''registration'', call_at 3000 ''x''),
      (Consume ''h'' ''registration'', call_at 4000 ''x''),
      (Verify ''a@b.c'' ''k'' ''p'', call_at 5000 ''x''),
      (Verify ''a@b.c'' ''k2'' ''p'', call_at 6000 ''x''),
      (Revoke ''a@b.c'', call_at 7000 ''x'')]"

theorem token_consumed_once_witness:
  "distinct (taken consumed_token (fst (run_history sample_history empty_database)))"
  by (rule token_consumed_once) (simp_all add: sample_history_def hashed_history_def)

text \<open>
  C13: An address is verified, and so given a key, at most once in every history: no two successful
  calls of \<open>MarkClientVerified\<close> name the same address.
\<close>

theorem one_key_per_address:
  assumes "hashed_history hist" "db_ok db"
  shows "distinct (taken verified_email (fst (run_history hist db)))"
  using keys.taken_distinct [of hist db] assms
  by (simp add: run_history_def hashed_history_def)

theorem one_key_per_address_witness:
  "distinct (taken verified_email (fst (run_history sample_history empty_database)))"
  by (rule one_key_per_address) (simp_all add: sample_history_def hashed_history_def)

text \<open>
  C30: The life of an account.  In every history a client keeps its identity, and its account moves
  only from pending to active to revoked: a verified client keeps its key's hash, and a revoked one
  is never active again.
\<close>

theorem account_life:
  assumes "hashed_history hist" "c \<in> set (clients db)"
  shows "\<exists>c' \<in> set (clients (snd (run_history hist db))). same_person c c' \<and>
    account_step\<^sup>*\<^sup>* (account c) (account c') \<and>
    (account c = Active h \<longrightarrow> account c' \<in> {Active h, Revoked (Some h)}) \<and>
    (account c = Revoked (Some h) \<longrightarrow> account c' = Revoked (Some h))"
proof -
  obtain c' where c': "c' \<in> set (clients (snd (run_history hist db)))" "same_person c c'"
      "account_step\<^sup>*\<^sup>* (account c) (account c')"
    using history_account [OF assms] by blast
  moreover have "account c' \<in> {Active h, Revoked (Some h)}" if "account c = Active h"
    using active_keeps [of h "account c'"] c'(3) that by simp
  moreover have "account c' = Revoked (Some h)" if "account c = Revoked (Some h)"
    using revoked_stays [of h "account c'"] c'(3) that by simp
  ultimately show ?thesis by blast
qed

definition sample_client :: Client where
  "sample_client =
     \<lparr>client_id = ''c1'', client_email = ''a@b.c'', DisplayName = ''Ann'', APIKeyHash = ''k'',
      APIKeyPrefix = ''p'', RateLimitRPM = 600, CreatedAt = 0, VerifiedAt = Some 5,
      RevokedAt = None\<rparr>"

theorem account_life_witness:
  "\<exists>c' \<in> set (clients (snd (run_history sample_history
      \<lparr>clients = [sample_client], verification_tokens = []\<rparr>))).
    same_person sample_client c' \<and> account c' \<in> {Active ''k'', Revoked (Some ''k'')}"
proof -
  have "account sample_client = Active ''k''"
    by (simp add: sample_client_def account_def)
  then show ?thesis
    using account_life [of sample_history sample_client
        "\<lparr>clients = [sample_client], verification_tokens = []\<rparr>" "''k''"]
    by (auto simp: sample_history_def hashed_history_def)
qed

text \<open>
  The tables stay well-formed in every history from an empty database: addresses and
  identifiers are unique, a client has a key hash exactly when it is verified, and no token was
  used after it expired.
\<close>

theorem tables_well_formed:
  assumes "hashed_history hist"
  shows "db_ok (snd (run_history hist empty_database))"
  by (rule db_ok_history [OF assms db_ok_empty])

theorem tables_well_formed_witness:
  "db_ok (snd (run_history sample_history empty_database))"
  by (rule tables_well_formed) (simp add: sample_history_def hashed_history_def)

end
