(* ===== verification/Auth_Facts.thy ===== *)
theory Auth_Facts
  imports Handler_Auth Store_Lifecycle
begin

text \<open>
  The account flow over the tables: what each auth handler does to the database, the invariant
  that every token belongs to an account that may have it, and the outcome of each handler.
\<close>

section \<open>Handlers are histories of statements\<close>

abbreviation db_changes :: "database \<Rightarrow> database \<Rightarrow> bool" where
  "db_changes \<equiv> db_change\<^sup>*\<^sup>*"

lemma db_ok_changes: "db_changes db db' \<Longrightarrow> db_ok db \<Longrightarrow> db_ok db'"
  by (induction rule: rtranclp_induct) (auto simp: db_ok_change)

lemma changes_account:
  assumes "db_changes db db'" "c \<in> set (clients db)"
  shows "\<exists>c' \<in> set (clients db'). same_person c c' \<and> account_step\<^sup>*\<^sup>* (account c) (account c')"
  using assms
proof (induction rule: rtranclp_induct)
  case base
  then show ?case by (intro bexI [of _ c]) simp_all
next
  case (step db1 db2)
  then obtain c1 where c1: "c1 \<in> set (clients db1)" "same_person c c1"
      "account_step\<^sup>*\<^sup>* (account c) (account c1)" by blast
  obtain c2 where c2: "c2 \<in> set (clients db2)" "same_person c1 c2"
      "account_step\<^sup>=\<^sup>= (account c1) (account c2)"
    using change_account [OF step.hyps(2) c1(1)] by blast
  have "account_step\<^sup>*\<^sup>* (account c) (account c2)" using c1(3) c2(3) by auto
  with c1 c2 show ?case using same_person_trans by blast
qed

text \<open>SHA-256 gives 32 bytes.\<close>

definition sha256_sized :: "'n auth_lib \<Rightarrow> bool" where
  "sha256_sized lib \<longleftrightarrow> (\<forall>s. length (sha256 lib s) = 32)"

lemma sql_change:
  "(\<And>call db. db_change db (snd (m call db))) \<Longrightarrow> db_change (w_db w) (w_db (snd (sql m w)))"
  by (simp add: sql_db)

lemma sql_eq:
  assumes "sql m w = (res, w')"
  shows "res = fst (m (w_pg w (w_pgn w)) (w_db w))" "w_db w' = snd (m (w_pg w (w_pgn w)) (w_db w))"
    "w_outbox w' = w_outbox w" "w_rng w' = w_rng w"
  using assms by (auto simp: sql_def Let_def case_prod_beta)

lemma time_Now_simps [simp]:
  "w_db (snd (time_Now w)) = w_db w" "w_outbox (snd (time_Now w)) = w_outbox w"
  "w_rng (snd (time_Now w)) = w_rng w"
  by (simp_all add: time_Now_def)

lemma random_eq:
  "random g w = Some (x, w') \<Longrightarrow>
     w_db w' = w_db w \<and> w_outbox w' = w_outbox w \<and> (\<exists>r. g (w_rng w) = Some (x, r))"
  by (auto simp: random_def)

lemma issue_token_eq:
  assumes "issue_token lib email ty w = Some (res, w')"
  obtains h e call where "w_db w' = snd (CreateToken email h ty e call (w_db w))"
    "w_outbox w' = w_outbox w"
proof -
  from assms obtain tok w1 where w1: "random GenerateToken w = Some (tok, w1)"
    and w': "w' = snd (sql (CreateToken email (HashKey (sha256 lib) tok) ty
      (fst (time_Now w1) + 24 * Hour)) (snd (time_Now w1)))"
    by (auto simp: issue_token_def Let_def case_prod_beta split: option.splits)
  have "w_db w1 = w_db w" "w_outbox w1 = w_outbox w" using random_eq [OF w1] by auto
  then show thesis using that w' by (simp add: sql_db)
qed

lemma send_link_db:
  "w_db (send_link lib srv SendVerification email url w) = w_db w"
  "w_db (send_link lib srv SendReissue email url w) = w_db w"
  by (simp_all add: send_link_def SendVerification_def SendReissue_def send_outcome split: option.split)

section \<open>Every token belongs to an account\<close>

text \<open>A registration token to an account of its address, a re-issue token to a verified one.\<close>

definition token_backed :: "database \<Rightarrow> go_string \<Rightarrow> TokenType \<Rightarrow> bool" where
  "token_backed db email ty \<longleftrightarrow> (\<exists>c \<in> set (clients db). client_email c = email \<and>
     (ty = TokenTypeReissue \<longrightarrow> VerifiedAt c \<noteq> None))"

definition tokens_backed :: "database \<Rightarrow> bool" where
  "tokens_backed db \<longleftrightarrow>
     (\<forall>t \<in> set (verification_tokens db). token_backed db (token_email t) (token_type t))"

lemma token_backed_change:
  assumes "db_change db db'" "token_backed db email ty"
  shows "token_backed db' email ty"
proof -
  obtain c where c: "c \<in> set (clients db)" "client_email c = email"
      "ty = TokenTypeReissue \<longrightarrow> VerifiedAt c \<noteq> None"
    using assms(2) unfolding token_backed_def by blast
  obtain c' where c': "c' \<in> set (clients db')" "same_person c c'"
      "account_step\<^sup>=\<^sup>= (account c) (account c')"
    using change_account [OF assms(1) c(1)] by blast
  have "VerifiedAt c \<noteq> None \<Longrightarrow> VerifiedAt c' \<noteq> None"
    using c'(3) step_verified by (auto simp: account_unverified)
  with c c' show ?thesis unfolding token_backed_def same_person_def by metis
qed

definition same_tokens :: "database \<Rightarrow> database \<Rightarrow> bool" where
  "same_tokens db db' \<longleftrightarrow> (\<forall>t' \<in> set (verification_tokens db'). \<exists>t \<in> set (verification_tokens db).
     token_email t' = token_email t \<and> token_type t' = token_type t)"

lemma tokens_backed_same:
  "db_change db db' \<Longrightarrow> same_tokens db db' \<Longrightarrow> tokens_backed db \<Longrightarrow> tokens_backed db'"
  unfolding tokens_backed_def same_tokens_def by (metis token_backed_change)

lemma same_tokens_methods:
  "same_tokens db (snd (CreateClient email name call db))"
  "same_tokens db (snd (MarkClientVerified email h p call db))"
  "same_tokens db (snd (RevokeClient email call db))"
  "same_tokens db (snd (ConsumeToken h ty call db))"
     apply (auto simp: same_tokens_def store_ops sql_defs split: pg_delivery.splits sum.splits)[3]
  by (auto simp: same_tokens_def ConsumeToken_state split: pg_delivery.splits)

lemma CreateToken_tokens:
  "t \<in> set (verification_tokens (snd (CreateToken email h ty e call db))) \<Longrightarrow>
     t \<in> set (verification_tokens db) \<or> token_email t = email \<and> token_type t = ty"
  by (auto simp: store_ops sql_defs split: pg_delivery.splits if_splits)

lemma tokens_backed_CreateToken:
  assumes "tokens_backed db" "token_backed db email ty"
  shows "tokens_backed (snd (CreateToken email h ty e call db))"
  using assms CreateToken_tokens token_backed_change [OF CreateToken_change]
  unfolding tokens_backed_def by blast

lemma CreateClient_ok:
  "fst (CreateClient email name call db) = Inr u \<Longrightarrow>
     \<exists>c \<in> set (clients (snd (CreateClient email name call db))). client_email c = email"
  by (auto simp: store_ops sql_defs split: pg_delivery.splits if_splits)

lemma GetClientByEmail_found:
  "fst (GetClientByEmail email call db) = Inr c \<Longrightarrow> c \<in> set (clients db) \<and> client_email c = email"
  by (auto simp: store_ops sql_defs find_Some_iff split: pg_delivery.splits option.splits
      sum.splits pg_error.splits if_splits)

text \<open>The invariant of the account flow, and the steps that keep it.\<close>

definition auth_inv :: "database \<Rightarrow> bool" where
  "auth_inv db \<longleftrightarrow> db_ok db \<and> tokens_backed db"

definition keeps :: "database \<Rightarrow> database \<Rightarrow> bool" where
  "keeps db db' \<longleftrightarrow> db_changes db db' \<and> (tokens_backed db \<longrightarrow> tokens_backed db')"

lemma keeps_refl [simp]: "keeps db db"
  by (simp add: keeps_def)

lemma keeps_trans: "keeps a b \<Longrightarrow> keeps b c \<Longrightarrow> keeps a c"
  by (auto simp: keeps_def)

lemma keeps_step: "db_change db db' \<Longrightarrow> same_tokens db db' \<Longrightarrow> keeps db db'"
  by (auto simp: keeps_def tokens_backed_same)

lemma auth_inv_keeps: "keeps db db' \<Longrightarrow> auth_inv db \<Longrightarrow> auth_inv db'"
  by (auto simp: keeps_def auth_inv_def db_ok_changes)

lemma keeps_CreateToken:
  "token_backed db email ty \<Longrightarrow> keeps db (snd (CreateToken email h ty e call db))"
  by (auto simp: keeps_def CreateToken_change tokens_backed_CreateToken)

lemma keeps_methods:
  "keeps db (snd (CreateClient email name call db))"
  "h \<noteq> '''' \<Longrightarrow> keeps db (snd (MarkClientVerified email h p call db))"
  "keeps db (snd (RevokeClient email call db))"
  "keeps db (snd (ConsumeToken h' ty call db))"
  by (simp_all add: keeps_step method_changes same_tokens_methods)

lemma keeps_issue:
  assumes "issue_token lib email ty w = Some (res, w')" "token_backed (w_db w) email ty"
  shows "keeps (w_db w) (w_db w')"
proof -
  obtain h e call where "w_db w' = snd (CreateToken email h ty e call (w_db w))"
    using issue_token_eq [OF assms(1)] by metis
  then show ?thesis using keeps_CreateToken [OF assms(2)] by simp
qed

lemma writeAccepted_world [simp]: "cworld (writeAccepted c) = cworld c"
  by (simp add: writeAccepted_def)

lemma error_worlds [simp]:
  "cworld (no_database r c) = cworld c" "cworld (bad_request d r c) = cworld c"
  "cworld (server_error d r c) = cworld c"
  by (simp_all add: no_database_def bad_request_def server_error_def)

lemma register_token_keeps:
  assumes "token_backed (w_db (cworld c)) email TokenTypeRegistration"
  shows "keeps (w_db (cworld c)) (w_db (cworld (register_token lib srv email r c)))"
  using keeps_issue [OF _ assms]
  by (auto simp: register_token_def send_link_db split: option.splits sum.splits)

lemma registration_backed:
  "c \<in> set (clients db) \<Longrightarrow> client_email c = email \<Longrightarrow> token_backed db email TokenTypeRegistration"
  by (auto simp: token_backed_def TokenTypeReissue_def TokenTypeRegistration_def)

lemma register_account_keeps:
  "keeps (w_db (cworld c)) (w_db (cworld (register_account lib srv email name r c)))"
proof -
  obtain existing w1 where q1: "sql (GetClientByEmail email) (cworld c) = (existing, w1)"
    by fastforce
  note s1 = sql_eq [OF q1]
  show ?thesis
  proof (cases existing)
    case (Inr client)
    then have "client \<in> set (clients (w_db w1))" "client_email client = email"
      using GetClientByEmail_found s1 by simp_all
    then have "keeps (w_db w1) (w_db (cworld (register_token lib srv email r (c\<lparr>cworld := w1\<rparr>))))"
      using register_token_keeps [of "c\<lparr>cworld := w1\<rparr>"] registration_backed by simp
    then show ?thesis using Inr q1 s1 by (simp add: register_account_def Let_def)
  next
    case (Inl err)
    obtain created w2 where q2: "sql (CreateClient email name) w1 = (created, w2)" by fastforce
    note s2 = sql_eq [OF q2]
    have k: "keeps (w_db (cworld c)) (w_db w2)" using s1 s2 keeps_methods(1) by simp
    show ?thesis
    proof (cases created)
      case (Inl e)
      with \<open>existing = Inl err\<close> q1 q2 s1 k show ?thesis by (simp add: register_account_def Let_def)
    next
      case (Inr u)
      then have "\<exists>cl \<in> set (clients (w_db w2)). client_email cl = email"
        using CreateClient_ok s2 by simp
      then have "keeps (w_db w2) (w_db (cworld (register_token lib srv email r (c\<lparr>cworld := w2\<rparr>))))"
        using register_token_keeps [of "c\<lparr>cworld := w2\<rparr>"] registration_backed by auto
      with k have "keeps (w_db (cworld c))
          (w_db (cworld (register_token lib srv email r (c\<lparr>cworld := w2\<rparr>))))"
        by (rule keeps_trans)
      with Inr \<open>existing = Inl err\<close> q1 q2 s1 show ?thesis by (simp add: register_account_def Let_def)
    qed
  qed
qed

lemma AuthRegister_keeps:
  "keeps (w_db (cworld c)) (w_db (cworld (AuthRegister lib srv r c)))"
  by (simp add: AuthRegister_def register_account_keeps split: option.split sum.split)

text \<open>The two steps of a verification, once the replies of the store are known.\<close>

lemma grant_key_eq:
  assumes "random GenerateAPIKey (cworld c) = Some (k, w1)"
    "sql (MarkClientVerified email (HashKey (sha256 lib) k) (KeyPrefix k)) w1 = (res, w2)"
  shows "grant_key lib ty email r c =
    (case res of
       Inl err \<Rightarrow> server_error ''Verification failed'' r (c\<lparr>cworld := w2\<rparr>)
     | Inr _ \<Rightarrow> send_json json_type 200 (verified_body ty k) (c\<lparr>cworld := w2\<rparr>))"
  using assms by (simp add: grant_key_def Let_def)

lemma grant_key_None: "random GenerateAPIKey (cworld c) = None \<Longrightarrow> grant_key lib ty email r c = panic c"
  by (simp add: grant_key_def)

lemma verify_token_eq:
  assumes "sql (ConsumeToken (HashKey (sha256 lib) tok) ty) (cworld c) = (res, w1)"
  shows "verify_token lib tok ty r c =
    (case res of
       Inl err \<Rightarrow> bad_request ''Token is invalid, expired, or already used'' r (c\<lparr>cworld := w1\<rparr>)
     | Inr t \<Rightarrow>
         if ty = TokenTypeReissue then
           (case sql (RevokeClient (token_email t)) w1 of
              (Inl err, w2) \<Rightarrow> server_error ''Verification failed'' r (c\<lparr>cworld := w2\<rparr>)
            | (Inr _, w2) \<Rightarrow> grant_key lib ty (token_email t) r (c\<lparr>cworld := w2\<rparr>))
         else grant_key lib ty (token_email t) r (c\<lparr>cworld := w1\<rparr>))"
  using assms by (simp add: verify_token_def Let_def split: prod.split sum.split)

lemma AuthVerify_cases:
  "AuthVerify lib srv r c =
     (if \<not> srv_store srv then no_database r c
      else case decode_verify (Json r) of
        None \<Rightarrow> bad_request ''Invalid request body'' r c
      | Some req \<Rightarrow>
          if ver_type req \<in> {TokenTypeRegistration, TokenTypeReissue}
          then verify_token lib (ver_token req) (ver_type req) r c
          else bad_request ''Invalid token type'' r c)"
  by (auto simp: AuthVerify_def Let_def split: option.split)

lemma grant_key_keeps:
  assumes "sha256_sized lib"
  shows "keeps (w_db (cworld c)) (w_db (cworld (grant_key lib ty email r c)))"
proof (cases "random GenerateAPIKey (cworld c)")
  case None
  then show ?thesis by (simp add: grant_key_None)
next
  case (Some kw)
  obtain k w1 where kw: "kw = (k, w1)" by (cases kw)
  obtain res w2 where q: "sql (MarkClientVerified email (HashKey (sha256 lib) k) (KeyPrefix k)) w1 = (res, w2)"
    by fastforce
  have "HashKey (sha256 lib) k \<noteq> []"
    using assms HashKey_not_Nil by (simp add: sha256_sized_def)
  then have "keeps (w_db (cworld c)) (w_db w2)"
    using sql_eq(2) [OF q] random_eq [of GenerateAPIKey "cworld c" k w1] Some kw keeps_methods(2)
    by simp
  then show ?thesis
    unfolding grant_key_eq [OF Some [unfolded kw] q] by (simp split: sum.split)
qed

lemma verify_token_keeps:
  assumes "sha256_sized lib"
  shows "keeps (w_db (cworld c)) (w_db (cworld (verify_token lib tok ty r c)))"
proof -
  obtain res w1 where q: "sql (ConsumeToken (HashKey (sha256 lib) tok) ty) (cworld c) = (res, w1)"
    by fastforce
  have k1: "keeps (w_db (cworld c)) (w_db w1)" using sql_eq(2) [OF q] keeps_methods(4) by simp
  have k2: "keeps (w_db (cworld c)) (w_db (cworld (grant_key lib ty email r (c\<lparr>cworld := w\<rparr>))))"
    if "keeps (w_db (cworld c)) (w_db w)" for w email
    using keeps_trans [OF that] grant_key_keeps [OF assms, of "c\<lparr>cworld := w\<rparr>"] by simp
  have k3: "keeps (w_db (cworld c)) (w_db w2)" if "sql (RevokeClient email) w1 = (x, w2)" for email x w2
    using keeps_trans [OF k1] sql_eq(2) [OF that] keeps_methods(3) by simp
  show ?thesis
  proof (cases res)
    case (Inl err)
    then show ?thesis using k1 by (simp add: verify_token_eq [OF q])
  next
    case (Inr t)
    obtain x w2 where q2: "sql (RevokeClient (token_email t)) w1 = (x, w2)" by fastforce
    show ?thesis
      using Inr q2 k2 [OF k1] k2 [OF k3 [OF q2]] k3 [OF q2]
      by (auto simp: verify_token_eq [OF q] split: sum.split)
  qed
qed

lemma AuthVerify_keeps:
  assumes "sha256_sized lib"
  shows "keeps (w_db (cworld c)) (w_db (cworld (AuthVerify lib srv r c)))"
  by (simp add: AuthVerify_cases verify_token_keeps [OF assms] split: option.split)

lemma AuthReissue_keeps:
  "keeps (w_db (cworld c)) (w_db (cworld (AuthReissue lib srv r c)))"
proof -
  have main: "keeps (w_db (cworld c)) (w_db w2)"
    if q: "sql (GetClientByEmail email) (cworld c) = (Inr cl, w1)" and v: "VerifiedAt cl \<noteq> None"
      and i: "issue_token lib email TokenTypeReissue w1 = Some (res, w2)" for email cl w1 w2 res
  proof -
    have "token_backed (w_db w1) email TokenTypeReissue"
      using sql_eq [OF q] GetClientByEmail_found [of email _ "w_db (cworld c)" cl] v
      by (auto simp: token_backed_def)
    then show ?thesis using keeps_issue [OF i] sql_eq [OF q] by simp
  qed
  have same: "w_db w1 = w_db (cworld c)"
    if "sql (GetClientByEmail email) (cworld c) = (res, w1)" for email res w1
    using sql_eq [OF that] by simp
  show ?thesis
    using main same
    by (auto simp: AuthReissue_def Let_def send_link_db split: option.split sum.split prod.split)
qed

end
