(* ===== verification/Auth_Outcome.thy ===== *)
theory Auth_Outcome
  imports Auth_Facts
begin

text \<open>
  The outcomes of the account flow: what a successful verification means, that a token works once,
  where the re-issue flow ends, that the key works afterwards, and what the responses reveal.
\<close>

section \<open>A successful verification\<close>

lemma unsent_statuses [simp]:
  "unsent c \<Longrightarrow> status (bad_request d r c) = Some 400"
  "unsent c \<Longrightarrow> status (server_error d r c) = Some 500"
  "unsent c \<Longrightarrow> status (no_database r c) = Some 503"
  "unsent c \<Longrightarrow> status (writeAccepted c) = Some 202"
  by (simp_all add: bad_request_def server_error_def no_database_def writeAccepted_def)

lemma grant_key_ok:
  assumes "unsent c" "status (grant_key lib ty email r c) = Some 200"
  obtains k w1 call where "random GenerateAPIKey (cworld c) = Some (k, w1)" "api_key_format k"
    "w_db (cworld (grant_key lib ty email r c)) =
       snd (MarkClientVerified email (HashKey (sha256 lib) k) (KeyPrefix k) call (w_db (cworld c)))"
    "fst (MarkClientVerified email (HashKey (sha256 lib) k) (KeyPrefix k) call (w_db (cworld c))) = Inr ()"
    "replied 200 (verified_body ty k) (grant_key lib ty email r c)"
proof (cases "random GenerateAPIKey (cworld c)")
  case None
  with assms show thesis by (simp add: grant_key_None unsent_def)
next
  case (Some kw)
  obtain k w1 where kw: "kw = (k, w1)" by (cases kw)
  obtain res w2 where q: "sql (MarkClientVerified email (HashKey (sha256 lib) k) (KeyPrefix k)) w1 = (res, w2)"
    by fastforce
  note eq = grant_key_eq [OF Some [unfolded kw] q, of ty r]
  note rnd = random_eq [OF Some [unfolded kw]]
  have k: "api_key_format k" using rnd GenerateAPIKey_format by blast
  have res: "res = Inr ()"
    using assms eq by (cases res) simp_all
  have "replied 200 (verified_body ty k) (grant_key lib ty email r c)"
    using assms(1) unfolding eq res by (simp add: send_json_replied)
  moreover have "w_db (cworld (grant_key lib ty email r c)) = w_db w2"
    unfolding eq res by simp
  ultimately show thesis
    using that [OF Some [unfolded kw] k, of "w_pg w1 (w_pgn w1)"] sql_eq(1,2) [OF q] rnd res by simp
qed

text \<open>
  Everything a 200 of the verify endpoint says: the request named a live token, the token is spent,
  the account of the token's address had no key, and it now holds the one that was sent.
\<close>

definition verified_by ::
  "'n auth_lib \<Rightarrow> VerifyRequest \<Rightarrow> database \<Rightarrow> Token \<Rightarrow> go_string \<Rightarrow> Client \<Rightarrow> database \<Rightarrow> bool" where
  "verified_by lib req db t k cl db' \<longleftrightarrow>
     t \<in> set (verification_tokens db) \<and> UsedAt t = None \<and>
     TokenHash t = HashKey (sha256 lib) (ver_token req) \<and> token_type t = ver_type req \<and>
     (\<exists>now < ExpiresAt t. t\<lparr>UsedAt := Some now\<rparr> \<in> set (verification_tokens db')) \<and>
     (\<exists>cl0 \<in> set (clients db). same_person cl0 cl \<and> VerifiedAt cl0 = None) \<and>
     cl \<in> set (clients db') \<and> client_email cl = token_email t \<and>
     VerifiedAt cl \<noteq> None \<and> APIKeyHash cl = HashKey (sha256 lib) k"

lemma MarkClientVerified_tokens [simp]:
  "verification_tokens (snd (MarkClientVerified email h p call db)) = verification_tokens db"
  by (auto simp: store_ops sql_defs split: pg_delivery.splits)

lemma RevokeClient_tokens [simp]:
  "verification_tokens (snd (RevokeClient email call db)) = verification_tokens db"
  by (auto simp: store_ops sql_defs split: pg_delivery.splits)

lemma ConsumeToken_clients [simp]: "clients (snd (ConsumeToken h ty call db)) = clients db"
  by (simp add: ConsumeToken_state split: pg_delivery.splits)

lemma RevokeClient_unverified:
  "c \<in> set (clients (snd (RevokeClient email call db))) \<Longrightarrow> VerifiedAt c = None \<Longrightarrow>
     \<exists>c0 \<in> set (clients db). same_person c0 c \<and> VerifiedAt c0 = None"
  by (force simp: store_ops sql_defs same_person_def split: pg_delivery.splits if_splits)

lemma AuthVerify_reaches:
  assumes "unsent c" "status (AuthVerify lib srv r c) \<noteq> Some 400" "srv_store srv"
  obtains req where "decode_verify (Json r) = Some req"
    "AuthVerify lib srv r c = verify_token lib (ver_token req) (ver_type req) r c"
  using assms by (auto simp: AuthVerify_cases split: option.splits if_splits)

lemma AuthVerify_store: "unsent c \<Longrightarrow> status (AuthVerify lib srv r c) = Some 200 \<Longrightarrow> srv_store srv"
  by (auto simp: AuthVerify_cases split: if_splits)

text \<open>Where a verification gets to the key: the token was consumed, and revocation went through.\<close>

lemma verify_token_grants:
  assumes c: "unsent c" and ok: "status (verify_token lib tok ty r c) = Some 200"
  obtains t now w2 where "t \<in> set (verification_tokens (w_db (cworld c)))"
    "consumable (HashKey (sha256 lib) tok) ty now t"
    "t\<lparr>UsedAt := Some now\<rparr> \<in> set (verification_tokens (w_db w2))"
    "verify_token lib tok ty r c = grant_key lib ty (token_email t) r (c\<lparr>cworld := w2\<rparr>)"
    "\<And>cl. cl \<in> set (clients (w_db w2)) \<Longrightarrow> VerifiedAt cl = None \<Longrightarrow>
      \<exists>cl0 \<in> set (clients (w_db (cworld c))). same_person cl0 cl \<and> VerifiedAt cl0 = None"
proof -
  let ?db = "w_db (cworld c)" and ?h = "HashKey (sha256 lib) tok"
  obtain res w1 where q1: "sql (ConsumeToken ?h ty) (cworld c) = (res, w1)" by fastforce
  note s1 = sql_eq(1,2) [OF q1] and eq = verify_token_eq [OF q1, of r]
  obtain t' where res: "res = Inr t'"
    using ok c unfolding eq by (cases res) simp_all
  obtain now t where t: "t \<in> set (verification_tokens ?db)" "consumable ?h ty now t"
      "t' = t\<lparr>UsedAt := Some now\<rparr>" "t' \<in> set (verification_tokens (w_db w1))"
    using ConsumeToken_ok [of ?h ty _ ?db t' "w_db w1"] s1 res by (metis prod.collapse)
  have cl1: "clients (w_db w1) = clients ?db" using s1 by simp
  show thesis
  proof (cases "ty = TokenTypeReissue")
    case False
    then have "verify_token lib tok ty r c = grant_key lib ty (token_email t) r (c\<lparr>cworld := w1\<rparr>)"
      using eq res t(3) by simp
    moreover have "\<exists>cl0 \<in> set (clients ?db). same_person cl0 cl \<and> VerifiedAt cl0 = None"
      if "cl \<in> set (clients (w_db w1))" "VerifiedAt cl = None" for cl
      using that cl1 same_person_refl by metis
    ultimately show thesis using that t by metis
  next
    case True
    obtain x w2 where q2: "sql (RevokeClient (token_email t)) w1 = (x, w2)" by fastforce
    note s2 = sql_eq(1,2) [OF q2]
    have eq2: "verify_token lib tok ty r c = (case x of
        Inl err \<Rightarrow> server_error ''Verification failed'' r (c\<lparr>cworld := w2\<rparr>)
      | Inr _ \<Rightarrow> grant_key lib ty (token_email t) r (c\<lparr>cworld := w2\<rparr>))"
      using eq res True t(3) q2 by (simp split: sum.split)
    then obtain u where x: "x = Inr u" using ok c by (cases x) simp_all
    have "\<exists>cl0 \<in> set (clients ?db). same_person cl0 cl \<and> VerifiedAt cl0 = None"
      if "cl \<in> set (clients (w_db w2))" "VerifiedAt cl = None" for cl
      using RevokeClient_unverified [of cl "token_email t" _ "w_db w1"] that s2 cl1 by simp
    moreover have "t\<lparr>UsedAt := Some now\<rparr> \<in> set (verification_tokens (w_db w2))"
      using t(3,4) s2 by simp
    ultimately show thesis using that t(1,2) eq2 x by simp
  qed
qed

lemma AuthVerify_ok:
  assumes c: "unsent c" and ok: "status (AuthVerify lib srv r c) = Some 200"
  obtains req t k cl where "decode_verify (Json r) = Some req"
    "replied 200 (verified_body (ver_type req) k) (AuthVerify lib srv r c)" "api_key_format k"
    "verified_by lib req (w_db (cworld c)) t k cl (w_db (cworld (AuthVerify lib srv r c)))"
proof -
  have "status (AuthVerify lib srv r c) \<noteq> Some 400" using ok by simp
  then obtain req where req: "decode_verify (Json r) = Some req"
      and eq: "AuthVerify lib srv r c = verify_token lib (ver_token req) (ver_type req) r c"
    using AuthVerify_reaches [OF c] AuthVerify_store [OF c ok] by metis
  have ok': "status (verify_token lib (ver_token req) (ver_type req) r c) = Some 200"
    using ok eq by simp
  let ?db = "w_db (cworld c)" and ?ty = "ver_type req"
  let ?db' = "w_db (cworld (AuthVerify lib srv r c))"
  obtain t now w2 where t: "t \<in> set (verification_tokens ?db)"
      "consumable (HashKey (sha256 lib) (ver_token req)) ?ty now t"
      "t\<lparr>UsedAt := Some now\<rparr> \<in> set (verification_tokens (w_db w2))"
      "verify_token lib (ver_token req) ?ty r c = grant_key lib ?ty (token_email t) r (c\<lparr>cworld := w2\<rparr>)"
    and unv: "\<And>cl. cl \<in> set (clients (w_db w2)) \<Longrightarrow> VerifiedAt cl = None \<Longrightarrow>
      \<exists>cl0 \<in> set (clients ?db). same_person cl0 cl \<and> VerifiedAt cl0 = None"
    using verify_token_grants [OF c ok'] by metis
  have "unsent (c\<lparr>cworld := w2\<rparr>)" using c by simp
  moreover have "status (grant_key lib ?ty (token_email t) r (c\<lparr>cworld := w2\<rparr>)) = Some 200"
    using ok' t(4) by simp
  ultimately obtain k w1 call where k: "api_key_format k"
      "?db' = snd (MarkClientVerified (token_email t) (HashKey (sha256 lib) k) (KeyPrefix k) call (w_db w2))"
      "fst (MarkClientVerified (token_email t) (HashKey (sha256 lib) k) (KeyPrefix k) call (w_db w2)) = Inr ()"
      "replied 200 (verified_body ?ty k) (AuthVerify lib srv r c)"
    using grant_key_ok [of "c\<lparr>cworld := w2\<rparr>" lib ?ty "token_email t" r] eq t(4) by simp metis
  obtain cl1 where cl1: "cl1 \<in> set (clients (w_db w2))" "client_email cl1 = token_email t"
      "VerifiedAt cl1 = None"
      "cl1\<lparr>VerifiedAt := Some (timestamptz (pg_now call)), APIKeyHash := HashKey (sha256 lib) k,
        APIKeyPrefix := KeyPrefix k\<rparr> \<in> set (clients ?db')"
    using MarkClientVerified_ok [of "token_email t"] k(2,3) by (metis prod.collapse)
  obtain cl0 where cl0: "cl0 \<in> set (clients ?db)" "same_person cl0 cl1" "VerifiedAt cl0 = None"
    using unv [OF cl1(1,3)] by blast
  define cl where "cl = cl1\<lparr>VerifiedAt := Some (timestamptz (pg_now call)),
    APIKeyHash := HashKey (sha256 lib) k, APIKeyPrefix := KeyPrefix k\<rparr>"
  have "same_person cl0 cl" using cl0(2) by (simp add: same_person_def cl_def)
  moreover have "t\<lparr>UsedAt := Some now\<rparr> \<in> set (verification_tokens ?db')"
    using t(3) k(2) by simp
  ultimately have "verified_by lib req ?db t k cl ?db'"
    using t(1,2) cl0(1,3) cl1(2,4) by (auto simp: verified_by_def consumable_def cl_def)
  then show thesis using that req k by blast
qed

section \<open>The re-issue flow\<close>

text \<open>
  The address of a re-issue token belongs to a verified account, and only an unverified account can
  be given a key: no re-issue token is ever answered with a new key.
\<close>

lemma reissue_never_ok:
  assumes "unsent c" "auth_inv (w_db (cworld c))" "decode_verify (Json r) = Some req"
    "ver_type req = TokenTypeReissue"
  shows "status (AuthVerify lib srv r c) \<noteq> Some 200"
proof
  assume ok: "status (AuthVerify lib srv r c) = Some 200"
  obtain req' t k cl where v: "decode_verify (Json r) = Some req'"
      "verified_by lib req' (w_db (cworld c)) t k cl (w_db (cworld (AuthVerify lib srv r c)))"
    using AuthVerify_ok [OF assms(1) ok] by metis
  then have "token_type t = TokenTypeReissue" using assms by (simp add: verified_by_def)
  moreover have "t \<in> set (verification_tokens (w_db (cworld c)))" using v by (simp add: verified_by_def)
  ultimately obtain c1 where c1: "c1 \<in> set (clients (w_db (cworld c)))"
      "client_email c1 = token_email t" "VerifiedAt c1 \<noteq> None"
    using assms(2) by (auto simp: auth_inv_def tokens_backed_def token_backed_def)
  obtain c0 where c0: "c0 \<in> set (clients (w_db (cworld c)))" "client_email c0 = token_email t"
      "VerifiedAt c0 = None"
    using v by (auto simp: verified_by_def same_person_def)
  have "c0 = c1"
    using map_if_distinct [of client_email "clients (w_db (cworld c))" c0 c1] assms(2) c0 c1
    by (simp add: auth_inv_def db_ok_def)
  with c0 c1 show False by simp
qed

text \<open>The store answers the next \<open>n\<close> calls.\<close>

definition answered :: "nat \<Rightarrow> 's world \<Rightarrow> bool" where
  "answered n w \<longleftrightarrow> (\<forall>i < n. delivery_of (w_pg w (w_pgn w + i)) = Answered)"

text \<open>
  And what it does instead: the account's key is revoked, its token spent, and the answer is an
  internal error.
\<close>

lemma MarkClientVerified_verified:
  assumes "distinct (map client_email (clients db))" "cl \<in> set (clients db)"
    "client_email cl = email" "VerifiedAt cl \<noteq> None"
  shows "\<exists>err. fst (MarkClientVerified email h p call db) = Inl err"
    and "snd (MarkClientVerified email h p call db) = db"
proof -
  have none: "\<not> (client_email c = email \<and> VerifiedAt c = None)" if "c \<in> set (clients db)" for c
    using map_if_distinct [OF assms(1) that assms(2)] assms(3,4) by auto
  have "filter (\<lambda>c. client_email c = email \<and> VerifiedAt c = None) (clients db) = []"
    using none by (simp add: filter_empty_conv)
  then show "\<exists>err. fst (MarkClientVerified email h p call db) = Inl err"
    by (simp add: MarkClientVerified_def sql_defs split: pg_delivery.split)
  have "map (\<lambda>c. if client_email c = email \<and> VerifiedAt c = None
      then c\<lparr>VerifiedAt := Some (timestamptz (pg_now call)), APIKeyHash := h, APIKeyPrefix := p\<rparr>
      else c) (clients db) = clients db"
    using none by (intro map_idI) (simp only: if_False)
  then show "snd (MarkClientVerified email h p call db) = db"
    by (simp add: MarkClientVerified_def sql_defs split: pg_delivery.split)
qed

lemma find_consumable:
  assumes "t \<in> set ts" "consumable h ty now t"
    "\<And>t'. t' \<in> set ts \<Longrightarrow> TokenHash t' = h \<Longrightarrow> t' = t"
  shows "find (consumable h ty now) ts = Some t"
proof (cases "find (consumable h ty now) ts")
  case None
  then show ?thesis using assms by (auto simp: find_None_iff)
next
  case (Some t')
  then have "t' \<in> set ts" "consumable h ty now t'" by (auto simp: find_Some_iff)
  then have "t' = t" using assms(3) by (simp add: consumable_def)
  with Some show ?thesis by simp
qed

lemma RevokeClient_active:
  assumes "cl \<in> set (clients db)" "RevokedAt cl = None" "delivery_of call = Answered"
  shows "fst (RevokeClient (client_email cl) call db) = Inr ()"
    and "cl\<lparr>RevokedAt := Some (timestamptz (pg_now call))\<rparr>
      \<in> set (clients (snd (RevokeClient (client_email cl) call db)))"
  using assms by (auto simp: RevokeClient_def sql_defs filter_empty_conv image_iff)

lemma grant_key_verified:
  assumes "distinct (map client_email (clients (w_db (cworld c))))"
    "cl \<in> set (clients (w_db (cworld c)))" "client_email cl = email" "VerifiedAt cl \<noteq> None"
  shows "w_db (cworld (grant_key lib ty email r c)) = w_db (cworld c)"
proof (cases "random GenerateAPIKey (cworld c)")
  case None
  then show ?thesis by (simp add: grant_key_None)
next
  case (Some kw)
  obtain k w1 where kw: "kw = (k, w1)" by (cases kw)
  obtain res w2 where q: "sql (MarkClientVerified email (HashKey (sha256 lib) k) (KeyPrefix k)) w1 = (res, w2)"
    by fastforce
  have "w_db w2 = w_db (cworld c)"
    using sql_eq(2) [OF q] random_eq [OF Some [unfolded kw]] MarkClientVerified_verified(2) [OF assms]
    by simp
  then show ?thesis unfolding grant_key_eq [OF Some [unfolded kw] q] by (simp split: sum.split)
qed

lemma sql_next: "sql m w = (res, w') \<Longrightarrow> w_pg w' (w_pgn w' + i) = w_pg w (w_pgn w + Suc i)"
  by (auto simp: sql_def Let_def case_prod_beta)

lemma reissue_revokes:
  assumes c: "unsent c" and inv: "auth_inv (w_db (cworld c))"
    and tok: "t \<in> set (verification_tokens (w_db (cworld c)))"
      "consumable (HashKey (sha256 lib) tk) TokenTypeReissue
        (timestamptz (pg_now (w_pg (cworld c) (w_pgn (cworld c))))) t"
    and uniq: "\<And>t'. t' \<in> set (verification_tokens (w_db (cworld c))) \<Longrightarrow>
      TokenHash t' = HashKey (sha256 lib) tk \<Longrightarrow> t' = t"
    and cl: "cl \<in> set (clients (w_db (cworld c)))" "client_email cl = token_email t"
      "account cl = Active h"
    and ans: "answered 2 (cworld c)"
  shows "\<exists>cl' \<in> set (clients (w_db (cworld (verify_token lib tk TokenTypeReissue r c)))).
    same_person cl cl' \<and> account cl' = Revoked (Some h)"
proof -
  let ?db = "w_db (cworld c)" and ?h = "HashKey (sha256 lib) tk"
    and ?call = "w_pg (cworld c) (w_pgn (cworld c))"
    and ?call2 = "w_pg (cworld c) (Suc (w_pgn (cworld c)))"
  have a: "delivery_of ?call = Answered" "delivery_of ?call2 = Answered"
    using ans [unfolded answered_def, rule_format, of 0] ans [unfolded answered_def, rule_format, of 1]
    by simp_all
  obtain res w1 where q1: "sql (ConsumeToken ?h TokenTypeReissue) (cworld c) = (res, w1)" by fastforce
  note s1 = sql_eq(1,2) [OF q1]
  have w1: "w_pg w1 (w_pgn w1) = ?call2" using sql_next [OF q1, of 0] by simp
  have res: "res = Inr (t\<lparr>UsedAt := Some (timestamptz (pg_now ?call))\<rparr>)"
    using s1(1) a(1) find_consumable [OF tok uniq] by (simp add: ConsumeToken_def sql_defs)
  have cl1: "cl \<in> set (clients (w_db w1))" using s1 cl(1) by simp
  have act: "RevokedAt cl = None" "VerifiedAt cl \<noteq> None" "APIKeyHash cl = h"
    using cl(3) by (auto simp: account_def Let_def split: if_splits)
  obtain x w2 where q2: "sql (RevokeClient (token_email t)) w1 = (x, w2)" by fastforce
  note s2 = sql_eq(1,2) [OF q2, unfolded w1 cl(2) [symmetric]]
  note rev = RevokeClient_active [OF cl1 act(1) a(2)]
  have x: "x = Inr ()" using s2(1) rev(1) by simp
  have eq: "verify_token lib tk TokenTypeReissue r c =
      grant_key lib TokenTypeReissue (token_email t) r (c\<lparr>cworld := w2\<rparr>)"
    using verify_token_eq [OF q1, of r] res q2 x by simp
  define cl' where "cl' = cl\<lparr>RevokedAt := Some (timestamptz (pg_now ?call2))\<rparr>"
  have cl': "cl' \<in> set (clients (w_db w2))" using rev(2) s2(2) by (simp add: cl'_def)
  have "db_change (w_db w1) (w_db w2)" using s2(2) RevokeClient_change by simp
  moreover have "db_change ?db (w_db w1)" using s1(2) ConsumeToken_change by simp
  ultimately have "db_ok (w_db w2)" using inv db_ok_change unfolding auth_inv_def by blast
  then have "distinct (map client_email (clients (w_db w2)))" by (simp add: db_ok_def)
  then have "w_db (cworld (grant_key lib TokenTypeReissue (token_email t) r (c\<lparr>cworld := w2\<rparr>))) = w_db w2"
    using grant_key_verified [of "c\<lparr>cworld := w2\<rparr>" cl'] cl' cl(2) act(2) by (simp add: cl'_def)
  moreover have "same_person cl cl'" "account cl' = Revoked (Some h)"
    using act by (simp_all add: cl'_def same_person_def account_def Let_def)
  ultimately show ?thesis using cl' eq by auto
qed

section \<open>A token works once\<close>

text \<open>A spent token is spent: sending the same request again is answered 400.\<close>

lemma ConsumeToken_spends:
  assumes "fst (ConsumeToken h ty call db) = Inr t"
  shows "\<forall>t' \<in> set (verification_tokens (snd (ConsumeToken h ty call db))).
    TokenHash t' = h \<and> token_type t' = ty \<longrightarrow>
      UsedAt t' \<noteq> None \<or> ExpiresAt t' \<le> timestamptz (pg_now call)"
proof -
  let ?now = "timestamptz (pg_now call)"
  have "delivery_of call = Answered"
    using assms by (cases "delivery_of call") (simp_all add: ConsumeToken_def sql_defs)
  then have tokens: "verification_tokens (snd (ConsumeToken h ty call db)) =
      map (\<lambda>t. if consumable h ty ?now t then t\<lparr>UsedAt := Some ?now\<rparr> else t) (verification_tokens db)"
    by (simp add: ConsumeToken_state)
  show ?thesis
  proof
    fix t'
    assume "t' \<in> set (verification_tokens (snd (ConsumeToken h ty call db)))"
    then obtain t0 where t': "t' = (if consumable h ty ?now t0 then t0\<lparr>UsedAt := Some ?now\<rparr> else t0)"
      unfolding tokens set_map by blast
    show "TokenHash t' = h \<and> token_type t' = ty \<longrightarrow> UsedAt t' \<noteq> None \<or> ExpiresAt t' \<le> ?now"
    proof (cases "consumable h ty ?now t0")
      case True
      with t' show ?thesis by simp
    next
      case False
      with t' show ?thesis by (simp add: consumable_def not_less)
    qed
  qed
qed

definition spent :: "go_string \<Rightarrow> TokenType \<Rightarrow> time \<Rightarrow> database \<Rightarrow> bool" where
  "spent h ty now db \<longleftrightarrow> (\<forall>t \<in> set (verification_tokens db).
     TokenHash t = h \<and> token_type t = ty \<longrightarrow> UsedAt t \<noteq> None \<or> ExpiresAt t \<le> now)"

lemma ConsumeToken_spent:
  assumes "spent h ty now db" "now \<le> timestamptz (pg_now call)"
  shows "\<exists>err. fst (ConsumeToken h ty call db) = Inl err"
proof -
  have "find (consumable h ty (timestamptz (pg_now call))) (verification_tokens db) = None"
    using assms by (fastforce simp: find_None_iff consumable_def spent_def)
  then show ?thesis by (simp add: ConsumeToken_def sql_defs split: pg_delivery.split)
qed

lemma grant_key_tokens:
  "verification_tokens (w_db (cworld (grant_key lib ty email r c))) =
     verification_tokens (w_db (cworld c))"
proof (cases "random GenerateAPIKey (cworld c)")
  case None
  then show ?thesis by (simp add: grant_key_None)
next
  case (Some kw)
  obtain k w1 where kw: "kw = (k, w1)" by (cases kw)
  obtain res w2 where q: "sql (MarkClientVerified email (HashKey (sha256 lib) k) (KeyPrefix k)) w1 = (res, w2)"
    by fastforce
  have "verification_tokens (w_db w2) = verification_tokens (w_db (cworld c))"
    using sql_eq(2) [OF q] random_eq [OF Some [unfolded kw]] by simp
  then show ?thesis unfolding grant_key_eq [OF Some [unfolded kw] q] by (simp split: sum.split)
qed

lemma verify_token_spends:
  assumes c: "unsent c" and st: "status (verify_token lib tok ty r c) \<noteq> Some 400"
  shows "spent (HashKey (sha256 lib) tok) ty
    (timestamptz (pg_now (w_pg (cworld c) (w_pgn (cworld c)))))
    (w_db (cworld (verify_token lib tok ty r c)))"
proof -
  let ?h = "HashKey (sha256 lib) tok" and ?call = "w_pg (cworld c) (w_pgn (cworld c))"
  obtain res w1 where q1: "sql (ConsumeToken ?h ty) (cworld c) = (res, w1)" by fastforce
  note s1 = sql_eq(1,2) [OF q1] and eq = verify_token_eq [OF q1, of r]
  obtain t where res: "res = Inr t" using st c unfolding eq by (cases res) simp_all
  have sp: "spent ?h ty (timestamptz (pg_now ?call)) (w_db w1)"
    using ConsumeToken_spends [of ?h ty ?call "w_db (cworld c)" t] s1 res
    unfolding spent_def by simp
  obtain x w2 where q2: "sql (RevokeClient (token_email t)) w1 = (x, w2)" by fastforce
  have "verification_tokens (w_db w2) = verification_tokens (w_db w1)"
    using sql_eq(2) [OF q2] by simp
  then have "verification_tokens (w_db (cworld (verify_token lib tok ty r c))) = verification_tokens (w_db w1)"
    using q2 by (simp add: eq res grant_key_tokens split: sum.split)
  with sp show ?thesis by (simp add: spent_def)
qed

lemma verify_token_spent:
  assumes "unsent c" "spent (HashKey (sha256 lib) tok) ty now (w_db (cworld c))"
    "now \<le> timestamptz (pg_now (w_pg (cworld c) (w_pgn (cworld c))))"
  shows "status (verify_token lib tok ty r c) = Some 400"
proof -
  obtain res w1 where q1: "sql (ConsumeToken (HashKey (sha256 lib) tok) ty) (cworld c) = (res, w1)"
    by fastforce
  have "\<exists>err. res = Inl err"
    unfolding sql_eq(1) [OF q1] by (rule ConsumeToken_spent [OF assms(2,3)])
  then obtain err where "res = Inl err" ..
  then show ?thesis using assms(1) by (simp add: verify_token_eq [OF q1])
qed

section \<open>The issued key\<close>

lemma lower_letters:
  "lower_char (CHR ''B'') = CHR ''b''" "lower_char (CHR ''e'') = CHR ''e''"
  "lower_char (CHR ''a'') = CHR ''a''" "lower_char (CHR ''r'') = CHR ''r''"
  "lower_char (CHR '' '') = CHR '' ''"
  by code_simp+

lemma Auth_accepts:
  assumes "Headers r ''Authorization'' = ''Bearer '' @ k"
    and cl: "cl \<in> set (clients (w_db (cworld c)))" "APIKeyHash cl = HashKey sha k"
      "VerifiedAt cl \<noteq> None" "RevokedAt cl = None"
    and uniq: "\<forall>cl' \<in> set (clients (w_db (cworld c))). APIKeyHash cl' = APIKeyHash cl \<longrightarrow> cl' = cl"
    and ans: "answered 1 (cworld c)"
  shows "hands_on (Auth sha True) r c (WithClient r (ClientInfoFromStore cl))
    (c\<lparr>cworld := snd (lookup sha k (cworld c))\<rparr>)"
proof -
  have key: "bearer_key r = Some k"
    using assms(1)
    by (simp add: bearer_key_def bearer_def has_prefix_def to_lower_def lower_letters)
  have "find (\<lambda>x. APIKeyHash x = HashKey sha k) (clients (w_db (cworld c))) = Some cl"
  proof (cases "find (\<lambda>x. APIKeyHash x = HashKey sha k) (clients (w_db (cworld c)))")
    case None
    then show ?thesis using cl by (auto simp: find_None_iff)
  next
    case (Some cl')
    then have "cl' \<in> set (clients (w_db (cworld c)))" "APIKeyHash cl' = HashKey sha k"
      by (auto simp: find_Some_iff)
    with uniq cl Some show ?thesis by simp
  qed
  moreover have "delivery_of (w_pg (cworld c) (w_pgn (cworld c))) = Answered"
    using ans [unfolded answered_def, rule_format, of 0] by simp
  ultimately have "fst (lookup sha k (cworld c)) = Inr cl"
    by (simp add: lookup_def sql_fst sha256sum_def HashKey_def store_ops sql_defs)
  moreover have "Headers r ''Authorization'' \<noteq> ''''" using assms(1) by simp
  ultimately show ?thesis
    using key cl(3,4) by (simp add: hands_on_def Auth_cases case_prod_beta usable_def)
qed

section \<open>Registration\<close>

lemma register_new:
  assumes c: "unsent c" and ans: "answered 3 (cworld c)" and rng: "no_faults (w_rng (cworld c))"
    and new: "email \<notin> client_email ` set (clients (w_db (cworld c)))"
      "pg_uuid (w_pg (cworld c) (Suc (w_pgn (cworld c)))) \<notin> client_id ` set (clients (w_db (cworld c)))"
      "pg_uuid (w_pg (cworld c) (w_pgn (cworld c) + 2))
         \<notin> token_id ` set (verification_tokens (w_db (cworld c)))"
  obtains tok cl t where "token_format tok"
    "w_db (cworld (register_account lib srv email name r c)) = (w_db (cworld c))
       \<lparr>clients := clients (w_db (cworld c)) @ [cl],
        verification_tokens := verification_tokens (w_db (cworld c)) @ [t]\<rparr>"
    "client_email cl = email" "DisplayName cl = name" "account cl = Pending"
    "token_email t = email" "token_type t = TokenTypeRegistration"
    "TokenHash t = HashKey (sha256 lib) tok" "UsedAt t = None"
    "ExpiresAt t = timestamptz (w_clock (cworld c) (w_clockn (cworld c)) + 24 * Hour)"
    "status (register_account lib srv email name r c) = Some 202"
    "\<not> panicked (register_account lib srv email name r c)"
proof -
  let ?w = "cworld c" and ?db = "w_db (cworld c)"
  let ?call = "\<lambda>i. w_pg ?w (w_pgn ?w + i)"
  have a: "delivery_of (?call 0) = Answered" "delivery_of (?call 1) = Answered"
    "delivery_of (?call 2) = Answered"
    using ans [unfolded answered_def, rule_format, of 0] ans [unfolded answered_def, rule_format, of 1]
      ans [unfolded answered_def, rule_format, of 2] by simp_all
  obtain tok where tok: "GenerateToken (w_rng ?w) = Some (tok, advance 32 (w_rng ?w))" "token_format tok"
    using rng GenerateToken_format
    by (auto simp: GenerateToken_def crypto_Read_def no_faults_def)
  define cl where "cl = \<lparr>client_id = pg_uuid (?call 1), client_email = email, DisplayName = name,
    APIKeyHash = '''', APIKeyPrefix = '''', RateLimitRPM = 600,
    CreatedAt = timestamptz (pg_now (?call 1)), VerifiedAt = None, RevokedAt = None\<rparr>"
  define t where "t = \<lparr>token_id = pg_uuid (?call 2), token_email = email,
    TokenHash = HashKey (sha256 lib) tok, token_type = TokenTypeRegistration,
    token_created = timestamptz (pg_now (?call 2)),
    ExpiresAt = timestamptz (w_clock ?w (w_clockn ?w) + 24 * Hour), UsedAt = None\<rparr>"
  define w1 where "w1 = ?w\<lparr>w_pgn := Suc (w_pgn ?w)\<rparr>"
  define w2 where "w2 = w1\<lparr>w_db := ?db\<lparr>clients := clients ?db @ [cl]\<rparr>, w_pgn := w_pgn ?w + 2\<rparr>"
  define w3 where "w3 = w2\<lparr>w_rng := advance 32 (w_rng ?w), w_clockn := Suc (w_clockn ?w),
    w_db := ?db\<lparr>clients := clients ?db @ [cl], verification_tokens := verification_tokens ?db @ [t]\<rparr>,
    w_pgn := w_pgn ?w + 3\<rparr>"
  have "find (\<lambda>c. client_email c = email) (clients ?db) = None"
    using new(1) by (auto simp: find_None_iff)
  then have q1: "sql (GetClientByEmail email) ?w = (Inl ErrNotFound, w1)"
    using a(1) by (simp add: sql_def GetClientByEmail_def scanClient_def sql_defs w1_def)
  have q2: "sql (CreateClient email name) w1 = (Inr (), w2)"
    using a(2) new(1,2)
    by (simp add: sql_def CreateClient_def sql_defs w1_def w2_def cl_def)
  have q3: "issue_token lib email TokenTypeRegistration w2 = Some (Inr tok, w3)"
    using a(3) new(3) tok(1)
    by (simp add: issue_token_def random_def time_Now_def sql_def CreateToken_def sql_defs Let_def
        w1_def w2_def w3_def t_def numeral_3_eq_3)
  have eq: "register_account lib srv email name r c = writeAccepted (c\<lparr>cworld :=
      send_link lib srv SendVerification email (verify_url (srv_config srv) tok ''registration'') w3\<rparr>)"
    by (simp add: register_account_def q1 q2 q3 register_token_def Let_def)
  have "account cl = Pending" by (simp add: cl_def account_def)
  moreover have "w_db (cworld (register_account lib srv email name r c)) = ?db
       \<lparr>clients := clients ?db @ [cl], verification_tokens := verification_tokens ?db @ [t]\<rparr>"
    by (simp add: eq send_link_db w3_def)
  moreover have "status (register_account lib srv email name r c) = Some 202"
    "\<not> panicked (register_account lib srv email name r c)"
    using c by (simp_all add: eq writeAccepted_def unsent_def)
  ultimately show thesis using that [OF tok(2)] by (simp add: cl_def t_def)
qed

section \<open>What the responses reveal\<close>

text \<open>The part of a connection a client sees.\<close>

definition seen :: "('s, 'n) conn \<Rightarrow> int option \<times> (go_string \<times> go_string) list \<times> 'n payload list" where
  "seen c = (status c, header c, body c)"

lemma seen_send_json:
  "seen c = seen c' \<Longrightarrow> seen (send_json ct code j c) = seen (send_json ct code j c')"
  by (simp add: seen_def send_json_def set_header_def)

lemma seen_world [simp]: "seen (c\<lparr>cworld := w\<rparr>) = seen c"
  by (simp add: seen_def)

lemma seen_accepted: "seen c = seen c' \<Longrightarrow> seen (writeAccepted c) = seen (writeAccepted c')"
  unfolding writeAccepted_def by (rule seen_send_json)

lemma seen_accepted_world [simp]: "seen (writeAccepted (c\<lparr>cworld := w\<rparr>)) = seen (writeAccepted c)"
  by (rule seen_accepted) simp

lemma seen_error:
  "seen c = seen c' \<Longrightarrow> seen (WriteError st code d n r c) = seen (WriteError st code d n r c')"
  unfolding WriteError_def by (rule seen_send_json)

lemmas seen_errors = seen_error [of _ _ 400] seen_error [of _ _ 503]

lemma AuthReissue_seen:
  assumes "\<not> panicked (AuthReissue lib srv r c)"
  shows "seen (AuthReissue lib srv r c) =
    seen (if \<not> srv_store srv then no_database r c
          else case decode_reissue lib (Json r) of
            None \<Rightarrow> bad_request ''Invalid request body'' r c
          | Some raw \<Rightarrow> (case validateEmail lib raw of
              Inl err \<Rightarrow> bad_request ''Invalid email address'' r c
            | Inr a \<Rightarrow> writeAccepted c))"
  using assms
  by (auto simp: AuthReissue_def Let_def case_prod_beta intro!: seen_accepted
      split: option.splits sum.splits if_splits)

lemma register_token_seen:
  assumes c: "unsent c" and np: "\<not> panicked (register_token lib srv a r c)"
    and st: "status (register_token lib srv a r c) \<noteq> Some 500"
  shows "seen (register_token lib srv a r c) = seen (writeAccepted c)"
proof (cases "issue_token lib a TokenTypeRegistration (cworld c)")
  case None
  with np show ?thesis by (simp add: register_token_def)
next
  case (Some xw)
  obtain x w where xw: "xw = (x, w)" by (cases xw)
  show ?thesis
  proof (cases x)
    case (Inl err)
    with Some xw st c show ?thesis by (simp add: register_token_def)
  next
    case (Inr tok)
    with Some xw show ?thesis
      by (simp add: register_token_def)
  qed
qed

lemma register_account_seen:
  assumes c: "unsent c" and np: "\<not> panicked (register_account lib srv a name r c)"
    and st: "status (register_account lib srv a name r c) \<noteq> Some 500"
  shows "seen (register_account lib srv a name r c) = seen (writeAccepted c)"
proof -
  have tok: "seen (register_token lib srv a r (c\<lparr>cworld := w\<rparr>)) = seen (writeAccepted c)"
    if "register_account lib srv a name r c = register_token lib srv a r (c\<lparr>cworld := w\<rparr>)" for w
    using register_token_seen [of "c\<lparr>cworld := w\<rparr>" lib srv a r] c np st that by simp
  obtain existing w1 where q1: "sql (GetClientByEmail a) (cworld c) = (existing, w1)" by fastforce
  obtain created w2 where q2: "sql (CreateClient a name) w1 = (created, w2)" by fastforce
  note eq = register_account_def [of lib srv a name r c, unfolded q1 Let_def, simplified]
  show ?thesis
  proof (cases existing)
    case (Inr client)
    then show ?thesis
      using eq tok [of w1] by (cases "VerifiedAt client \<noteq> None \<and> RevokedAt client = None") auto
  next
    case (Inl err)
    show ?thesis
    proof (cases "err = ErrNotFound")
      case False
      then show ?thesis using eq Inl st c by simp
    next
      case True
      then show ?thesis
        using eq Inl q2 st c tok [of w2] by (cases created) simp_all
    qed
  qed
qed

lemma AuthRegister_seen:
  assumes "unsent c" "\<not> panicked (AuthRegister lib srv r c)"
    "status (AuthRegister lib srv r c) \<noteq> Some 500"
  shows "seen (AuthRegister lib srv r c) =
    seen (if \<not> srv_store srv then no_database r c
          else case decode_register lib (Json r) of
            None \<Rightarrow> bad_request ''Invalid request body'' r c
          | Some req \<Rightarrow> (case validateEmail lib (reg_email req) of
              Inl err \<Rightarrow> bad_request ''Invalid email address'' r c
            | Inr a \<Rightarrow>
                if length (reg_name req) = 0 \<or> length (reg_name req) > 100
                then bad_request ''display_name must be 1-100 characters'' r c
                else writeAccepted c))"
  using assms register_account_seen [OF assms(1)]
  by (auto simp: AuthRegister_def split: option.splits sum.splits if_splits)

end
