(* ===== verification/Service_Numbers.thy ===== *)
theory Service_Numbers
  imports Service_Errors
begin

text \<open>
  The number generators: \<open>service/coin.go\<close>, \<open>service/dice.go\<close> and the integer half of
  \<open>service/number.go\<close>.  Go's \<open>int\<close> is 64 bits wide, so the arithmetic on the results is written
  with \<open>wrap64\<close>; that the wrapping never shows is part of what is proved.
\<close>

section \<open>Coin\<close>

definition FlipCoin :: "rng \<Rightarrow> (go_string \<times> rng) option" where
  "FlipCoin r = do {
     (n, r') \<leftarrow> rand_IntN 2 r;
     Some (if n = 0 then ''heads'' else ''tails'', r')
   }"

lemma FlipCoin_total: "\<exists>c r'. FlipCoin r = Some (c, r') \<and> c \<in> {''heads'', ''tails''}"
  by (simp add: FlipCoin_def rand_IntN_def)

section \<open>Dice\<close>

definition validSides :: "int list" where
  "validSides = [4, 6, 8, 10, 12, 20, 100]"

definition roll_die :: "int \<Rightarrow> int gen" where
  "roll_die sides i r = do {
     (n, r') \<leftarrow> rand_IntN sides r;
     Some (wrap64 (n + 1), r')
   }"

definition RollDice :: "int \<Rightarrow> int \<Rightarrow> int list service" where
  "RollDice sides count =
     (if sides \<notin> set validSides then
        fails (Errorf ErrInvalidSides
          [Lit ''sides must be one of 4,6,8,10,12,20,100; got '', D sides])
      else if count < 1 \<or> count > 100 then fails (count_error 100 count)
      else returns (fill count (roll_die sides)))"

interpretation die: generator "\<lambda>sides. 0 < sides \<and> int64 sides" roll_die
  "\<lambda>sides i n. 1 \<le> n \<and> n \<le> sides"
proof unfold_locales
  fix sides i r
  assume ok: "0 < sides \<and> int64 sides"
  obtain n r' where n: "rand_IntN sides r = Some (n, r')" "0 \<le> n" "n < sides"
    using rand_IntN_total [of sides r] ok by blast
  moreover have "wrap64 (n + 1) = n + 1"
    using n ok by (intro wrap64_id) (simp add: int64_def)
  ultimately show "\<exists>x r'. roll_die sides i r = Some (x, r') \<and> 1 \<le> x \<and> x \<le> sides"
    by (simp add: roll_die_def)
qed

lemma validSides_ok: "sides \<in> set validSides \<Longrightarrow> 0 < sides \<and> int64 sides"
  by (auto simp: validSides_def int64_def)

text \<open>What a successful roll returns.\<close>

definition dice_spec :: "int \<Rightarrow> int \<Rightarrow> int list \<Rightarrow> bool" where
  "dice_spec sides count rolls \<longleftrightarrow>
     int (length rolls) = count \<and> list_all (\<lambda>n. 1 \<le> n \<and> n \<le> sides) rolls"

lemma RollDice_outcome:
  "\<exists>res r'. RollDice sides count r = Some (res, r') \<and>
    (case res of
       Inl e \<Rightarrow>
         (sides \<notin> set validSides \<and> error_is e ErrInvalidSides \<or>
          sides \<in> set validSides \<and> (count < 1 \<or> 100 < count) \<and> error_is e ErrCountOutOfRange) \<and>
         r' = r
     | Inr rolls \<Rightarrow> sides \<in> set validSides \<and> 1 \<le> count \<and> count \<le> 100 \<and>
         dice_spec sides count rolls)"
proof (cases "sides \<in> set validSides \<and> 1 \<le> count \<and> count \<le> 100")
  case True
  then obtain xs r' where "fill count (roll_die sides) r = Some (xs, r')"
      "int (length xs) = count" "\<forall>j < length xs. 1 \<le> xs ! j \<and> xs ! j \<le> sides"
    using die.fill_total [OF validSides_ok [of sides], of count r] by auto
  with True show ?thesis
    by (auto simp: RollDice_def returns_def dice_spec_def list_all_nth)
next
  case False
  then show ?thesis by (auto simp: RollDice_def)
qed

section \<open>Integers\<close>

definition maxBound :: int where
  "maxBound = 1000000000"

text \<open>The bytes of the plus-minus sign of the message, U+00B1 in UTF-8.\<close>

definition plus_minus :: go_string where
  "plus_minus = [CHR 0xC2, CHR 0xB1]"

definition validateNumberParams :: "int \<Rightarrow> int \<Rightarrow> int \<Rightarrow> service_error option" where
  "validateNumberParams lo hi count =
     (if lo < - maxBound \<or> hi > maxBound then
        Some (Errorf ErrBoundsExceeded
          [Lit (''min and max must be within '' @ plus_minus), D maxBound])
      else if lo > hi then
        Some (Errorf ErrMinGreaterThanMax [Lit ''got min='', D lo, Lit '' max='', D hi])
      else if count < 1 \<or> count > 100 then Some (count_error 100 count)
      else None)"

definition random_int :: "int \<times> int \<Rightarrow> int gen" where
  "random_int = (\<lambda>(lo, hi) i r. do {
     (n, r') \<leftarrow> rand_IntN (wrap64 (wrap64 (hi - lo) + 1)) r;
     Some (wrap64 (lo + n), r')
   })"

definition RandomInts :: "int \<Rightarrow> int \<Rightarrow> int \<Rightarrow> int list service" where
  "RandomInts lo hi count =
     (case validateNumberParams lo hi count of
        Some err \<Rightarrow> fails err
      | None \<Rightarrow> returns (fill count (random_int (lo, hi))))"

interpretation ints: generator
  "\<lambda>(lo, hi). - maxBound \<le> lo \<and> lo \<le> hi \<and> hi \<le> maxBound" random_int
  "\<lambda>(lo, hi) i n. lo \<le> n \<and> n \<le> hi"
proof unfold_locales
  fix p :: "int \<times> int" and i :: nat and r :: rng
  assume ok: "case p of (lo, hi) \<Rightarrow> - maxBound \<le> lo \<and> lo \<le> hi \<and> hi \<le> maxBound"
  obtain lo hi where p: "p = (lo, hi)" by (cases p)
  have b: "- maxBound \<le> lo" "lo \<le> hi" "hi \<le> maxBound" using ok p by auto
  have width: "wrap64 (wrap64 (hi - lo) + 1) = hi - lo + 1"
    using b by (simp add: wrap64_id int64_def maxBound_def)
  obtain n r' where n: "rand_IntN (hi - lo + 1) r = Some (n, r')" "0 \<le> n" "n < hi - lo + 1"
    using rand_IntN_total [of "hi - lo + 1" r] b by auto
  have "wrap64 (lo + n) = lo + n"
    using b n by (intro wrap64_id) (simp add: int64_def maxBound_def)
  with n width p show "\<exists>x r'. random_int p i r = Some (x, r') \<and>
      (case p of (lo, hi) \<Rightarrow> \<lambda>i n. lo \<le> n \<and> n \<le> hi) i x"
    by (simp add: random_int_def)
qed

lemma RandomInts_outcome:
  "\<exists>res r'. RandomInts lo hi count r = Some (res, r') \<and>
    (case res of
       Inl e \<Rightarrow> validateNumberParams lo hi count = Some e \<and> r' = r
     | Inr ns \<Rightarrow> validateNumberParams lo hi count = None \<and> int (length ns) = count \<and>
         list_all (\<lambda>n. lo \<le> n \<and> n \<le> hi) ns)"
proof (cases "validateNumberParams lo hi count")
  case None
  then have "- maxBound \<le> lo \<and> lo \<le> hi \<and> hi \<le> maxBound" "0 \<le> count"
    by (auto simp: validateNumberParams_def split: if_splits)
  then obtain xs r' where "fill count (random_int (lo, hi)) r = Some (xs, r')"
      "int (length xs) = count" "\<forall>j < length xs. lo \<le> xs ! j \<and> xs ! j \<le> hi"
    using ints.fill_total [of "(lo, hi)" count r] by auto
  with None show ?thesis by (auto simp: RandomInts_def returns_def list_all_nth)
next
  case (Some e)
  then show ?thesis by (simp add: RandomInts_def)
qed

text \<open>Which inputs are accepted, and the sentinel each of the others gets.\<close>

lemma validateNumberParams_None:
  "validateNumberParams lo hi count = None \<longleftrightarrow>
     - maxBound \<le> lo \<and> lo \<le> hi \<and> hi \<le> maxBound \<and> 1 \<le> count \<and> count \<le> 100"
  by (auto simp: validateNumberParams_def)

lemma validateNumberParams_Some:
  "validateNumberParams lo hi count = Some e \<Longrightarrow>
     error_is e (if lo < - maxBound \<or> maxBound < hi then ErrBoundsExceeded
                 else if hi < lo then ErrMinGreaterThanMax else ErrCountOutOfRange)"
  by (auto simp: validateNumberParams_def split: if_splits)

end
