(* ===== verification/Wordlists.thy ===== *)
theory Wordlists
  imports Zaas_Prelude
begin

text \<open>
  The vocabulary of the word and lorem generators: the string tables of
  \<open>service/wordlists/*.go\<close> and \<open>loremWords\<close> of \<open>service/lorem.go\<close>, in source order.  Every entry
  is a non-empty text of lower-case ASCII letters, which is what makes the first-letter
  capitalisation of the generators a change of one byte.
\<close>

definition Random :: "go_string list" where
  "Random = [
    ''able'', ''acid'', ''aged'', ''also'', ''area'', ''army'', ''away'', ''baby'', ''back'',
    ''ball'', ''band'', ''bank'', ''base'', ''bath'', ''bear'', ''beat'', ''been'', ''bell'',
    ''best'', ''bill'', ''bird'', ''blow'', ''blue'', ''boat'', ''body'', ''bomb'', ''bond'',
    ''bone'', ''book'', ''born'', ''both'', ''bowl'', ''bulk'', ''burn'', ''busy'', ''call'',
    ''calm'', ''came'', ''card'', ''care'', ''case'', ''cash'', ''cast'', ''cave'', ''city'',
    ''clad'', ''clay'', ''clip'', ''club'', ''coal'', ''coat'', ''code'', ''coil'', ''cold'',
    ''come'', ''cook'', ''cool'', ''cope'', ''copy'', ''core'', ''corn'', ''cost'', ''coup'',
    ''crew'', ''crop'', ''cube'', ''cure'', ''cute'', ''damp'', ''dark'', ''data'', ''date'',
    ''dawn'', ''days'', ''dead'', ''deal'', ''dean'', ''dear'', ''debt'', ''deep'', ''deny'',
    ''desk'', ''diet'', ''dirt'', ''disc'', ''dish'', ''disk'', ''dome'', ''done'', ''door'',
    ''dose'', ''dots'', ''down'', ''draw'', ''drop'', ''drum'', ''dual'', ''dumb'', ''dump'',
    ''dune'', ''dusk'', ''dust'', ''each'', ''earn'', ''ease'', ''east'', ''edge'', ''else'',
    ''emit'', ''epic'', ''even'', ''ever'', ''evil'', ''exam'', ''face'', ''fact'', ''fail'',
    ''fall'', ''farm'', ''fast'', ''felt'', ''file'', ''fill'', ''film'', ''find'', ''fine'',
    ''fire'', ''firm'', ''fish'', ''flag'', ''flat'', ''flew'', ''flow'', ''foam'', ''fold'',
    ''folk'', ''fond'', ''font'', ''food'', ''fool'', ''fore'', ''fork'', ''form'', ''fort'',
    ''foul'', ''free'', ''from'', ''fuel'', ''full'', ''fund'', ''fuse'', ''gale'', ''gate'',
    ''gear'', ''gift'', ''give'', ''glad'', ''glow'', ''glue'', ''goal'', ''goes'', ''gold'',
    ''golf'', ''good'', ''gore'', ''gust'', ''half'', ''hall'', ''halt'', ''hand'', ''hang'',
    ''hard'', ''harm'', ''harp'', ''hash'', ''haul'', ''have'', ''hawk'', ''head'', ''heat'',
    ''heel'', ''held'', ''help'', ''herb'', ''here'', ''hero'', ''high'', ''hill'', ''hint'',
    ''hold'', ''hole'', ''holy'', ''home'', ''hope'', ''horn'', ''host'', ''hour'', ''huge'',
    ''hull'', ''hump'', ''hunt'', ''hurt'', ''idea'', ''idle'', ''inch'', ''into'', ''iron'',
    ''isle'', ''item'', ''join'', ''jump'', ''just'', ''keen'', ''keep'', ''kind'', ''king'',
    ''knot'', ''know'', ''lack'', ''lake'', ''lamp'', ''land'', ''lane'', ''last'', ''late'',
    ''lava'', ''lawn'', ''lead'', ''leaf'', ''lean'', ''left'', ''lens'', ''lend'', ''less'',
    ''lick'', ''life'', ''lift'', ''like'', ''lime'', ''line'', ''link'', ''lion'', ''list'',
    ''live'', ''load'', ''lock'', ''loft'', ''long'', ''look'', ''loop'', ''lore'', ''loss'',
    ''loud'', ''love'', ''luck'', ''lush'', ''made'', ''mail'', ''main'', ''make'', ''male'',
    ''mall'', ''many'', ''mark'', ''mars'', ''mast'', ''mate'', ''math'', ''maze'', ''meal'',
    ''mean'', ''meet'', ''melt'', ''menu'', ''mere'', ''mesh'', ''mild'', ''mile'', ''milk'',
    ''mill'', ''mind'', ''mine'', ''mint'', ''miss'', ''mist'', ''mode'', ''moon'', ''more'',
    ''most'', ''move'', ''much'', ''mute'', ''myth'', ''name'', ''near'', ''neat'', ''need'',
    ''nest'', ''news'', ''next'', ''nice'', ''node'', ''none'', ''noon'', ''norm'', ''note'',
    ''noun'', ''oath'', ''odds'', ''once'', ''only'', ''open'', ''oval'', ''over'', ''pace'',
    ''pack'', ''page'', ''pain'', ''pair'', ''pale'', ''palm'', ''park'', ''part'', ''pass'',
    ''path'', ''pave'', ''peak'', ''peel'', ''peer'', ''pile'', ''pine'', ''pipe'', ''plan'',
    ''play'', ''plot'', ''plow'', ''plum'', ''plus'', ''poem'', ''poet'', ''pole'', ''poll'',
    ''pond'', ''pool'', ''poor'', ''port'', ''pose'', ''post'', ''pour'', ''prey'', ''prod'',
    ''pull'', ''pump'', ''pure'', ''push'', ''race'', ''rack'', ''rage'', ''rail'', ''rain'',
    ''rank'', ''rare'', ''rate'', ''rays'', ''read'', ''real'', ''reef'', ''reel'', ''rely'',
    ''rent'', ''rest'', ''rich'', ''ride'', ''rift'', ''ring'', ''rise'', ''risk'', ''road'',
    ''roam'', ''role'', ''roll'', ''roof'', ''root'', ''rope'', ''rose'', ''ruin'', ''rule'',
    ''rush'', ''rust'', ''safe'', ''sage'', ''sail'', ''sake'', ''sale'', ''salt'', ''same'',
    ''sand'', ''save'', ''scan'', ''seal'', ''seed'', ''self'', ''sell'', ''send'', ''shed'',
    ''ship'', ''shop'', ''show'', ''side'', ''sift'', ''sign'', ''silk'', ''silo'', ''sink'',
    ''site'', ''size'', ''skin'', ''skip'', ''slab'', ''slam'', ''slim'', ''slip'', ''slot'',
    ''slow'', ''slum'', ''snap'', ''snow'', ''soak'', ''soar'', ''sock'', ''soft'', ''soil'',
    ''sole'', ''song'', ''soul'', ''span'', ''spin'', ''spot'', ''star'', ''stay'', ''stem'',
    ''step'', ''stir'', ''stop'', ''stub'', ''such'', ''suit'', ''sway'', ''swim'', ''tail'',
    ''take'', ''tale'', ''tall'', ''tank'', ''tape'', ''task'', ''team'', ''tell'', ''term'',
    ''test'', ''text'', ''than'', ''that'', ''then'', ''thin'', ''this'', ''tidy'', ''tier'',
    ''tile'', ''time'', ''tiny'', ''toll'', ''tomb'', ''tone'', ''tool'', ''tour'', ''town'',
    ''tree'', ''trim'', ''trip'', ''true'', ''tube'', ''tune'', ''turf'', ''turn'', ''twin'',
    ''type'', ''upon'', ''used'', ''user'', ''vary'', ''vast'', ''view'', ''vine'', ''void'',
    ''vote'', ''wade'', ''wake'', ''walk'', ''wall'', ''wand'', ''ward'', ''warm'', ''warp'',
    ''wave'', ''weak'', ''weld'', ''well'', ''wide'', ''wild'', ''will'', ''wind'', ''wire'',
    ''wish'', ''with'', ''word'', ''work'', ''worn'', ''wrap'', ''yard'', ''year'', ''zone'']"

definition DockerAdjectives :: "go_string list" where
  "DockerAdjectives = [
    ''admiring'', ''adoring'', ''affectionate'', ''agitated'', ''amazing'', ''angry'',
    ''awesome'', ''beautiful'', ''blissful'', ''bold'', ''boring'', ''brave'', ''busy'',
    ''charming'', ''clever'', ''cool'', ''compassionate'', ''competent'', ''condescending'',
    ''confident'', ''cranky'', ''crazy'', ''dazzling'', ''determined'', ''distracted'',
    ''dreamy'', ''eager'', ''ecstatic'', ''elastic'', ''elated'', ''elegant'', ''eloquent'',
    ''epic'', ''exciting'', ''fervent'', ''festive'', ''flamboyant'', ''focused'', ''friendly'',
    ''frosty'', ''funny'', ''gallant'', ''gifted'', ''goofy'', ''gracious'', ''great'',
    ''happy'', ''hardcore'', ''heuristic'', ''hopeful'', ''hungry'', ''infallible'',
    ''inspiring'', ''interesting'', ''jolly'', ''jovial'', ''keen'', ''kind'', ''laughing'',
    ''loving'', ''lucid'', ''magical'', ''modest'', ''musing'', ''mystifying'', ''naughty'',
    ''nervous'', ''nice'', ''nifty'', ''nostalgic'', ''objective'', ''optimistic'', ''peaceful'',
    ''pedantic'', ''pensive'', ''practical'', ''priceless'', ''quirky'', ''quizzical'',
    ''recursing'', ''relaxed'', ''reverent'', ''romantic'', ''sad'', ''serene'', ''sharp'',
    ''silly'', ''sleepy'', ''stoic'', ''strange'', ''stupefied'', ''suspicious'', ''sweet'',
    ''tender'', ''thirsty'', ''trusting'', ''unruffled'', ''upbeat'', ''vibrant'', ''vigilant'',
    ''vigorous'', ''wizardly'', ''wonderful'', ''xenodochial'', ''youthful'', ''zealous'']"

definition DockerNames :: "go_string list" where
  "DockerNames = [
    ''albattani'', ''allen'', ''almeida'', ''antonelli'', ''archimedes'', ''ardinghelli'',
    ''aryabhata'', ''austin'', ''babbage'', ''banach'', ''banzai'', ''bardeen'', ''bartik'',
    ''bassi'', ''beaver'', ''bell'', ''benz'', ''bhabha'', ''bhaskara'', ''black'',
    ''blackburn'', ''blackwell'', ''bohr'', ''booth'', ''borg'', ''bose'', ''bouman'', ''boyd'',
    ''brahmagupta'', ''brattain'', ''brown'', ''buck'', ''burnell'', ''cannon'', ''carson'',
    ''cartwright'', ''carver'', ''cauchy'', ''cerf'', ''chandrasekhar'', ''chaplygin'',
    ''chatelet'', ''chatterjee'', ''chebyshev'', ''clarke'', ''cohen'', ''colden'', ''cori'',
    ''cray'', ''curie'', ''curran'', ''darwin'', ''davinci'', ''dewdney'', ''dhawan'',
    ''diffie'', ''dijkstra'', ''dirac'', ''driscoll'', ''dubinsky'', ''easley'', ''edison'',
    ''einstein'', ''elgamal'', ''elion'', ''ellis'', ''engelbart'', ''euclid'', ''euler'',
    ''faraday'', ''feistel'', ''fermat'', ''fermi'', ''feynman'', ''fibonacci'', ''fleming'',
    ''franklin'', ''gagarin'', ''galileo'', ''galois'', ''ganguly'', ''gates'', ''gauss'',
    ''germain'', ''goldberg'', ''goldstine'', ''goldwasser'', ''golick'', ''goodall'', ''gould'',
    ''greider'', ''grothendieck'', ''haibt'', ''hamilton'', ''haslett'', ''hawking'',
    ''hellman'', ''heisenberg'', ''hermann'', ''herschel'', ''hertz'', ''heyrovsky'',
    ''hodgkin'', ''hofstadter'', ''hoover'', ''hopper'', ''hugle'', ''hypatia'', ''ishizaka'',
    ''jackson'', ''jang'', ''jemison'', ''jennings'', ''jepsen'', ''johnson'', ''joliot'',
    ''jones'', ''kalam'', ''kapitsa'', ''kare'', ''keldysh'', ''keller'', ''kepler'',
    ''khayyam'', ''kilby'', ''kirch'', ''knuth'', ''kowalevski'', ''lalande'', ''lamarr'',
    ''lamport'', ''leakey'', ''leavitt'', ''lederberg'', ''lehmann'', ''lewin'', ''lichterman'',
    ''liskov'', ''lovelace'', ''lumiere'', ''mahavira'', ''margulis'', ''matsumoto'',
    ''maxwell'', ''mayer'', ''mccarthy'', ''mcclintock'', ''mclean'', ''mcnulty'', ''mendel'',
    ''mendeleev'', ''merkle'', ''mestorf'', ''mirzakhani'', ''morse'', ''moser'', ''napier'',
    ''nash'', ''neumann'', ''newton'', ''nightingale'', ''nobel'', ''noether'', ''northcutt'',
    ''noyce'', ''panini'', ''pare'', ''pascal'', ''pasteur'', ''payne'', ''perlman'', ''pike'',
    ''poincare'', ''poitras'', ''proskuriakova'', ''ptolemy'', ''raman'', ''ramanujan'',
    ''rhodes'', ''ride'', ''ritchie'', ''robinson'', ''roentgen'', ''rosalind'', ''rubin'',
    ''saha'', ''sammet'', ''sanderson'', ''satoshi'', ''shamir'', ''shannon'', ''shaw'',
    ''shirley'', ''shockley'', ''shtern'', ''sinoussi'', ''snyder'', ''solomon'', ''spence'',
    ''stonebraker'', ''sutherland'', ''swartz'', ''swirles'', ''taussig'', ''tesla'', ''tharp'',
    ''thompson'', ''torvalds'', ''turing'', ''varahamihira'', ''vaughan'', ''villani'',
    ''visvesvaraya'', ''volnit'', ''wescoff'', ''wilbur'', ''wiles'', ''williams'',
    ''williamson'', ''wilson'', ''wing'', ''wozniak'', ''wright'', ''wu'', ''yalow'', ''yonath'',
    ''zhukovsky'']"

definition UbuntuAnimals :: "go_string list" where
  "UbuntuAnimals = [
    ''albatross'', ''alpaca'', ''antelope'', ''armadillo'', ''axolotl'', ''baboon'', ''badger'',
    ''barracuda'', ''bat'', ''bear'', ''beaver'', ''bison'', ''boar'', ''buffalo'',
    ''butterfly'', ''camel'', ''capybara'', ''caracal'', ''cheetah'', ''chipmunk'', ''cobra'',
    ''condor'', ''cormorant'', ''cougar'', ''coyote'', ''crane'', ''crocodile'', ''crow'',
    ''dingo'', ''dolphin'', ''donkey'', ''dragonfly'', ''dugong'', ''eagle'', ''echidna'',
    ''eel'', ''elephant'', ''elk'', ''emu'', ''falcon'', ''ferret'', ''flamingo'', ''fox'',
    ''frog'', ''gazelle'', ''gecko'', ''gibbon'', ''giraffe'', ''gnu'', ''goat'', ''gorilla'',
    ''grouse'', ''guanaco'', ''gull'', ''hamster'', ''hare'', ''hawk'', ''hedgehog'', ''heron'',
    ''hippo'', ''hornet'', ''horse'', ''hummingbird'', ''hyena'', ''ibis'', ''iguana'',
    ''impala'', ''jackal'', ''jaguar'', ''jellyfish'', ''kangaroo'', ''kestrel'', ''kingfisher'',
    ''kiwi'', ''koala'', ''komodo'', ''kookaburra'', ''lemur'', ''leopard'', ''lion'', ''llama'',
    ''lobster'', ''lynx'', ''macaw'', ''mamba'', ''manta'', ''marmoset'', ''marten'',
    ''meerkat'', ''mongoose'', ''moose'', ''moth'', ''narwhal'', ''newt'', ''nighthawk'',
    ''numbat'', ''ocelot'', ''octopus'', ''okapi'', ''opossum'', ''orangutan'', ''orca'',
    ''osprey'', ''ostrich'', ''otter'', ''owl'', ''panda'', ''panther'', ''parrot'', ''peacock'',
    ''pelican'', ''penguin'', ''porcupine'', ''porpoise'', ''puma'', ''quail'', ''quokka'',
    ''rabbit'', ''raccoon'', ''raven'', ''reindeer'', ''rhino'', ''roadrunner'', ''salamander'',
    ''salmon'', ''sandpiper'', ''scorpion'', ''seahorse'', ''seal'', ''serval'', ''shark'',
    ''skunk'', ''sloth'', ''snail'', ''snake'', ''sparrow'', ''spider'', ''stork'', ''sturgeon'',
    ''swan'', ''tapir'', ''tarantula'', ''tiger'', ''toad'', ''toucan'', ''turtle'', ''uakari'',
    ''viper'', ''vulture'', ''walrus'', ''warthog'', ''wasp'', ''weasel'', ''whale'',
    ''wildcat'', ''wolf'', ''wolverine'', ''wombat'', ''woodpecker'', ''yak'', ''zebra'']"

definition loremWords :: "go_string list" where
  "loremWords = [
    ''lorem'', ''ipsum'', ''dolor'', ''sit'', ''amet'', ''consectetur'', ''adipiscing'',
    ''elit'', ''sed'', ''do'', ''eiusmod'', ''tempor'', ''incididunt'', ''ut'', ''labore'',
    ''et'', ''dolore'', ''magna'', ''aliqua'', ''enim'', ''ad'', ''minim'', ''veniam'', ''quis'',
    ''nostrud'', ''exercitation'', ''ullamco'', ''laboris'', ''nisi'', ''aliquip'', ''ex'',
    ''ea'', ''commodo'', ''consequat'', ''duis'', ''aute'', ''irure'', ''in'', ''reprehenderit'',
    ''voluptate'', ''velit'', ''esse'', ''cillum'', ''eu'', ''fugiat'', ''nulla'', ''pariatur'',
    ''excepteur'', ''sint'', ''occaecat'', ''cupidatat'', ''non'', ''proident'', ''sunt'',
    ''culpa'', ''qui'', ''officia'', ''deserunt'', ''mollit'', ''anim'', ''id'', ''est'',
    ''laborum'', ''perspiciatis'', ''unde'', ''omnis'', ''iste'', ''natus'', ''error'',
    ''voluptatem'', ''accusantium'', ''doloremque'', ''laudantium'', ''totam'', ''rem'',
    ''aperiam'', ''eaque'', ''ipsa'', ''quae'', ''ab'', ''illo'', ''inventore'', ''veritatis'',
    ''architecto'', ''beatae'', ''vitae'', ''dicta'', ''explicabo'', ''nemo'', ''ipsam'',
    ''quia'', ''voluptas'', ''aspernatur'', ''aut'', ''odit'', ''fugit'', ''consequuntur'',
    ''magni'', ''dolores'', ''ratione'', ''sequi'', ''nesciunt'', ''neque'', ''porro'',
    ''quisquam'', ''dolorem'', ''adipisci'', ''velit'', ''numquam'', ''eius'', ''modi'',
    ''tempora'', ''incidunt'', ''magnam'', ''quaerat'']"

definition lower_letter :: "char \<Rightarrow> bool" where
  "lower_letter c \<longleftrightarrow> (97::nat) \<le> of_char c \<and> of_char c \<le> (122::nat)"

definition plain_word :: "go_string \<Rightarrow> bool" where
  "plain_word w \<longleftrightarrow> w \<noteq> [] \<and> list_all lower_letter w"

lemma lower_letter_simps [simp]:
  "lower_letter (CHR ''a'')"
  "lower_letter (CHR ''b'')"
  "lower_letter (CHR ''c'')"
  "lower_letter (CHR ''d'')"
  "lower_letter (CHR ''e'')"
  "lower_letter (CHR ''f'')"
  "lower_letter (CHR ''g'')"
  "lower_letter (CHR ''h'')"
  "lower_letter (CHR ''i'')"
  "lower_letter (CHR ''j'')"
  "lower_letter (CHR ''k'')"
  "lower_letter (CHR ''l'')"
  "lower_letter (CHR ''m'')"
  "lower_letter (CHR ''n'')"
  "lower_letter (CHR ''o'')"
  "lower_letter (CHR ''p'')"
  "lower_letter (CHR ''q'')"
  "lower_letter (CHR ''r'')"
  "lower_letter (CHR ''s'')"
  "lower_letter (CHR ''t'')"
  "lower_letter (CHR ''u'')"
  "lower_letter (CHR ''v'')"
  "lower_letter (CHR ''w'')"
  "lower_letter (CHR ''x'')"
  "lower_letter (CHR ''y'')"
  "lower_letter (CHR ''z'')"
  by (simp_all add: lower_letter_def)

lemma plain_words:
  "list_all plain_word Random"
  "list_all plain_word DockerAdjectives"
  "list_all plain_word DockerNames"
  "list_all plain_word UbuntuAnimals"
  "list_all plain_word loremWords"
  by (simp_all only: Random_def DockerAdjectives_def DockerNames_def UbuntuAnimals_def
      loremWords_def plain_word_def list.pred_inject lower_letter_simps list.distinct simp_thms)

lemma wordlist_lengths:
  "length Random = 522" "length DockerAdjectives = 106" "length DockerNames = 227"
  "length UbuntuAnimals = 161" "length loremWords = 115"
  by (simp_all add: Random_def DockerAdjectives_def DockerNames_def UbuntuAnimals_def
      loremWords_def)

lemma wordlists_not_Nil [simp]:
  "Random \<noteq> []" "DockerAdjectives \<noteq> []" "DockerNames \<noteq> []" "UbuntuAnimals \<noteq> []"
  "loremWords \<noteq> []"
  using wordlist_lengths by (metis list.size(3) zero_neq_numeral)+

end
