(* ===== verification/Service_Text.thy ===== *)
theory Service_Text
  imports Service_Errors Wordlists
begin

text \<open>
  The text generators: \<open>service/words.go\<close> and \<open>service/lorem.go\<close>.  All words of the lists are
  lower-case ASCII (\<open>plain_words\<close>), so \<open>[]rune(w)\<close> is the bytes of \<open>w\<close> and \<open>unicode.ToUpper\<close> of the
  first rune is \<open>upper_char\<close> of the first byte.
\<close>

definition upper_char :: "char \<Rightarrow> char" where
  "upper_char c =
     (let n = of_char c :: nat in if 97 \<le> n \<and> n \<le> 122 then char_of (n - 32) else c)"

definition capitalize_first :: "go_string \<Rightarrow> go_string" where
  "capitalize_first w = (case w of [] \<Rightarrow> [] | c # cs \<Rightarrow> upper_char c # cs)"

section \<open>Words\<close>

record words_params =
  Style :: go_string
  Words :: int
  Separator :: go_string
  Capitalize :: bool
  Count :: int

definition word_parts :: "words_params \<Rightarrow> rng \<Rightarrow> (go_string list \<times> rng) option" where
  "word_parts p r =
     (if Style p = ''docker'' then do {
        (adj, r1) \<leftarrow> rand_pick DockerAdjectives r;
        (name, r2) \<leftarrow> rand_pick DockerNames r1;
        Some ([adj, name], r2)
      }
      else if Style p = ''ubuntu'' then do {
        (adj, r1) \<leftarrow> rand_pick DockerAdjectives r;
        (animal, r2) \<leftarrow> rand_pick UbuntuAnimals r1;
        Some ([adj, animal], r2)
      }
      else fill (Words p) (\<lambda>i. rand_pick Random) r)"

definition generateWordString :: "words_params \<Rightarrow> go_string gen" where
  "generateWordString p i r = do {
     (parts, r') \<leftarrow> word_parts p r;
     Some (join (Separator p)
             (if Capitalize p then map capitalize_first parts else parts), r')
   }"

definition RandomWords :: "words_params \<Rightarrow> go_string list service" where
  "RandomWords p =
     (if Style p \<noteq> ''random'' \<and> Style p \<noteq> ''docker'' \<and> Style p \<noteq> ''ubuntu'' then
        fails (Errorf ErrInvalidWordStyle
          [Lit ''style must be one of random, docker, ubuntu; got '', Q (Style p)])
      else if length (Separator p) > 5 then
        fails (Errorf ErrSeparatorTooLong
          [Lit ''separator must be at most 5 characters; got '', D (int (length (Separator p)))])
      else if Style p = ''random'' \<and> (Words p < 1 \<or> Words p > 20) then
        fails (Errorf ErrInvalidParam [Lit ''words must be between 1 and 20; got '', D (Words p)])
      else if Count p < 1 \<or> Count p > 100 then fails (count_error 100 (Count p))
      else returns (fill (Count p) (generateWordString p)))"

text \<open>The words a text of each style is made of, and what the style makes of them.\<close>

definition style_parts :: "words_params \<Rightarrow> go_string list \<Rightarrow> bool" where
  "style_parts p ws \<longleftrightarrow>
     (if Style p = ''docker'' then
        length ws = 2 \<and> ws ! 0 \<in> set DockerAdjectives \<and> ws ! 1 \<in> set DockerNames
      else if Style p = ''ubuntu'' then
        length ws = 2 \<and> ws ! 0 \<in> set DockerAdjectives \<and> ws ! 1 \<in> set UbuntuAnimals
      else int (length ws) = Words p \<and> set ws \<subseteq> set Random)"

definition styled :: "words_params \<Rightarrow> go_string list \<Rightarrow> go_string list" where
  "styled p ws = (if Capitalize p then map capitalize_first ws else ws)"

definition word_string :: "words_params \<Rightarrow> go_string \<Rightarrow> bool" where
  "word_string p s \<longleftrightarrow> (\<exists>ws. style_parts p ws \<and> s = join (Separator p) (styled p ws))"

lemma word_parts_total:
  assumes "Style p \<in> {''docker'', ''ubuntu''} \<or> 0 \<le> Words p"
  shows "\<exists>ws r'. word_parts p r = Some (ws, r') \<and> style_parts p ws"
proof -
  obtain a r1 where a: "rand_pick DockerAdjectives r = Some (a, r1)" "a \<in> set DockerAdjectives"
    using rand_pick_total [of DockerAdjectives r] by auto
  obtain n r2 where n: "rand_pick DockerNames r1 = Some (n, r2)" "n \<in> set DockerNames"
    using rand_pick_total [of DockerNames r1] by auto
  obtain u r3 where u: "rand_pick UbuntuAnimals r1 = Some (u, r3)" "u \<in> set UbuntuAnimals"
    using rand_pick_total [of UbuntuAnimals r1] by auto
  have "\<exists>ws r'. fill (Words p) (\<lambda>i. rand_pick Random) r = Some (ws, r') \<and>
      int (length ws) = Words p \<and> set ws \<subseteq> set Random" if "0 \<le> Words p"
    using pick.fill_total [of Random "Words p" r] that
    by (fastforce simp: in_set_conv_nth subset_iff)
  with assms a n u show ?thesis by (auto simp: word_parts_def style_parts_def)
qed

interpretation wordgen: generator
  "\<lambda>p. Style p \<in> {''docker'', ''ubuntu''} \<or> 0 \<le> Words p" generateWordString
  "\<lambda>p i s. word_string p s"
proof unfold_locales
  fix p :: words_params and i r
  assume "Style p \<in> {''docker'', ''ubuntu''} \<or> 0 \<le> Words p"
  then obtain ws r' where "word_parts p r = Some (ws, r')" "style_parts p ws"
    using word_parts_total by blast
  then show "\<exists>x r'. generateWordString p i r = Some (x, r') \<and> word_string p x"
    by (auto simp: generateWordString_def word_string_def styled_def)
qed

definition words_error :: "words_params \<Rightarrow> sentinel option" where
  "words_error p =
     (if Style p \<notin> {''random'', ''docker'', ''ubuntu''} then Some ErrInvalidWordStyle
      else if 5 < length (Separator p) then Some ErrSeparatorTooLong
      else if Style p = ''random'' \<and> (Words p < 1 \<or> 20 < Words p) then Some ErrInvalidParam
      else if Count p < 1 \<or> 100 < Count p then Some ErrCountOutOfRange
      else None)"

lemma RandomWords_outcome:
  "\<exists>res r'. RandomWords p r = Some (res, r') \<and>
    (case words_error p of
       Some sen \<Rightarrow> (\<exists>e. res = Inl e \<and> error_is e sen) \<and> r' = r
     | None \<Rightarrow> (\<exists>ss. res = Inr ss \<and> int (length ss) = Count p \<and> list_all (word_string p) ss))"
proof (cases "words_error p")
  case None
  then have ok: "Style p \<in> {''docker'', ''ubuntu''} \<or> 0 \<le> Words p" "0 \<le> Count p"
    by (auto simp: words_error_def split: if_splits)
  then obtain ss r' where "fill (Count p) (generateWordString p) r = Some (ss, r')"
      "int (length ss) = Count p" "\<forall>j < length ss. word_string p (ss ! j)"
    using wordgen.fill_total by blast
  with None show ?thesis
    by (auto simp: RandomWords_def words_error_def list_all_nth split: if_splits)
next
  case (Some sen)
  then show ?thesis by (auto simp: RandomWords_def words_error_def split: if_splits)
qed

text \<open>
  With a one-byte separator that is not a letter (the defaults are \<open>-\<close>, \<open>_\<close> and a blank), a text
  splits back into exactly its words.
\<close>

definition letter :: "char \<Rightarrow> bool" where
  "letter c \<longleftrightarrow> lower_letter c \<or> (65::nat) \<le> of_char c \<and> of_char c \<le> (90::nat)"

lemma letter_upper_char: "lower_letter c \<Longrightarrow> letter (upper_char c)"
  by (auto simp: letter_def lower_letter_def upper_char_def Let_def)

lemma lower_letter_letter: "lower_letter c \<Longrightarrow> letter c"
  by (simp add: letter_def)

lemma plain_word_letters: "plain_word w \<Longrightarrow> list_all letter w"
  by (auto simp: plain_word_def letter_def list_all_iff)

lemma capitalize_first_letters: "plain_word w \<Longrightarrow> list_all letter (capitalize_first w)"
  by (cases w) (auto simp: plain_word_def capitalize_first_def letter_upper_char
      lower_letter_letter list_all_iff)

lemma list_words_plain:
  "w \<in> set Random \<union> set DockerAdjectives \<union> set DockerNames \<union> set UbuntuAnimals \<Longrightarrow> plain_word w"
  using plain_words by (auto simp: list_all_iff)

lemma style_parts_plain:
  assumes "style_parts p ws" "w \<in> set ws"
  shows "plain_word w"
proof -
  have "w \<in> set Random \<union> set DockerAdjectives \<union> set DockerNames \<union> set UbuntuAnimals"
  proof (cases "length ws = 2 \<and> Style p \<in> {''docker'', ''ubuntu''}")
    case True
    then obtain a b where "ws = [a, b]"
      by (auto simp: length_Suc_conv numeral_2_eq_2)
    with assms True show ?thesis by (auto simp: style_parts_def split: if_splits)
  next
    case False
    with assms show ?thesis by (auto simp: style_parts_def split: if_splits)
  qed
  then show ?thesis by (rule list_words_plain)
qed

lemma split_word_string:
  assumes "style_parts p ws" "ws \<noteq> []" "\<not> letter c" "Separator p = [c]"
  shows "split_on c (join (Separator p) (styled p ws)) = styled p ws"
proof -
  have "list_all letter w" if "w \<in> set (styled p ws)" for w
    using that style_parts_plain [OF assms(1)]
    by (auto simp: styled_def plain_word_letters capitalize_first_letters split: if_splits)
  then have "\<And>w. w \<in> set (styled p ws) \<Longrightarrow> c \<notin> set w"
    using assms(3) by (auto simp: list_all_iff)
  moreover have "styled p ws \<noteq> []" using assms(2) by (auto simp: styled_def)
  ultimately show ?thesis using assms(4) by (simp add: split_on_join)
qed

section \<open>Lorem ipsum\<close>

definition loremOpener :: go_string where
  "loremOpener = ''Lorem ipsum dolor sit amet, consectetur adipiscing elit.''"

definition capitalize_head :: "go_string list \<Rightarrow> go_string list" where
  "capitalize_head ws = (case ws of [] \<Rightarrow> [] | w # ws \<Rightarrow> capitalize_first w # ws)"

definition randomLoremSentence :: "rng \<Rightarrow> (go_string \<times> rng) option" where
  "randomLoremSentence r = do {
     (n, r1) \<leftarrow> rand_IntN 9 r;
     (words, r2) \<leftarrow> fill (8 + n) (\<lambda>i. rand_pick loremWords) r1;
     Some (join '' '' (capitalize_head words) @ ''.'', r2)
   }"

definition lorem_sentence_gen :: "bool \<Rightarrow> go_string gen" where
  "lorem_sentence_gen opener i r =
     (if i = 0 \<and> opener then Some (loremOpener, r) else randomLoremSentence r)"

definition generateLoremSentences :: "int \<Rightarrow> bool \<Rightarrow> rng \<Rightarrow> (go_string \<times> rng) option" where
  "generateLoremSentences n useOpener r = do {
     (sents, r') \<leftarrow> fill n (lorem_sentence_gen useOpener) r;
     Some (join '' '' sents, r')
   }"

definition lorem_paragraph_gen :: "bool \<Rightarrow> go_string gen" where
  "lorem_paragraph_gen useOpener i r = do {
     (n, r1) \<leftarrow> rand_IntN 5 r;
     (sents, r2) \<leftarrow> fill (3 + n) (lorem_sentence_gen (i = 0 \<and> useOpener)) r1;
     Some (join '' '' sents, r2)
   }"

definition paragraph_break :: go_string where
  "paragraph_break = [CHR 0x0A, CHR 0x0A]"

definition generateLoremParagraphs :: "int \<Rightarrow> bool \<Rightarrow> rng \<Rightarrow> (go_string \<times> rng) option" where
  "generateLoremParagraphs n useOpener r = do {
     (paras, r') \<leftarrow> fill n (lorem_paragraph_gen useOpener) r;
     Some (join paragraph_break paras, r')
   }"

definition lorem_text_gen :: "int \<times> int \<Rightarrow> go_string gen" where
  "lorem_text_gen = (\<lambda>(paragraphs, sentences) i r.
     if sentences > 0 then generateLoremSentences sentences (i = 0) r
     else generateLoremParagraphs paragraphs (i = 0) r)"

definition RandomLorem :: "int \<Rightarrow> int \<Rightarrow> int \<Rightarrow> go_string list service" where
  "RandomLorem count paragraphs sentences =
     (if count < 1 \<or> count > 10 then fails (count_error 10 count)
      else if sentences > 0 \<and> (sentences < 1 \<or> sentences > 50) then
        fails (Errorf ErrInvalidParam
          [Lit ''sentences must be between 1 and 50; got '', D sentences])
      else if \<not> sentences > 0 \<and> (paragraphs < 1 \<or> paragraphs > 10) then
        fails (Errorf ErrInvalidParam
          [Lit ''paragraphs must be between 1 and 10; got '', D paragraphs])
      else returns (fill count (lorem_text_gen (paragraphs, sentences))))"

text \<open>
  The sentences of a text are counted by their full stops, its paragraphs by their line feeds:
  no word of the vocabulary holds either.
\<close>

abbreviation dots :: "go_string \<Rightarrow> nat" where
  "dots s \<equiv> count_list s (CHR ''.'')"

abbreviation feeds :: "go_string \<Rightarrow> nat" where
  "feeds s \<equiv> count_list s (CHR 0x0A)"

lemma count_join:
  "count_list (join sep xs) c =
     sum_list (map (\<lambda>x. count_list x c) xs) + (length xs - 1) * count_list sep c"
proof (induction sep xs rule: join.induct)
  case (3 sep x y zs)
  then show ?case by (simp add: algebra_simps)
qed auto

lemma count_letters: "list_all letter w \<Longrightarrow> \<not> letter c \<Longrightarrow> count_list w c = 0"
  by (auto simp: count_list_0_iff list_all_iff)

definition lorem_sentence :: "go_string \<Rightarrow> bool" where
  "lorem_sentence s \<longleftrightarrow> s = loremOpener \<or>
     (\<exists>ws. 8 \<le> length ws \<and> length ws \<le> 16 \<and> set ws \<subseteq> set loremWords \<and>
        s = join '' '' (capitalize_head ws) @ ''.'')"

lemma not_letter [simp]: "\<not> letter (CHR ''.'')" "\<not> letter (CHR 0x0A)"
  by (auto simp: letter_def lower_letter_def)

lemma lorem_sentence_counts:
  assumes "lorem_sentence s"
  shows "dots s = 1" "feeds s = 0"
proof -
  have *: "dots s = 1 \<and> feeds s = 0"
    if s: "s = join '' '' (capitalize_head ws) @ ''.''" and sub: "set ws \<subseteq> set loremWords" for ws
  proof -
    have "\<forall>w \<in> set ws. plain_word w" using sub plain_words by (auto simp: list_all_iff)
    then have "\<forall>w \<in> set (capitalize_head ws). list_all letter w"
      by (cases ws)
        (auto simp: capitalize_head_def plain_word_letters capitalize_first_letters)
    then have "sum_list (map dots (capitalize_head ws)) = 0"
        "sum_list (map feeds (capitalize_head ws)) = 0"
      by (auto simp: count_letters)
    with s show ?thesis by (simp add: count_join)
  qed
  moreover have "dots loremOpener = 1 \<and> feeds loremOpener = 0"
    by (simp add: loremOpener_def)
  ultimately have "dots s = 1 \<and> feeds s = 0"
    using assms unfolding lorem_sentence_def by (elim disjE exE conjE) (simp_all only:)
  then show "dots s = 1" "feeds s = 0" by simp_all
qed

interpretation sentence: generator "\<lambda>_. True" lorem_sentence_gen "\<lambda>b i s. lorem_sentence s"
proof unfold_locales
  fix p :: bool and i :: nat and r :: rng
  obtain n r1 where n: "rand_IntN 9 r = Some (n, r1)" "0 \<le> n" "n < 9"
    using rand_IntN_total [of 9 r] by auto
  obtain ws r2 where ws: "fill (8 + n) (\<lambda>i. rand_pick loremWords) r1 = Some (ws, r2)"
      "int (length ws) = 8 + n" "\<forall>j < length ws. ws ! j \<in> set loremWords"
    using pick.fill_total [of loremWords "8 + n" r1] n by auto
  have "set ws \<subseteq> set loremWords" using ws(3) by (auto simp: in_set_conv_nth)
  moreover have "8 \<le> length ws \<and> length ws \<le> 16" using ws n by linarith
  ultimately have "lorem_sentence (join '' '' (capitalize_head ws) @ ''.'')"
    unfolding lorem_sentence_def by blast
  moreover have "lorem_sentence loremOpener" by (simp add: lorem_sentence_def)
  ultimately show "\<exists>x r'. lorem_sentence_gen p i r = Some (x, r') \<and> lorem_sentence x"
    using n ws by (auto simp: lorem_sentence_gen_def randomLoremSentence_def)
qed

text \<open>A run of sentences, as a text, and its counts.\<close>

lemma sum_list_ones: "(\<forall>x \<in> set xs. f x = (k::nat)) \<Longrightarrow> sum_list (map f xs) = length xs * k"
  by (induction xs) auto

lemma sentences_counts:
  assumes "\<forall>j < length ss. lorem_sentence (ss ! j)"
  shows "dots (join '' '' ss) = length ss" "feeds (join '' '' ss) = 0"
proof -
  have "\<forall>s \<in> set ss. dots s = 1 \<and> feeds s = 0"
    using assms lorem_sentence_counts by (metis in_set_conv_nth)
  then show "dots (join '' '' ss) = length ss" "feeds (join '' '' ss) = 0"
    using sum_list_ones [of ss dots 1] sum_list_ones [of ss feeds 0]
    by (simp_all add: count_join)
qed

lemma generateLoremSentences_total:
  assumes "0 \<le> n"
  shows "\<exists>s r'. generateLoremSentences n b r = Some (s, r') \<and> int (dots s) = n \<and> feeds s = 0"
proof -
  obtain ss r' where "fill n (lorem_sentence_gen b) r = Some (ss, r')" "int (length ss) = n"
      "\<forall>j < length ss. lorem_sentence (ss ! j)"
    using sentence.fill_total [where p = b and count = n and r = r] assms by auto
  then show ?thesis using sentences_counts [of ss] by (simp add: generateLoremSentences_def)
qed

interpretation para: generator "\<lambda>_. True" lorem_paragraph_gen
  "\<lambda>b i s. 3 \<le> dots s \<and> dots s \<le> 7 \<and> feeds s = 0"
proof unfold_locales
  fix p :: bool and i :: nat and r :: rng
  obtain n r1 where n: "rand_IntN 5 r = Some (n, r1)" "0 \<le> n" "n < 5"
    using rand_IntN_total [of 5 r] by auto
  obtain ss r2 where ss: "fill (3 + n) (lorem_sentence_gen (i = 0 \<and> p)) r1 = Some (ss, r2)"
      "int (length ss) = 3 + n" "\<forall>j < length ss. lorem_sentence (ss ! j)"
    using sentence.fill_total [where p = "i = 0 \<and> p" and count = "3 + n" and r = r1] n by auto
  then show "\<exists>x r'. lorem_paragraph_gen p i r = Some (x, r') \<and>
      3 \<le> dots x \<and> dots x \<le> 7 \<and> feeds x = 0"
    using n sentences_counts [of ss] by (auto simp: lorem_paragraph_gen_def)
qed

lemma paragraphs_counts:
  assumes "\<forall>j < length ps. 3 \<le> dots (ps ! j) \<and> dots (ps ! j) \<le> 7 \<and> feeds (ps ! j) = 0"
  shows "3 * length ps \<le> dots (join paragraph_break ps)"
    "dots (join paragraph_break ps) \<le> 7 * length ps"
    "feeds (join paragraph_break ps) = 2 * (length ps - 1)"
proof -
  have *: "\<forall>p \<in> set ps. 3 \<le> dots p \<and> dots p \<le> 7 \<and> feeds p = 0"
    using assms by (metis in_set_conv_nth)
  then have "3 * length ps \<le> sum_list (map dots ps) \<and> sum_list (map dots ps) \<le> 7 * length ps"
    by (induction ps) auto
  moreover have "sum_list (map feeds ps) = 0" using * sum_list_ones [of ps feeds 0] by simp
  ultimately show "3 * length ps \<le> dots (join paragraph_break ps)"
    "dots (join paragraph_break ps) \<le> 7 * length ps"
    "feeds (join paragraph_break ps) = 2 * (length ps - 1)"
    by (simp_all add: count_join paragraph_break_def)
qed

definition lorem_text :: "int \<times> int \<Rightarrow> go_string \<Rightarrow> bool" where
  "lorem_text = (\<lambda>(paragraphs, sentences) s.
     if sentences > 0 then int (dots s) = sentences \<and> feeds s = 0
     else 3 * paragraphs \<le> int (dots s) \<and> int (dots s) \<le> 7 * paragraphs \<and>
       int (feeds s) = 2 * (paragraphs - 1))"

interpretation lorem: generator "\<lambda>(ps, ss). 0 < ss \<or> 0 < ps" lorem_text_gen
  "\<lambda>p i s. lorem_text p s"
proof unfold_locales
  fix p :: "int \<times> int" and i :: nat and r :: rng
  assume ok: "case p of (ps, ss) \<Rightarrow> 0 < ss \<or> 0 < ps"
  obtain ps ss where p: "p = (ps, ss)" by (cases p)
  show "\<exists>x r'. lorem_text_gen p i r = Some (x, r') \<and> lorem_text p x"
  proof (cases "0 < ss")
    case True
    then show ?thesis using p generateLoremSentences_total [of ss "i = 0" r]
      by (auto simp: lorem_text_gen_def lorem_text_def)
  next
    case False
    with ok p have pos: "0 < ps" by simp
    then obtain xs r' where "fill ps (lorem_paragraph_gen (i = 0)) r = Some (xs, r')"
        "int (length xs) = ps"
        "\<forall>j < length xs. 3 \<le> dots (xs ! j) \<and> dots (xs ! j) \<le> 7 \<and> feeds (xs ! j) = 0"
      using para.fill_total [where p = "i = 0" and count = ps and r = r] by auto
    with False p pos paragraphs_counts [of xs] show ?thesis
      by (auto simp: lorem_text_gen_def lorem_text_def generateLoremParagraphs_def of_nat_diff)
  qed
qed

definition lorem_error :: "int \<Rightarrow> int \<Rightarrow> int \<Rightarrow> sentinel option" where
  "lorem_error count paragraphs sentences =
     (if count < 1 \<or> 10 < count then Some ErrCountOutOfRange
      else if 50 < sentences \<or> sentences \<le> 0 \<and> (paragraphs < 1 \<or> 10 < paragraphs)
        then Some ErrInvalidParam
      else None)"

lemma RandomLorem_outcome:
  "\<exists>res r'. RandomLorem count paragraphs sentences r = Some (res, r') \<and>
    (case lorem_error count paragraphs sentences of
       Some sen \<Rightarrow> (\<exists>e. res = Inl e \<and> error_is e sen) \<and> r' = r
     | None \<Rightarrow> (\<exists>ss. res = Inr ss \<and> int (length ss) = count \<and>
         list_all (lorem_text (paragraphs, sentences)) ss))"
proof (cases "lorem_error count paragraphs sentences")
  case None
  then have ok: "0 \<le> count" "0 < sentences \<or> 0 < paragraphs"
    by (auto simp: lorem_error_def split: if_splits)
  then obtain ss r' where "fill count (lorem_text_gen (paragraphs, sentences)) r = Some (ss, r')"
      "int (length ss) = count" "\<forall>j < length ss. lorem_text (paragraphs, sentences) (ss ! j)"
    using lorem.fill_total [of "(paragraphs, sentences)" count r] by auto
  with None show ?thesis
    by (auto simp: RandomLorem_def lorem_error_def list_all_nth split: if_splits)
next
  case (Some sen)
  then show ?thesis by (auto simp: RandomLorem_def lorem_error_def split: if_splits)
qed

end
