(* ===== verification/Service_Ids.thy ===== *)
theory Service_Ids
  imports Service_Errors
begin

text \<open>
  Identifiers made with third-party libraries: \<open>service/uuid.go\<close> (github.com/google/uuid) and
  \<open>service/sshkey.go\<close> (golang.org/x/crypto/ssh, crypto/ed25519, crypto/rsa, encoding/pem).  The
  libraries are parameters; what the code relies on is stated as a named hypothesis.
\<close>

section \<open>UUIDs\<close>

definition dash_positions :: "nat list" where
  "dash_positions = [8, 13, 18, 23]"

text \<open>The canonical text of a version 4 UUID: 8-4-4-4-12 hex digits, version and variant set.\<close>

definition uuid_text :: "go_string \<Rightarrow> bool" where
  "uuid_text u \<longleftrightarrow> length u = 36 \<and>
     list_all (\<lambda>i. if i \<in> set dash_positions then u ! i = CHR ''-'' else is_hex (u ! i)) [0..<36] \<and>
     u ! 14 = CHR ''4'' \<and> u ! 19 \<in> set ''89ab''"

text \<open>
  \<open>uuid.New().String()\<close> is the parameter \<open>uuid_new\<close>.  The library documents that it makes a
  version 4 UUID and panics only when the entropy source fails, which Go's does not.
\<close>

definition uuid_library :: "(rng \<Rightarrow> (go_string \<times> rng) option) \<Rightarrow> bool" where
  "uuid_library uuid_new \<longleftrightarrow> (\<forall>r. \<exists>u r'. uuid_new r = Some (u, r') \<and> uuid_text u)"

definition validUUIDFormats :: "go_string list" where
  "validUUIDFormats = [''standard'', ''no-dashes'', ''urn'']"

definition uuid_in_format ::
  "(rng \<Rightarrow> (go_string \<times> rng) option) \<times> go_string \<Rightarrow> go_string gen" where
  "uuid_in_format = (\<lambda>(uuid_new, format) i r. do {
     (u, r') \<leftarrow> uuid_new r;
     Some (if format = ''standard'' then u
           else if format = ''no-dashes'' then filter (\<lambda>c. c \<noteq> CHR ''-'') u
           else if format = ''urn'' then ''urn:uuid:'' @ u
           else [], r')
   })"

definition GenerateUUIDs ::
  "(rng \<Rightarrow> (go_string \<times> rng) option) \<Rightarrow> int \<Rightarrow> go_string \<Rightarrow> go_string list service" where
  "GenerateUUIDs uuid_new count format =
     (if format \<notin> set validUUIDFormats then
        fails (Errorf ErrInvalidFormat
          [Lit ''format must be one of standard, no-dashes, urn; got '', Q format])
      else if count < 1 \<or> count > 100 then fails (count_error 100 count)
      else returns (fill count (uuid_in_format (uuid_new, format))))"

definition uuid_shape :: "go_string \<Rightarrow> go_string \<Rightarrow> bool" where
  "uuid_shape format s \<longleftrightarrow>
     (if format = ''no-dashes'' then length s = 32 \<and> list_all is_hex s
      else if format = ''urn'' then has_prefix s ''urn:uuid:'' \<and> uuid_text (drop 9 s)
      else uuid_text s)"

lemma uuid_cut:
  assumes "length u = 36"
  shows "u = take 8 u @ u ! 8 # take 4 (drop 9 u) @ u ! 13 # take 4 (drop 14 u) @ u ! 18 #
    take 4 (drop 19 u) @ u ! 23 # drop 24 u" (is "u = ?v")
proof -
  have cut: "drop a u = take n (drop a u) @ drop (a + n) u" for a n
    by (metis append_take_drop_id drop_drop add.commute)
  have el: "drop a u = u ! a # drop (Suc a) u" if "a < 36" for a
    using that assms by (simp add: Cons_nth_drop_Suc)
  have "u = take 8 u @ drop 8 u" by simp
  also have "drop 8 u = u ! 8 # drop 9 u" using el [of 8] by simp
  also have "drop 9 u = take 4 (drop 9 u) @ drop 13 u" using cut [of 9 4] by simp
  also have "drop 13 u = u ! 13 # drop 14 u" using el [of 13] by simp
  also have "drop 14 u = take 4 (drop 14 u) @ drop 18 u" using cut [of 14 4] by simp
  also have "drop 18 u = u ! 18 # drop 19 u" using el [of 18] by simp
  also have "drop 19 u = take 4 (drop 19 u) @ drop 23 u" using cut [of 19 4] by simp
  also have "drop 23 u = u ! 23 # drop 24 u" using el [of 23] by simp
  finally show ?thesis by simp
qed

lemma filter_hex: "list_all is_hex s \<Longrightarrow> filter (\<lambda>c. c \<noteq> CHR ''-'') s = s"
  by (induction s) (auto simp: is_hex_def)

lemma uuid_no_dashes:
  assumes "uuid_text u"
  shows "length (filter (\<lambda>c. c \<noteq> CHR ''-'') u) = 32"
    "list_all is_hex (filter (\<lambda>c. c \<noteq> CHR ''-'') u)"
proof -
  have u: "length u = 36" and at: "\<And>i. i < 36 \<Longrightarrow>
      if i \<in> set dash_positions then u ! i = CHR ''-'' else is_hex (u ! i)"
    using assms by (auto simp: uuid_text_def list_all_iff)
  have hex: "list_all is_hex (take n (drop k u))"
    if "k + n \<le> 36" "\<forall>i. k \<le> i \<longrightarrow> i < k + n \<longrightarrow> i \<notin> set dash_positions" for k n
  proof -
    have "is_hex (u ! (k + j))" if "j < n" for j
      using at [of "k + j"] that \<open>k + n \<le> 36\<close>
        \<open>\<forall>i. k \<le> i \<longrightarrow> i < k + n \<longrightarrow> i \<notin> set dash_positions\<close> by auto
    then show ?thesis using u that(1) by (simp add: list_all_nth)
  qed
  define parts where "parts = take 8 u @ take 4 (drop 9 u) @ take 4 (drop 14 u) @
    take 4 (drop 19 u) @ drop 24 u"
  have "list_all is_hex (take 8 (drop 0 u))" "list_all is_hex (take 4 (drop 9 u))"
      "list_all is_hex (take 4 (drop 14 u))" "list_all is_hex (take 4 (drop 19 u))"
      "list_all is_hex (take 12 (drop 24 u))"
    by (rule hex; auto simp: dash_positions_def)+
  then have h: "list_all is_hex parts" "length parts = 32"
    using u by (simp_all add: parts_def)
  have dash: "u ! 8 = CHR ''-''" "u ! 13 = CHR ''-''" "u ! 18 = CHR ''-''" "u ! 23 = CHR ''-''"
    using at [of 8] at [of 13] at [of 18] at [of 23] by (simp_all add: dash_positions_def)
  have "filter (\<lambda>c. c \<noteq> CHR ''-'') u = filter (\<lambda>c. c \<noteq> CHR ''-'') parts"
    by (subst uuid_cut [OF u]) (simp add: dash parts_def)
  then show "length (filter (\<lambda>c. c \<noteq> CHR ''-'') u) = 32"
    "list_all is_hex (filter (\<lambda>c. c \<noteq> CHR ''-'') u)"
    using h by (simp_all add: filter_hex)
qed

interpretation uuids: generator
  "\<lambda>(uuid_new, format). uuid_library uuid_new \<and> format \<in> set validUUIDFormats" uuid_in_format
  "\<lambda>(uuid_new, format) i s. uuid_shape format s"
proof unfold_locales
  fix p :: "(rng \<Rightarrow> (go_string \<times> rng) option) \<times> go_string" and i :: nat and r :: rng
  assume ok: "case p of (uuid_new, format) \<Rightarrow>
    uuid_library uuid_new \<and> format \<in> set validUUIDFormats"
  obtain uuid_new format where p: "p = (uuid_new, format)" by (cases p)
  have lib: "uuid_library uuid_new" using ok p by simp
  obtain u r' where u: "uuid_new r = Some (u, r')" "uuid_text u"
    using lib unfolding uuid_library_def by blast
  with ok p uuid_no_dashes [OF u(2)] show "\<exists>x r'. uuid_in_format p i r = Some (x, r') \<and>
      (case p of (uuid_new, format) \<Rightarrow> \<lambda>i s. uuid_shape format s) i x"
    by (auto simp: uuid_in_format_def uuid_shape_def validUUIDFormats_def has_prefix_def)
qed

lemma GenerateUUIDs_outcome:
  assumes "uuid_library uuid_new"
  shows "\<exists>res r'. GenerateUUIDs uuid_new count format r = Some (res, r') \<and>
    (case res of
       Inl e \<Rightarrow> r' = r \<and>
         (if format \<notin> set validUUIDFormats then error_is e ErrInvalidFormat
          else (count < 1 \<or> 100 < count) \<and> error_is e ErrCountOutOfRange)
     | Inr us \<Rightarrow> format \<in> set validUUIDFormats \<and> 1 \<le> count \<and> count \<le> 100 \<and>
         int (length us) = count \<and> list_all (uuid_shape format) us)"
proof (cases "format \<in> set validUUIDFormats \<and> 1 \<le> count \<and> count \<le> 100")
  case True
  then obtain us r' where "fill count (uuid_in_format (uuid_new, format)) r = Some (us, r')"
      "int (length us) = count" "\<forall>j < length us. uuid_shape format (us ! j)"
    using uuids.fill_total [of "(uuid_new, format)" count r] assms by auto
  with True show ?thesis by (auto simp: GenerateUUIDs_def list_all_nth)
next
  case False
  then show ?thesis by (auto simp: GenerateUUIDs_def)
qed

section \<open>SSH keys\<close>

record SSHKeyPair =
  PrivateKey :: go_string
  PublicKey :: go_string
  Fingerprint :: go_string

text \<open>
  What the key functions call, for a type \<open>'k\<close> of key pairs and a type \<open>'p\<close> of SSH public keys:
  \<open>ed25519.GenerateKey\<close>, \<open>rsa.GenerateKey\<close>, \<open>gossh.MarshalPrivateKey\<close> followed by
  \<open>pem.EncodeToMemory\<close>, \<open>x509.MarshalPKCS1PrivateKey\<close> followed by \<open>pem.EncodeToMemory\<close>,
  \<open>gossh.NewPublicKey\<close>, \<open>gossh.MarshalAuthorizedKey\<close> and \<open>gossh.FingerprintSHA256\<close>.
\<close>

record ('k, 'p) ssh_library =
  ed25519_GenerateKey :: "rng \<Rightarrow> (go_string + 'k) \<times> rng"
  rsa_GenerateKey :: "int \<Rightarrow> rng \<Rightarrow> (go_string + 'k) \<times> rng"
  OpenSSH_PEM :: "'k \<Rightarrow> go_string + go_string"
  PKCS1_PEM :: "'k \<Rightarrow> go_string"
  NewPublicKey :: "'k \<Rightarrow> go_string + 'p"
  MarshalAuthorizedKey :: "'p \<Rightarrow> go_string"
  FingerprintSHA256 :: "'p \<Rightarrow> go_string"

text \<open>\<open>line[:len(line)-1]\<close> panics on an empty line.\<close>

definition publicKeyString ::
  "('k, 'p) ssh_library \<Rightarrow> 'p \<Rightarrow> go_string \<Rightarrow> go_string option" where
  "publicKeyString lib pub comment =
     (let line = MarshalAuthorizedKey lib pub in
      if line = [] then None
      else Some (butlast line @ (if comment \<noteq> [] then '' '' @ comment else []) @ [CHR 0x0A]))"

definition key_pair ::
  "('k, 'p) ssh_library \<Rightarrow> go_string \<Rightarrow> 'p \<Rightarrow> go_string \<Rightarrow> SSHKeyPair option" where
  "key_pair lib privPEM pub comment = do {
     line \<leftarrow> publicKeyString lib pub comment;
     Some \<lparr>PrivateKey = privPEM, PublicKey = line, Fingerprint = FingerprintSHA256 lib pub\<rparr>
   }"

definition generateEd25519 :: "('k, 'p) ssh_library \<Rightarrow> go_string \<Rightarrow> SSHKeyPair service" where
  "generateEd25519 lib comment r =
     (case ed25519_GenerateKey lib r of
        (Inl err, r') \<Rightarrow> Some (Inl (Library err), r')
      | (Inr priv, r') \<Rightarrow>
          (case OpenSSH_PEM lib priv of
             Inl err \<Rightarrow> Some (Inl (Library err), r')
           | Inr privPEM \<Rightarrow>
               (case NewPublicKey lib priv of
                  Inl err \<Rightarrow> Some (Inl (Library err), r')
                | Inr pubKey \<Rightarrow> do {
                    kp \<leftarrow> key_pair lib privPEM pubKey comment;
                    Some (Inr kp, r')
                  })))"

definition generateRSA :: "('k, 'p) ssh_library \<Rightarrow> int \<Rightarrow> go_string \<Rightarrow> SSHKeyPair service" where
  "generateRSA lib bits comment r =
     (case rsa_GenerateKey lib bits r of
        (Inl err, r') \<Rightarrow> Some (Inl (Library err), r')
      | (Inr priv, r') \<Rightarrow>
          (case NewPublicKey lib priv of
             Inl err \<Rightarrow> Some (Inl (Library err), r')
           | Inr pubKey \<Rightarrow> do {
               kp \<leftarrow> key_pair lib (PKCS1_PEM lib priv) pubKey comment;
               Some (Inr kp, r')
             }))"

definition generateSSHKeyPair ::
  "('k, 'p) ssh_library \<Rightarrow> go_string \<Rightarrow> int \<Rightarrow> go_string \<Rightarrow> SSHKeyPair service" where
  "generateSSHKeyPair lib keyType bits comment =
     (if keyType = ''ed25519'' then generateEd25519 lib comment
      else if keyType = ''rsa'' then generateRSA lib bits comment
      else fails (Plain ErrInvalidKeyType))"

definition numbered_key_pair ::
  "('k, 'p) ssh_library \<times> go_string \<times> int \<times> go_string \<Rightarrow> (service_error + SSHKeyPair) gen" where
  "numbered_key_pair = (\<lambda>(lib, keyType, bits, comment) i r. do {
     (kp, r') \<leftarrow> generateSSHKeyPair lib keyType bits comment r;
     Some (case kp of
             Inl err \<Rightarrow> Inl (Wrap [Lit ''generating keypair '', D (int i + 1)] err)
           | Inr kp \<Rightarrow> Inr kp, r')
   })"

definition GenerateSSHKeys ::
  "('k, 'p) ssh_library \<Rightarrow> int \<Rightarrow> go_string \<Rightarrow> int \<Rightarrow> go_string \<Rightarrow> SSHKeyPair list service" where
  "GenerateSSHKeys lib count keyType bits comment =
     (if keyType \<noteq> ''ed25519'' \<and> keyType \<noteq> ''rsa'' then
        fails (Errorf ErrInvalidKeyType
          [Lit ''key type must be ed25519 or rsa; got '', Q keyType])
      else if keyType = ''rsa'' \<and> bits \<noteq> 2048 \<and> bits \<noteq> 4096 then
        fails (Errorf ErrInvalidKeyBits [Lit ''RSA bits must be 2048 or 4096; got '', D bits])
      else if length comment > 128 then
        fails (Errorf ErrInvalidParam
          [Lit ''comment must be at most 128 characters; got '', D (int (length comment))])
      else if count < 1 \<or> count > 5 then fails (count_error 5 count)
      else try_fill count (numbered_key_pair (lib, keyType, bits, comment)))"

text \<open>
  The library writes an authorized key as one line that ends with its only line feed.
\<close>

definition ssh_library_lines :: "('k, 'p) ssh_library \<Rightarrow> bool" where
  "ssh_library_lines lib \<longleftrightarrow>
     (\<forall>pub. \<exists>t. MarshalAuthorizedKey lib pub = t @ [CHR 0x0A] \<and> CHR 0x0A \<notin> set t)"

text \<open>What the public key of a pair looks like: the library's line with the comment appended.\<close>

definition public_line :: "('k, 'p) ssh_library \<Rightarrow> go_string \<Rightarrow> go_string \<Rightarrow> bool" where
  "public_line lib comment s \<longleftrightarrow>
     (\<exists>pub t. MarshalAuthorizedKey lib pub = t @ [CHR 0x0A] \<and>
        s = t @ (if comment = [] then [] else CHR '' '' # comment) @ [CHR 0x0A])"

lemma publicKeyString_line:
  assumes "ssh_library_lines lib"
  shows "\<exists>s. publicKeyString lib pub comment = Some s \<and> public_line lib comment s"
proof -
  obtain t where "MarshalAuthorizedKey lib pub = t @ [CHR 0x0A]"
    using assms by (auto simp: ssh_library_lines_def)
  then show ?thesis by (auto simp: publicKeyString_def public_line_def)
qed

lemma key_pair_total:
  assumes "ssh_library_lines lib"
  shows "\<exists>kp. key_pair lib pem pub comment = Some kp \<and> public_line lib comment (PublicKey kp)"
  using publicKeyString_line [OF assms, of pub comment] by (auto simp: key_pair_def)

definition pair_outcome ::
  "('k, 'p) ssh_library \<Rightarrow> go_string \<Rightarrow> ((service_error + SSHKeyPair) \<times> rng) option \<Rightarrow> bool" where
  "pair_outcome lib comment res \<longleftrightarrow>
     (\<exists>kp r'. res = Some (kp, r') \<and> (\<forall>k. kp = Inr k \<longrightarrow> public_line lib comment (PublicKey k)))"

lemma pair_outcome_error: "pair_outcome lib comment (Some (Inl e, r'))"
  by (simp add: pair_outcome_def)

lemma pair_outcome_key_pair:
  assumes "ssh_library_lines lib"
  shows "pair_outcome lib comment (key_pair lib pem pub comment \<bind> (\<lambda>kp. Some (Inr kp, r')))"
  using key_pair_total [OF assms, of pem pub comment] by (auto simp: pair_outcome_def)

lemma generateSSHKeyPair_outcome:
  assumes "ssh_library_lines lib"
  shows "pair_outcome lib comment (generateSSHKeyPair lib keyType bits comment r)"
  unfolding generateSSHKeyPair_def generateEd25519_def generateRSA_def
  by (simp add: pair_outcome_error pair_outcome_key_pair [OF assms] split: prod.split sum.split)

interpretation sshkeys: fallible_generator
  "\<lambda>(lib, keyType, bits, comment). ssh_library_lines lib" numbered_key_pair
  "\<lambda>(lib, keyType, bits, comment) i kp. public_line lib comment (PublicKey kp)"
  "\<lambda>p e. \<exists>ps e'. e = Wrap ps e'"
proof unfold_locales
  fix p :: "('k, 'p) ssh_library \<times> go_string \<times> int \<times> go_string" and i :: nat and r :: rng
  assume ok: "case p of (lib, keyType, bits, comment) \<Rightarrow> ssh_library_lines lib"
  obtain lib keyType bits comment where p: "p = (lib, keyType, bits, comment)" by (cases p)
  obtain kp r' where kp: "generateSSHKeyPair lib keyType bits comment r = Some (kp, r')"
      "\<forall>k. kp = Inr k \<longrightarrow> public_line lib comment (PublicKey k)"
    using generateSSHKeyPair_outcome [of lib comment keyType bits r] ok p
    by (auto simp: pair_outcome_def)
  with p show "\<exists>x r'. numbered_key_pair p i r = Some (x, r') \<and>
      (case x of Inl e \<Rightarrow> \<exists>ps e'. e = Wrap ps e'
       | Inr a \<Rightarrow> (case p of (lib, keyType, bits, comment) \<Rightarrow>
           \<lambda>i kp. public_line lib comment (PublicKey kp)) i a)"
    by (cases kp) (auto simp: numbered_key_pair_def)
qed

definition ssh_error :: "int \<Rightarrow> go_string \<Rightarrow> int \<Rightarrow> go_string \<Rightarrow> sentinel option" where
  "ssh_error count keyType bits comment =
     (if keyType \<notin> {''ed25519'', ''rsa''} then Some ErrInvalidKeyType
      else if keyType = ''rsa'' \<and> bits \<notin> {2048, 4096} then Some ErrInvalidKeyBits
      else if 128 < length comment then Some ErrInvalidParam
      else if count < 1 \<or> 5 < count then Some ErrCountOutOfRange
      else None)"

lemma GenerateSSHKeys_outcome:
  assumes "ssh_library_lines lib"
  shows "\<exists>res r'. GenerateSSHKeys lib count keyType bits comment r = Some (res, r') \<and>
    (case ssh_error count keyType bits comment of
       Some sen \<Rightarrow> (\<exists>e. res = Inl e \<and> error_is e sen) \<and> r' = r
     | None \<Rightarrow>
         (case res of
            Inl e \<Rightarrow> \<exists>ps e'. e = Wrap ps e'
          | Inr kps \<Rightarrow> int (length kps) = count \<and>
              list_all (\<lambda>kp. public_line lib comment (PublicKey kp)) kps))"
proof (cases "ssh_error count keyType bits comment")
  case None
  then have "0 \<le> count" by (auto simp: ssh_error_def split: if_splits)
  then obtain res r' where
      "try_fill count (numbered_key_pair (lib, keyType, bits, comment)) r = Some (res, r')"
      "case res of Inl e \<Rightarrow> \<exists>ps e'. e = Wrap ps e'
       | Inr kps \<Rightarrow> int (length kps) = count \<and>
           (\<forall>j < length kps. public_line lib comment (PublicKey (kps ! j)))"
    using sshkeys.try_fill_outcome [of "(lib, keyType, bits, comment)" count r] assms by auto
  with None show ?thesis
    by (cases res) (auto simp: GenerateSSHKeys_def ssh_error_def list_all_nth split: if_splits)
next
  case (Some sen)
  then show ?thesis by (auto simp: GenerateSSHKeys_def ssh_error_def split: if_splits)
qed

end
