(* ===== verification/Service_Float.thy ===== *)
theory Service_Float
  imports Service_Errors Complex_Main
begin

text \<open>
  The endpoints that compute with \<open>float64\<close>: \<open>RandomFloats\<close> of \<open>service/number.go\<close>,
  \<open>service/color.go\<close> and \<open>service/coordinates.go\<close>.  Every finite \<open>float64\<close> is a rational number;
  an operation is the exact one followed by the rounding \<open>rnd\<close> of the machine, a parameter, and Go
  may fuse a product with the sum that uses it, \<open>fused\<close>.  The numbers of these functions stay far
  from overflow.
\<close>

record float64 =
  rnd :: "rat \<Rightarrow> rat"
  fused :: bool

text \<open>\<open>x * y + z\<close>.\<close>

definition muladd :: "float64 \<Rightarrow> rat \<Rightarrow> rat \<Rightarrow> rat \<Rightarrow> rat" where
  "muladd fl x y z = (if fused fl then rnd fl (x * y + z) else rnd fl (rnd fl (x * y) + z))"

text \<open>\<open>rand.Float64()\<close>: a multiple of \<open>2\<^sup>-\<^sup>5\<^sup>3\<close> below one.\<close>

definition rand_Float64 :: "rng \<Rightarrow> rat \<times> rng" where
  "rand_Float64 r = (of_nat (draws r (cursor r) mod 2 ^ 53) / 2 ^ 53, advance 1 r)"

section \<open>Numbers\<close>

definition random_float :: "float64 \<times> rat \<times> rat \<Rightarrow> rat gen" where
  "random_float = (\<lambda>(fl, lo, hi) i r.
     let (u, r') = rand_Float64 r in Some (muladd fl u (rnd fl (hi - lo)) lo, r'))"

definition RandomFloats :: "float64 \<Rightarrow> rat \<Rightarrow> rat \<Rightarrow> int \<Rightarrow> rat list service" where
  "RandomFloats fl lo hi count =
     (if lo > hi then fails (Plain ErrMinGreaterThanMax)
      else if count < 1 \<or> count > 100 then fails (count_error 100 count)
      else returns (fill count (random_float (fl, lo, hi))))"

section \<open>Colors\<close>

definition validColorFormats :: "go_string list" where
  "validColorFormats = [''hex'', ''rgb'', ''hsl'']"

text \<open>\<open>int(x)\<close>: truncation towards zero.\<close>

definition trunc :: "rat \<Rightarrow> int" where
  "trunc x = (if 0 \<le> x then \<lfloor>x\<rfloor> else \<lceil>x\<rceil>)"

definition abs64 :: "rat \<Rightarrow> rat" where
  "abs64 x = (if x < 0 then - x else x)"

definition rgbToHSL :: "float64 \<Rightarrow> int \<Rightarrow> int \<Rightarrow> int \<Rightarrow> int \<times> int \<times> int" where
  "rgbToHSL fl r g b =
     (let rf = rnd fl (of_int r / 255);
          gf = rnd fl (of_int g / 255);
          bf = rnd fl (of_int b / 255);
          max1 = (if gf > rf then gf else rf);
          maxV = (if bf > max1 then bf else max1);
          min1 = (if gf < rf then gf else rf);
          minV = (if bf < min1 then bf else min1);
          l = rnd fl (rnd fl (maxV + minV) / 2)
      in if maxV = minV then (0, 0, trunc (rnd fl (l * 100)))
         else
           (let d = rnd fl (maxV - minV);
                s = rnd fl (d / rnd fl (1 - abs64 (muladd fl 2 l (- 1))));
                h = (if maxV = rf then
                       (let h0 = rnd fl (rnd fl (gf - bf) / d)
                        in if gf < bf then rnd fl (h0 + 6) else h0)
                     else if maxV = gf then rnd fl (rnd fl (rnd fl (bf - rf) / d) + 2)
                     else rnd fl (rnd fl (rnd fl (rf - gf) / d) + 4));
                h' = rnd fl (h / 6)
            in (trunc (rnd fl (h' * 360)), trunc (rnd fl (s * 100)), trunc (rnd fl (l * 100)))))"

text \<open>\<open>%02x\<close> of a number below 256.\<close>

definition hex2 :: "int \<Rightarrow> go_string" where
  "hex2 n = hex_byte (of_int n)"

definition color_text :: "float64 \<Rightarrow> go_string \<Rightarrow> int \<Rightarrow> int \<Rightarrow> int \<Rightarrow> go_string" where
  "color_text fl format r g b =
     (if format = ''hex'' then CHR ''#'' # hex2 r @ hex2 g @ hex2 b
      else if format = ''rgb'' then
        ''rgb('' @ itoa r @ '', '' @ itoa g @ '', '' @ itoa b @ '')''
      else if format = ''hsl'' then
        (let (h, s, l) = rgbToHSL fl r g b
         in ''hsl('' @ itoa h @ '', '' @ itoa s @ ''%, '' @ itoa l @ ''%)'')
      else [])"

definition random_color :: "float64 \<times> go_string \<Rightarrow> go_string gen" where
  "random_color = (\<lambda>(fl, format) i rn. do {
     (r, rn1) \<leftarrow> rand_IntN 256 rn;
     (g, rn2) \<leftarrow> rand_IntN 256 rn1;
     (b, rn3) \<leftarrow> rand_IntN 256 rn2;
     Some (color_text fl format r g b, rn3)
   })"

definition RandomColors :: "float64 \<Rightarrow> int \<Rightarrow> go_string \<Rightarrow> go_string list service" where
  "RandomColors fl count format =
     (if format \<notin> set validColorFormats then
        fails (Errorf ErrInvalidColorFormat
          [Lit ''format must be one of hex, rgb, hsl; got '', Q format])
      else if count < 1 \<or> count > 100 then fails (count_error 100 count)
      else returns (fill count (random_color (fl, format))))"

section \<open>Coordinates\<close>

record Coordinate =
  Lat :: rat
  Lon :: rat

definition randomCoordinate :: "float64 \<Rightarrow> rng \<Rightarrow> Coordinate \<times> rng" where
  "randomCoordinate fl r =
     (let (u, r1) = rand_Float64 r; (v, r2) = rand_Float64 r1
      in (\<lparr>Lat = muladd fl u 180 (- 90), Lon = muladd fl v 360 (- 180)\<rparr>, r2))"

record bbox =
  latMin :: rat
  latMax :: rat
  lonMin :: rat
  lonMax :: rat

definition landBoxes :: "bbox list" where
  "landBoxes =
     [\<lparr>latMin = 35, latMax = 72, lonMin = - 10, lonMax = 60\<rparr>,
      \<lparr>latMin = - 35, latMax = 38, lonMin = - 18, lonMax = 52\<rparr>,
      \<lparr>latMin = 5, latMax = 78, lonMin = 60, lonMax = 180\<rparr>,
      \<lparr>latMin = - 45, latMax = - 10, lonMin = 110, lonMax = 155\<rparr>,
      \<lparr>latMin = 15, latMax = 75, lonMin = - 170, lonMax = - 50\<rparr>,
      \<lparr>latMin = - 55, latMax = 15, lonMin = - 82, lonMax = - 34\<rparr>]"

text \<open>The loop of \<open>randomLandCoordinate\<close> returns in its first iteration.\<close>

definition randomLandCoordinate :: "float64 \<Rightarrow> rng \<Rightarrow> (Coordinate \<times> rng) option" where
  "randomLandCoordinate fl r = do {
     (i, r1) \<leftarrow> rand_IntN (int (length landBoxes)) r;
     let box = landBoxes ! nat i;
     let (u, r2) = rand_Float64 r1;
     let lat = muladd fl u (rnd fl (latMax box - latMin box)) (latMin box);
     let (v, r3) = rand_Float64 r2;
     let lon = muladd fl v (rnd fl (lonMax box - lonMin box)) (lonMin box);
     Some (\<lparr>Lat = lat, Lon = lon\<rparr>, r3)
   }"

definition coordinate_gen :: "float64 \<times> bool \<Rightarrow> Coordinate gen" where
  "coordinate_gen = (\<lambda>(fl, landOnly) i r.
     if landOnly then randomLandCoordinate fl r else Some (randomCoordinate fl r))"

definition RandomCoordinates :: "float64 \<Rightarrow> int \<Rightarrow> bool \<Rightarrow> Coordinate list service" where
  "RandomCoordinates fl count landOnly =
     (if count < 1 \<or> count > 100 then fails (count_error 100 count)
      else returns (fill count (coordinate_gen (fl, landOnly))))"

section \<open>The ranges\<close>

text \<open>
  What the range theorems use of the rounding: it is monotone and leaves whole numbers that fit 53
  bits alone.
\<close>

definition rounds :: "float64 \<Rightarrow> bool" where
  "rounds fl \<longleftrightarrow> (\<forall>x y. x \<le> y \<longrightarrow> rnd fl x \<le> rnd fl y) \<and>
     (\<forall>k. \<bar>k\<bar> \<le> 2 ^ 53 \<longrightarrow> rnd fl (of_int k) = of_int k)"

lemma rounds_mono: "rounds fl \<Longrightarrow> x \<le> y \<Longrightarrow> rnd fl x \<le> rnd fl y"
  by (simp add: rounds_def)

lemma rounds_int: "rounds fl \<Longrightarrow> \<bar>k\<bar> \<le> 2 ^ 53 \<Longrightarrow> rnd fl (of_int k) = of_int k"
  by (simp add: rounds_def)

lemma rand_Float64_range: "0 \<le> fst (rand_Float64 r)" "fst (rand_Float64 r) \<le> 1"
proof -
  have "draws r (cursor r) mod 2 ^ 53 \<le> 2 ^ 53" by (simp add: less_imp_le)
  then have "(of_nat (draws r (cursor r) mod 2 ^ 53) :: rat) \<le> of_nat (2 ^ 53)"
    by (simp only: of_nat_le_iff)
  then show "fst (rand_Float64 r) \<le> 1" by (simp add: rand_Float64_def)
qed (simp add: rand_Float64_def)

text \<open>A point of an interval with whole ends that fit, cut at a fraction.\<close>

lemma muladd_range:
  assumes fl: "rounds fl" and u: "0 \<le> u" "u \<le> 1"
    and k: "\<bar>lo\<bar> \<le> 2 ^ 52" "\<bar>hi\<bar> \<le> 2 ^ 52" "lo \<le> hi"
  shows "of_int lo \<le> muladd fl u (of_int (hi - lo)) (of_int lo)"
    and "muladd fl u (of_int (hi - lo)) (of_int lo) \<le> of_int hi"
proof -
  let ?d = "of_int (hi - lo) :: rat" and ?p = "u * of_int (hi - lo)"
  have d: "0 \<le> ?d" using k(3) by (simp only: of_int_0_le_iff)
  have p: "0 \<le> ?p" "?p \<le> ?d"
    using u d by (simp_all add: mult_left_le_one_le del: of_int_diff)
  have ex: "rnd fl 0 = 0" "rnd fl ?d = ?d" "rnd fl (of_int lo) = of_int lo" "rnd fl (of_int hi) = of_int hi"
    using rounds_int [OF fl, of 0] rounds_int [OF fl, of "hi - lo"] rounds_int [OF fl, of lo]
      rounds_int [OF fl, of hi] k by simp_all
  have q: "0 \<le> rnd fl ?p" "rnd fl ?p \<le> ?d"
    using rounds_mono [OF fl p(1)] rounds_mono [OF fl p(2)] ex(1,2) by simp_all
  have b: "of_int lo \<le> rnd fl (x + of_int lo)" "rnd fl (x + of_int lo) \<le> of_int hi"
    if "0 \<le> x" "x \<le> ?d" for x
    using rounds_mono [OF fl, of "of_int lo" "x + of_int lo"]
      rounds_mono [OF fl, of "x + of_int lo" "of_int hi"] that ex(3,4) by simp_all
  show "of_int lo \<le> muladd fl u ?d (of_int lo)"
    using b(1) [OF p] b(1) [OF q] by (simp add: muladd_def del: of_int_diff)
  show "muladd fl u ?d (of_int lo) \<le> of_int hi"
    using b(2) [OF p] b(2) [OF q] by (simp add: muladd_def del: of_int_diff)
qed

definition small_interval :: "int \<Rightarrow> int \<Rightarrow> bool" where
  "small_interval lo hi \<longleftrightarrow> lo \<le> hi \<and> \<bar>lo\<bar> \<le> 2 ^ 52 \<and> \<bar>hi\<bar> \<le> 2 ^ 52"

interpretation floats: generator
  "\<lambda>(fl, lo, hi). rounds fl \<and> (\<exists>a b. lo = of_int a \<and> hi = of_int b \<and> small_interval a b)"
  random_float "\<lambda>(fl, lo, hi) i x. lo \<le> x \<and> x \<le> hi"
proof unfold_locales
  fix p :: "float64 \<times> rat \<times> rat" and i :: nat and r :: rng
  assume ok: "case p of (fl, lo, hi) \<Rightarrow>
    rounds fl \<and> (\<exists>a b. lo = of_int a \<and> hi = of_int b \<and> small_interval a b)"
  obtain fl a b where p: "p = (fl, of_int a, of_int b)" and fl: "rounds fl"
      and ab: "small_interval a b"
    using ok by (cases p) auto
  have "rnd fl (of_int (b - a)) = of_int (b - a)"
    by (rule rounds_int [OF fl]) (use ab in \<open>simp add: small_interval_def; linarith\<close>)
  then show "\<exists>x r'. random_float p i r = Some (x, r') \<and>
      (case p of (fl, lo, hi) \<Rightarrow> \<lambda>i x. lo \<le> x \<and> x \<le> hi) i x"
    using muladd_range [OF fl rand_Float64_range, of a b r] ab p
    by (simp add: random_float_def Let_def case_prod_beta small_interval_def)
qed

lemma RandomFloats_outcome:
  assumes "rounds fl" "\<bar>lo\<bar> \<le> 2 ^ 52" "\<bar>hi\<bar> \<le> 2 ^ 52"
  shows "\<exists>res r'. RandomFloats fl (of_int lo) (of_int hi) count r = Some (res, r') \<and>
    (case res of
       Inl e \<Rightarrow> r' = r \<and> (if hi < lo then e = Plain ErrMinGreaterThanMax
         else (count < 1 \<or> 100 < count) \<and> error_is e ErrCountOutOfRange)
     | Inr xs \<Rightarrow> lo \<le> hi \<and> 1 \<le> count \<and> count \<le> 100 \<and> int (length xs) = count \<and>
         list_all (\<lambda>x. of_int lo \<le> x \<and> x \<le> of_int hi) xs)"
proof (cases "lo \<le> hi \<and> 1 \<le> count \<and> count \<le> 100")
  case True
  then have "small_interval lo hi" using assms by (simp add: small_interval_def)
  then obtain xs r' where "fill count (random_float (fl, of_int lo, of_int hi)) r = Some (xs, r')"
      "int (length xs) = count" "\<forall>j < length xs. of_int lo \<le> xs ! j \<and> xs ! j \<le> of_int hi"
    using floats.fill_total [of "(fl, of_int lo, of_int hi)" count r] assms(1) True by auto
  with True show ?thesis by (auto simp: RandomFloats_def list_all_nth)
next
  case False
  then show ?thesis by (auto simp: RandomFloats_def)
qed

text \<open>Coordinates: on the globe, and inside one of the boxes when land is asked for.\<close>

definition on_globe :: "Coordinate \<Rightarrow> bool" where
  "on_globe c \<longleftrightarrow> - 90 \<le> Lat c \<and> Lat c \<le> 90 \<and> - 180 \<le> Lon c \<and> Lon c \<le> 180"

definition in_box :: "Coordinate \<Rightarrow> bbox \<Rightarrow> bool" where
  "in_box c b \<longleftrightarrow> latMin b \<le> Lat c \<and> Lat c \<le> latMax b \<and> lonMin b \<le> Lon c \<and> Lon c \<le> lonMax b"

definition whole_box :: "bbox \<Rightarrow> bool" where
  "whole_box b \<longleftrightarrow> (\<exists>p q s t. b = \<lparr>latMin = of_int p, latMax = of_int q, lonMin = of_int s,
     lonMax = of_int t\<rparr> \<and> - 90 \<le> p \<and> p \<le> q \<and> q \<le> 90 \<and> - 180 \<le> s \<and> s \<le> t \<and> t \<le> 180)"

lemma whole_boxI:
  "- 90 \<le> p \<Longrightarrow> p \<le> q \<Longrightarrow> q \<le> 90 \<Longrightarrow> - 180 \<le> s \<Longrightarrow> s \<le> t \<Longrightarrow> t \<le> 180 \<Longrightarrow>
   whole_box \<lparr>latMin = of_int p, latMax = of_int q, lonMin = of_int s, lonMax = of_int t\<rparr>"
  unfolding whole_box_def by blast

lemma landBoxes_whole: "b \<in> set landBoxes \<Longrightarrow> whole_box b"
  using whole_boxI [of 35 72 "- 10" 60] whole_boxI [of "- 35" 38 "- 18" 52]
    whole_boxI [of 5 78 60 180] whole_boxI [of "- 45" "- 10" 110 155]
    whole_boxI [of 15 75 "- 170" "- 50"] whole_boxI [of "- 55" 15 "- 82" "- 34"]
  by (auto simp: landBoxes_def)

lemma box_on_globe: "whole_box b \<Longrightarrow> in_box c b \<Longrightarrow> on_globe c"
  unfolding whole_box_def in_box_def on_globe_def
  by clarsimp

lemma muladd_box:
  assumes "rounds fl" "p \<le> q" "- 180 \<le> p" "q \<le> 180"
  shows "of_int p \<le> muladd fl (fst (rand_Float64 r)) (rnd fl (of_int q - of_int p)) (of_int p) \<and>
    muladd fl (fst (rand_Float64 r)) (rnd fl (of_int q - of_int p)) (of_int p) \<le> of_int q"
proof -
  have "rnd fl (of_int (q - p)) = of_int (q - p)"
    by (rule rounds_int [OF assms(1)]) (use assms in simp)
  then show ?thesis
    using muladd_range [OF assms(1) rand_Float64_range, of p q r] assms by simp
qed

interpretation coords: generator "\<lambda>(fl, landOnly). rounds fl" coordinate_gen
  "\<lambda>(fl, landOnly) i c. on_globe c \<and> (landOnly \<longrightarrow> (\<exists>b \<in> set landBoxes. in_box c b))"
proof unfold_locales
  fix p :: "float64 \<times> bool" and i :: nat and r :: rng
  assume ok: "case p of (fl, landOnly) \<Rightarrow> rounds fl"
  obtain fl landOnly where p: "p = (fl, landOnly)" by (cases p)
  have fl: "rounds fl" using ok p by simp
  show "\<exists>c r'. coordinate_gen p i r = Some (c, r') \<and>
      (case p of (fl, landOnly) \<Rightarrow> \<lambda>i c. on_globe c \<and>
        (landOnly \<longrightarrow> (\<exists>b \<in> set landBoxes. in_box c b))) i c"
  proof (cases landOnly)
    case True
    obtain k r1 where k: "rand_IntN (int (length landBoxes)) r = Some (k, r1)" "0 \<le> k"
        "k < int (length landBoxes)"
      using rand_IntN_total [of "int (length landBoxes)" r] by (auto simp: landBoxes_def)
    define b where "b = landBoxes ! nat k"
    have b: "b \<in> set landBoxes" using k by (simp add: b_def)
    obtain c r' where c: "randomLandCoordinate fl r = Some (c, r')"
        "c = \<lparr>Lat = muladd fl (fst (rand_Float64 r1)) (rnd fl (latMax b - latMin b)) (latMin b),
              Lon = muladd fl (fst (rand_Float64 (snd (rand_Float64 r1))))
                (rnd fl (lonMax b - lonMin b)) (lonMin b)\<rparr>"
      using k(1) by (simp add: randomLandCoordinate_def Let_def case_prod_beta b_def)
    have "in_box c b"
      using landBoxes_whole [OF b] muladd_box [OF fl] c(2)
      by (auto simp: whole_box_def in_box_def)
    then show ?thesis using True p c(1) b box_on_globe [OF landBoxes_whole [OF b]]
      by (auto simp: coordinate_gen_def)
  next
    case False
    have "on_globe (fst (randomCoordinate fl r))"
      using muladd_range [OF fl rand_Float64_range, of "- 90" 90 r]
        muladd_range [OF fl rand_Float64_range, of "- 180" 180 "snd (rand_Float64 r)"]
      by (simp add: randomCoordinate_def on_globe_def Let_def case_prod_beta)
    then show ?thesis using False p
      by (cases "randomCoordinate fl r") (auto simp: coordinate_gen_def)
  qed
qed

lemma RandomCoordinates_outcome:
  assumes "rounds fl"
  shows "\<exists>res r'. RandomCoordinates fl count landOnly r = Some (res, r') \<and>
    (case res of
       Inl e \<Rightarrow> r' = r \<and> (count < 1 \<or> 100 < count) \<and> error_is e ErrCountOutOfRange
     | Inr cs \<Rightarrow> 1 \<le> count \<and> count \<le> 100 \<and> int (length cs) = count \<and>
         list_all (\<lambda>c. on_globe c \<and> (landOnly \<longrightarrow> (\<exists>b \<in> set landBoxes. in_box c b))) cs)"
proof (cases "1 \<le> count \<and> count \<le> 100")
  case True
  then obtain cs r' where "fill count (coordinate_gen (fl, landOnly)) r = Some (cs, r')"
      "int (length cs) = count"
      "\<forall>j < length cs. on_globe (cs ! j) \<and> (landOnly \<longrightarrow> (\<exists>b \<in> set landBoxes. in_box (cs ! j) b))"
    using coords.fill_total [of "(fl, landOnly)" count r] assms by auto
  with True show ?thesis by (auto simp: RandomCoordinates_def list_all_nth)
next
  case False
  then show ?thesis by (auto simp: RandomCoordinates_def)
qed

text \<open>Colors.\<close>

interpretation colors: generator "\<lambda>(fl, format). True" random_color
  "\<lambda>(fl, format) i s. \<exists>r g b. {r, g, b} \<subseteq> {0..<256} \<and> s = color_text fl format r g b"
proof unfold_locales
  fix p :: "float64 \<times> go_string" and i :: nat and rn :: rng
  obtain fl format where p: "p = (fl, format)" by (cases p)
  obtain r rn1 where r: "rand_IntN 256 rn = Some (r, rn1)" "0 \<le> r \<and> r < 256"
    using rand_IntN_total [of 256 rn] by auto
  obtain g rn2 where g: "rand_IntN 256 rn1 = Some (g, rn2)" "0 \<le> g \<and> g < 256"
    using rand_IntN_total [of 256 rn1] by auto
  obtain b rn3 where b: "rand_IntN 256 rn2 = Some (b, rn3)" "0 \<le> b \<and> b < 256"
    using rand_IntN_total [of 256 rn2] by auto
  have "random_color p i rn = Some (color_text fl format r g b, rn3)"
    using p r g b by (simp add: random_color_def)
  then show "\<exists>x r'. random_color p i rn = Some (x, r') \<and>
      (case p of (fl, format) \<Rightarrow> \<lambda>i s. \<exists>r g b. {r, g, b} \<subseteq> {0..<256} \<and>
        s = color_text fl format r g b) i x"
    using p r(2) g(2) b(2) by auto
qed

lemma RandomColors_outcome:
  "\<exists>res r'. RandomColors fl count format r = Some (res, r') \<and>
    (case res of
       Inl e \<Rightarrow> r' = r \<and>
         (if format \<notin> set validColorFormats then error_is e ErrInvalidColorFormat
          else (count < 1 \<or> 100 < count) \<and> error_is e ErrCountOutOfRange)
     | Inr ss \<Rightarrow> format \<in> set validColorFormats \<and> 1 \<le> count \<and> count \<le> 100 \<and>
         int (length ss) = count \<and>
         list_all (\<lambda>s. \<exists>r g b. {r, g, b} \<subseteq> {0..<256} \<and> s = color_text fl format r g b) ss)"
proof (cases "format \<in> set validColorFormats \<and> 1 \<le> count \<and> count \<le> 100")
  case True
  then obtain ss r' where "fill count (random_color (fl, format)) r = Some (ss, r')"
      "int (length ss) = count"
      "\<forall>j < length ss. \<exists>r g b. {r, g, b} \<subseteq> {0..<256} \<and> ss ! j = color_text fl format r g b"
    using colors.fill_total [of "(fl, format)" count r] by auto
  with True show ?thesis by (auto simp: RandomColors_def list_all_nth)
next
  case False
  then show ?thesis by (auto simp: RandomColors_def)
qed

end
