(* ===== verification/Handler_Server.thy ===== *)
theory Handler_Server
  imports Http Service_Numbers Service_Keys Service_Text Service_Ids Service_Float
begin

text \<open>
  The handlers of the randomness endpoints (\<open>handler/server.go\<close>), of the probes and of the API
  description (\<open>handler/health.go\<close>, \<open>metrics.go\<close>, \<open>openapi.go\<close>).  A parameter the request left out is
  \<open>None\<close>; the handler puts the default in its place, calls the service layer, and sends the results
  with the resolved parameters, or the error's text as a 400.
\<close>

section \<open>Parameters of the model\<close>

text \<open>
  The libraries the endpoints use: the quoting of \<open>%q\<close>, \<open>uuid.New\<close>, the SSH libraries, the machine's
  \<open>float64\<close> and how \<open>encoding/json\<close> writes one.
\<close>

record ('k, 'p, 'n) service_lib =
  quote :: "go_string \<Rightarrow> go_string"
  uuid_New :: "rng \<Rightarrow> (go_string \<times> rng) option"
  ssh_lib :: "('k, 'p) ssh_library"
  machine :: float64
  json_number :: "rat \<Rightarrow> 'n"

text \<open>
  How every handler of a service ends: \<open>if err != nil\<close> a 400 with the error's text, otherwise
  \<open>writeResults\<close>.
\<close>

definition invalid_param :: "go_string \<Rightarrow> ('s, 'n) handler" where
  "invalid_param detail = WriteError 400 ''INVALID_PARAM'' detail 0"

definition serve_results ::
  "('k, 'p, 'n) service_lib \<Rightarrow> ('a \<Rightarrow> 'n json) \<Rightarrow> 'a list service \<Rightarrow> (go_string \<times> 'n json) list
    \<Rightarrow> ('s, 'n) handler" where
  "serve_results lib enc service params r c =
     (case random service (cworld c) of
        None \<Rightarrow> panic c
      | Some (Inl err, w) \<Rightarrow> invalid_param (error_text (quote lib) err) r (c\<lparr>cworld := w\<rparr>)
      | Some (Inr results, w) \<Rightarrow> writeResults enc results params r (c\<lparr>cworld := w\<rparr>))"

section \<open>Query parameters\<close>

record RollDiceParams =
  dice_Sides :: "int option"
  dice_Count :: "int option"

record GenerateNumberParams =
  num_Min :: "int option"
  num_Max :: "int option"
  num_Count :: "int option"
  num_Float :: "bool option"

record GenerateUUIDParams =
  uuid_Count :: "int option"
  uuid_Format :: "go_string option"

record GenerateColorParams =
  color_Format :: "go_string option"
  color_Count :: "int option"

record GeneratePasswordParams =
  pw_Length :: "int option"
  pw_Uppercase :: "bool option"
  pw_Lowercase :: "bool option"
  pw_Digits :: "bool option"
  pw_Symbols :: "bool option"
  pw_Count :: "int option"

record GenerateWordsParams =
  words_Style :: "go_string option"
  words_Words :: "int option"
  words_Separator :: "go_string option"
  words_Capitalize :: "bool option"
  words_Count :: "int option"

record GenerateLoremParams =
  lorem_Paragraphs :: "int option"
  lorem_Sentences :: "int option"
  lorem_Count :: "int option"

record GenerateSSHKeyParams =
  ssh_Type :: "go_string option"
  ssh_Bits :: "int option"
  ssh_Comment :: "go_string option"
  ssh_Count :: "int option"

record GenerateCoordinatesParams =
  coord_Count :: "int option"
  coord_LandOnly :: "bool option"

section \<open>The handlers\<close>

definition Server_RollDice ::
  "('k, 'p, 'n) service_lib \<Rightarrow> RollDiceParams \<Rightarrow> ('s, 'n) handler" where
  "Server_RollDice lib ps =
     (let sides = defaultPtr (dice_Sides ps) 6;
          count = defaultPtr (dice_Count ps) 1
      in serve_results lib JInt (RollDice sides count)
           [(''count'', JInt count), (''sides'', JInt sides)])"

definition Server_FlipCoin :: "('s, 'n) handler" where
  "Server_FlipCoin r c =
     (case random FlipCoin (cworld c) of
        None \<Rightarrow> panic c
      | Some (result, w) \<Rightarrow> WriteSingle (JStr result) [] r (c\<lparr>cworld := w\<rparr>))"

definition Server_GenerateNumber ::
  "('k, 'p, 'n) service_lib \<Rightarrow> GenerateNumberParams \<Rightarrow> ('s, 'n) handler" where
  "Server_GenerateNumber lib ps =
     (let lo = defaultPtr (num_Min ps) 0;
          hi = defaultPtr (num_Max ps) 100;
          count = defaultPtr (num_Count ps) 1;
          useFloat = defaultPtr (num_Float ps) False;
          p = [(''count'', JInt count), (''float'', JBool useFloat), (''max'', JInt hi),
               (''min'', JInt lo)];
          fl = machine lib
      in if useFloat then
           serve_results lib (\<lambda>x. JNum (json_number lib x))
             (RandomFloats fl (rnd fl (of_int lo)) (rnd fl (of_int hi)) count) p
         else serve_results lib JInt (RandomInts lo hi count) p)"

definition Server_GenerateUUID ::
  "('k, 'p, 'n) service_lib \<Rightarrow> GenerateUUIDParams \<Rightarrow> ('s, 'n) handler" where
  "Server_GenerateUUID lib ps =
     (let count = defaultPtr (uuid_Count ps) 1;
          format = defaultPtr (uuid_Format ps) ''standard''
      in serve_results lib JStr (GenerateUUIDs (uuid_New lib) count format)
           [(''count'', JInt count), (''format'', JStr format)])"

definition Server_GenerateColor ::
  "('k, 'p, 'n) service_lib \<Rightarrow> GenerateColorParams \<Rightarrow> ('s, 'n) handler" where
  "Server_GenerateColor lib ps =
     (let count = defaultPtr (color_Count ps) 1;
          format = defaultPtr (color_Format ps) ''hex''
      in serve_results lib JStr (RandomColors (machine lib) count format)
           [(''count'', JInt count), (''format'', JStr format)])"

definition Server_GeneratePassword ::
  "('k, 'p, 'n) service_lib \<Rightarrow> GeneratePasswordParams \<Rightarrow> ('s, 'n) handler" where
  "Server_GeneratePassword lib ps =
     (let len = defaultPtr (pw_Length ps) 16;
          uppercase = defaultPtr (pw_Uppercase ps) True;
          lowercase = defaultPtr (pw_Lowercase ps) True;
          digits = defaultPtr (pw_Digits ps) True;
          symbols = defaultPtr (pw_Symbols ps) True;
          count = defaultPtr (pw_Count ps) 1
      in serve_results lib JStr (GeneratePasswords count len uppercase lowercase digits symbols)
           [(''count'', JInt count), (''digits'', JBool digits), (''length'', JInt len),
            (''lowercase'', JBool lowercase), (''symbols'', JBool symbols),
            (''uppercase'', JBool uppercase)])"

text \<open>The separator and the capitalization default by style.\<close>

definition default_separator :: "go_string \<Rightarrow> go_string" where
  "default_separator style =
     (if style = ''docker'' then ''_'' else if style = ''ubuntu'' then '' '' else ''-'')"

definition resolve_words :: "GenerateWordsParams \<Rightarrow> words_params" where
  "resolve_words ps =
     (let style = defaultPtr (words_Style ps) ''random''
      in \<lparr>Style = style,
          Words = defaultPtr (words_Words ps) 4,
          Separator = defaultPtr (words_Separator ps) (default_separator style),
          Capitalize = defaultPtr (words_Capitalize ps) (style = ''ubuntu''),
          Count = defaultPtr (words_Count ps) 1\<rparr>)"

definition Server_GenerateWords ::
  "('k, 'p, 'n) service_lib \<Rightarrow> GenerateWordsParams \<Rightarrow> ('s, 'n) handler" where
  "Server_GenerateWords lib ps =
     (let p = resolve_words ps
      in serve_results lib JStr (RandomWords p)
           [(''capitalize'', JBool (Capitalize p)), (''count'', JInt (Count p)),
            (''separator'', JStr (Separator p)), (''style'', JStr (Style p)),
            (''words'', JInt (Words p))])"

definition Server_GenerateLorem ::
  "('k, 'p, 'n) service_lib \<Rightarrow> GenerateLoremParams \<Rightarrow> ('s, 'n) handler" where
  "Server_GenerateLorem lib ps =
     (let count = defaultPtr (lorem_Count ps) 1;
          paragraphs = defaultPtr (lorem_Paragraphs ps) 1;
          sentences = defaultPtr (lorem_Sentences ps) 0
      in serve_results lib JStr (RandomLorem count paragraphs sentences)
           [(''count'', JInt count), (''paragraphs'', JInt paragraphs),
            (''sentences'', JInt sentences)])"

definition ssh_key_json :: "SSHKeyPair \<Rightarrow> 'n json" where
  "ssh_key_json kp =
     JObj [(''fingerprint'', JStr (Fingerprint kp)), (''private_key'', JStr (PrivateKey kp)),
           (''public_key'', JStr (PublicKey kp))]"

definition Server_GenerateSSHKey ::
  "('k, 'p, 'n) service_lib \<Rightarrow> GenerateSSHKeyParams \<Rightarrow> ('s, 'n) handler" where
  "Server_GenerateSSHKey lib ps =
     (let keyType = defaultPtr (ssh_Type ps) ''ed25519'';
          bits = defaultPtr (ssh_Bits ps) 2048;
          comment = defaultPtr (ssh_Comment ps) [];
          count = defaultPtr (ssh_Count ps) 1
      in serve_results lib ssh_key_json (GenerateSSHKeys (ssh_lib lib) count keyType bits comment)
           [(''bits'', JInt bits), (''comment'', JStr comment), (''count'', JInt count),
            (''type'', JStr keyType)])"

definition coordinate_json :: "(rat \<Rightarrow> 'n) \<Rightarrow> Coordinate \<Rightarrow> 'n json" where
  "coordinate_json num p = JObj [(''lat'', JNum (num (Lat p))), (''lon'', JNum (num (Lon p)))]"

definition Server_GenerateCoordinates ::
  "('k, 'p, 'n) service_lib \<Rightarrow> GenerateCoordinatesParams \<Rightarrow> ('s, 'n) handler" where
  "Server_GenerateCoordinates lib ps =
     (let count = defaultPtr (coord_Count ps) 1;
          landOnly = defaultPtr (coord_LandOnly ps) False
      in serve_results lib (coordinate_json (json_number lib))
           (RandomCoordinates (machine lib) count landOnly)
           [(''count'', JInt count), (''land_only'', JBool landOnly)])"

section \<open>Probes, metrics and the API description\<close>

definition Healthz :: "('s, 'n) handler" where
  "Healthz r c = send_json json_type 200 (JObj [(''status'', JStr ''ok'')]) c"

definition Readyz :: "('s, 'n) handler" where
  "Readyz r c = send_json json_type 200 (JObj [(''status'', JStr ''ready'')]) c"

text \<open>\<open>http.NotFound\<close>.\<close>

definition NotFound :: "('s, 'n) handler" where
  "NotFound r c =
     write_body (Bytes (''404 page not found'' @ [CHR 0x0A]))
       (write_header 404
         (set_header ''X-Content-Type-Options'' ''nosniff''
           (set_header ''Content-Type'' ''text/plain; charset=utf-8'' c)))"

definition MetricsHandler :: "('s, 'n) handler option \<Rightarrow> ('s, 'n) handler" where
  "MetricsHandler h = (case h of None \<Rightarrow> NotFound | Some g \<Rightarrow> g)"

definition OpenAPISpec :: "go_string \<Rightarrow> ('s, 'n) handler" where
  "OpenAPISpec openapiSpec r c =
     write_body (Bytes openapiSpec)
       (write_header 200 (set_header ''Content-Type'' ''application/yaml'' c))"

definition Server_GetOpenAPISpec :: "go_string \<Rightarrow> ('s, 'n) handler" where
  "Server_GetOpenAPISpec = OpenAPISpec"

section \<open>The contract of an endpoint\<close>

text \<open>
  A handler of the main API changes nothing that lasts, and it completes the response with one JSON
  body: a 200, or a 400 with a problem.  (It may panic only where a library does.)
\<close>

definition outcome :: "('s, 'n) conn \<Rightarrow> bool" where
  "outcome c \<longleftrightarrow> (\<exists>j. replied 200 j c) \<or> (\<exists>j. replied 400 j c \<and> jget ''code'' j = Some (JStr ''INVALID_PARAM''))"

locale quiet_handler =
  fixes h :: "('s, 'n) handler"
  assumes handler_quiet: "quiet (cworld c) (cworld (h r c))"
begin

lemma handler_db: "w_db (cworld (h r c)) = w_db (cworld c)"
  using handler_quiet [of c r] by (simp add: quiet_def)

end

locale endpoint = quiet_handler +
  assumes endpoint_outcome: "unsent c \<Longrightarrow> panicked (h r c) \<or> outcome (h r c)"
begin

lemma endpoint_status:
  assumes "unsent c" "\<not> panicked (h r c)"
  shows "status (h r c) = Some 200 \<or> status (h r c) = Some 400"
  using endpoint_outcome [OF assms(1), of r] assms(2) by (auto simp: outcome_def replied_def)

end

lemma invalid_param_outcome: "unsent c \<Longrightarrow> outcome (invalid_param detail r c)"
  using WriteError_replied [of c 400 r "''INVALID_PARAM''" detail 0]
  by (force simp: outcome_def invalid_param_def problem_body_def jget_def)

lemma writeResults_outcome: "unsent c \<Longrightarrow> outcome (writeResults enc xs ps r c)"
  unfolding outcome_def using writeResults_replied by blast

lemma WriteSingle_outcome: "unsent c \<Longrightarrow> outcome (WriteSingle j ps r c)"
  using writeResults_outcome [of c "\<lambda>x. x" "[j]" ps r] by (simp add: writeResults_def)

lemma unsent_cworld [simp]: "unsent (c\<lparr>cworld := w\<rparr>) = unsent c"
  by (simp add: unsent_def)

lemma serve_results_endpoint: "endpoint (serve_results lib enc service ps :: ('s, 'n) handler)"
proof
  fix c :: "('s, 'n) conn" and r :: "'n request"
  show "quiet (cworld c) (cworld (serve_results lib enc service ps r c))"
    by (auto simp: serve_results_def invalid_param_def split: option.split sum.split
        intro: random_quiet quiet_trans [OF random_quiet])
  show "panicked (serve_results lib enc service ps r c) \<or> outcome (serve_results lib enc service ps r c)"
    if "unsent c"
    using that
    by (auto simp: serve_results_def invalid_param_outcome writeResults_outcome
        split: option.split sum.split)
qed

lemma endpoint_If: "endpoint f \<Longrightarrow> endpoint g \<Longrightarrow> endpoint (if b then f else g)"
  by simp

interpretation dice_api: endpoint "Server_RollDice lib ps" for lib ps
  unfolding Server_RollDice_def Let_def by (rule serve_results_endpoint)

interpretation number_api: endpoint "Server_GenerateNumber lib ps" for lib ps
  unfolding Server_GenerateNumber_def Let_def by (intro endpoint_If serve_results_endpoint)

interpretation uuid_api: endpoint "Server_GenerateUUID lib ps" for lib ps
  unfolding Server_GenerateUUID_def Let_def by (rule serve_results_endpoint)

interpretation color_api: endpoint "Server_GenerateColor lib ps" for lib ps
  unfolding Server_GenerateColor_def Let_def by (rule serve_results_endpoint)

interpretation password_api: endpoint "Server_GeneratePassword lib ps" for lib ps
  unfolding Server_GeneratePassword_def Let_def by (rule serve_results_endpoint)

interpretation words_api: endpoint "Server_GenerateWords lib ps" for lib ps
  unfolding Server_GenerateWords_def Let_def by (rule serve_results_endpoint)

interpretation lorem_api: endpoint "Server_GenerateLorem lib ps" for lib ps
  unfolding Server_GenerateLorem_def Let_def by (rule serve_results_endpoint)

interpretation ssh_api: endpoint "Server_GenerateSSHKey lib ps" for lib ps
  unfolding Server_GenerateSSHKey_def Let_def by (rule serve_results_endpoint)

interpretation coord_api: endpoint "Server_GenerateCoordinates lib ps" for lib ps
  unfolding Server_GenerateCoordinates_def Let_def by (rule serve_results_endpoint)

lemma FlipCoin_endpoint: "endpoint (Server_FlipCoin :: ('s, 'n) handler)"
proof
  fix c :: "('s, 'n) conn" and r :: "'n request"
  show "quiet (cworld c) (cworld (Server_FlipCoin r c))"
    by (auto simp: Server_FlipCoin_def WriteSingle_def Let_def case_prod_beta split: option.split
        intro: random_quiet quiet_trans [OF random_quiet])
  show "panicked (Server_FlipCoin r c) \<or> outcome (Server_FlipCoin r c)" if "unsent c"
    using that by (auto simp: Server_FlipCoin_def WriteSingle_outcome split: option.split)
qed

interpretation coin_api: endpoint Server_FlipCoin
  by (rule FlipCoin_endpoint)

interpretation healthz_probe: quiet_handler Healthz
  by unfold_locales (simp add: Healthz_def)

interpretation readyz_probe: quiet_handler Readyz
  by unfold_locales (simp add: Readyz_def)

interpretation not_found: quiet_handler NotFound
  by unfold_locales (simp add: NotFound_def)

interpretation spec_api: quiet_handler "Server_GetOpenAPISpec spec" for spec
  by unfold_locales (simp add: Server_GetOpenAPISpec_def OpenAPISpec_def)

end
