(* ===== verification/Api_Params.thy ===== *)
theory Api_Params
  imports Handler_Server
begin

text \<open>
  The generated request wrappers (\<open>gen/openapi.gen.go\<close>, \<open>ServerInterfaceWrapper\<close>): each binds the
  query parameters of its operation one after the other, hands the first error to
  \<open>ErrorHandlerFunc\<close>, and calls the handler with the parameters bound, inside the handler
  middlewares.  The binding function of the oapi-codegen runtime is a parameter: for a name and the query it
  gives the value, if the query has one, or an error.
\<close>

section \<open>Binding\<close>

datatype bind_error = RequiredParameterError | BindError go_string

record query_binder =
  bind_integer :: "go_string \<Rightarrow> (go_string \<times> go_string) list \<Rightarrow> bind_error + int option"
  bind_boolean :: "go_string \<Rightarrow> (go_string \<times> go_string) list \<Rightarrow> bind_error + bool option"
  bind_string :: "go_string \<Rightarrow> (go_string \<times> go_string) list \<Rightarrow> bind_error + go_string option"

text \<open>\<open>RequiredParamError\<close> and \<open>InvalidParamFormatError\<close>, as their \<open>Error\<close> methods print them.\<close>

definition RequiredParamError :: "go_string \<Rightarrow> go_string" where
  "RequiredParamError name = ''Query argument '' @ name @ '' is required, but not found''"

definition InvalidParamFormatError :: "go_string \<Rightarrow> go_string \<Rightarrow> go_string" where
  "InvalidParamFormatError name err = ''Invalid format for parameter '' @ name @ '': '' @ err"

record ('s, 'n) ServerInterfaceWrapper =
  HandlerMiddlewares :: "(('s, 'n) handler \<Rightarrow> ('s, 'n) handler) list"
  ErrorHandlerFunc :: "go_string \<Rightarrow> ('s, 'n) handler"

text \<open>\<open>for _, middleware := range siw.HandlerMiddlewares { handler = middleware(handler) }\<close>.\<close>

definition siw_call :: "('s, 'n) ServerInterfaceWrapper \<Rightarrow> ('s, 'n) handler \<Rightarrow> ('s, 'n) handler" where
  "siw_call siw handler = fold (\<lambda>mw h. mw h) (HandlerMiddlewares siw) handler"

text \<open>One optional query parameter; \<open>k\<close> is the rest of the wrapper.\<close>

definition siw_bind ::
  "('s, 'n) ServerInterfaceWrapper
    \<Rightarrow> (go_string \<Rightarrow> (go_string \<times> go_string) list \<Rightarrow> bind_error + 'a option) \<Rightarrow> go_string
    \<Rightarrow> ('a option \<Rightarrow> ('s, 'n) handler) \<Rightarrow> ('s, 'n) handler" where
  "siw_bind siw bnd name k r c =
     (case bnd name (Query r) of
        Inl RequiredParameterError \<Rightarrow> ErrorHandlerFunc siw (RequiredParamError name) r c
      | Inl (BindError err) \<Rightarrow> ErrorHandlerFunc siw (InvalidParamFormatError name err) r c
      | Inr v \<Rightarrow> k v r c)"

section \<open>The wrappers\<close>

definition siw_AuthVerify ::
  "('s, 'n) ServerInterfaceWrapper \<Rightarrow> ('s, 'n) handler \<Rightarrow> ('s, 'n) handler" where
  "siw_AuthVerify siw handler = siw_call siw handler"

definition siw_FlipCoin :: "('s, 'n) ServerInterfaceWrapper \<Rightarrow> ('s, 'n) handler" where
  "siw_FlipCoin siw = siw_call siw Server_FlipCoin"

definition siw_GenerateColor ::
  "('s, 'n) ServerInterfaceWrapper \<Rightarrow> query_binder \<Rightarrow> ('k, 'p, 'n) service_lib \<Rightarrow> ('s, 'n) handler" where
  "siw_GenerateColor siw bd lib =
     siw_bind siw (bind_string bd) ''format'' (\<lambda>format.
     siw_bind siw (bind_integer bd) ''count'' (\<lambda>count.
     siw_call siw (Server_GenerateColor lib \<lparr>color_Format = format, color_Count = count\<rparr>)))"

definition siw_GenerateCoordinates ::
  "('s, 'n) ServerInterfaceWrapper \<Rightarrow> query_binder \<Rightarrow> ('k, 'p, 'n) service_lib \<Rightarrow> ('s, 'n) handler" where
  "siw_GenerateCoordinates siw bd lib =
     siw_bind siw (bind_integer bd) ''count'' (\<lambda>count.
     siw_bind siw (bind_boolean bd) ''land_only'' (\<lambda>landOnly.
     siw_call siw (Server_GenerateCoordinates lib
       \<lparr>coord_Count = count, coord_LandOnly = landOnly\<rparr>)))"

definition siw_RollDice ::
  "('s, 'n) ServerInterfaceWrapper \<Rightarrow> query_binder \<Rightarrow> ('k, 'p, 'n) service_lib \<Rightarrow> ('s, 'n) handler" where
  "siw_RollDice siw bd lib =
     siw_bind siw (bind_integer bd) ''sides'' (\<lambda>sides.
     siw_bind siw (bind_integer bd) ''count'' (\<lambda>count.
     siw_call siw (Server_RollDice lib \<lparr>dice_Sides = sides, dice_Count = count\<rparr>)))"

definition siw_GenerateLorem ::
  "('s, 'n) ServerInterfaceWrapper \<Rightarrow> query_binder \<Rightarrow> ('k, 'p, 'n) service_lib \<Rightarrow> ('s, 'n) handler" where
  "siw_GenerateLorem siw bd lib =
     siw_bind siw (bind_integer bd) ''paragraphs'' (\<lambda>paragraphs.
     siw_bind siw (bind_integer bd) ''sentences'' (\<lambda>sentences.
     siw_bind siw (bind_integer bd) ''count'' (\<lambda>count.
     siw_call siw (Server_GenerateLorem lib
       \<lparr>lorem_Paragraphs = paragraphs, lorem_Sentences = sentences, lorem_Count = count\<rparr>))))"

definition siw_GenerateNumber ::
  "('s, 'n) ServerInterfaceWrapper \<Rightarrow> query_binder \<Rightarrow> ('k, 'p, 'n) service_lib \<Rightarrow> ('s, 'n) handler" where
  "siw_GenerateNumber siw bd lib =
     siw_bind siw (bind_integer bd) ''min'' (\<lambda>mn.
     siw_bind siw (bind_integer bd) ''max'' (\<lambda>mx.
     siw_bind siw (bind_integer bd) ''count'' (\<lambda>count.
     siw_bind siw (bind_boolean bd) ''float'' (\<lambda>float.
     siw_call siw (Server_GenerateNumber lib
       \<lparr>num_Min = mn, num_Max = mx, num_Count = count, num_Float = float\<rparr>)))))"

definition siw_GetOpenAPISpec ::
  "('s, 'n) ServerInterfaceWrapper \<Rightarrow> go_string \<Rightarrow> ('s, 'n) handler" where
  "siw_GetOpenAPISpec siw spec = siw_call siw (Server_GetOpenAPISpec spec)"

definition siw_GeneratePassword ::
  "('s, 'n) ServerInterfaceWrapper \<Rightarrow> query_binder \<Rightarrow> ('k, 'p, 'n) service_lib \<Rightarrow> ('s, 'n) handler" where
  "siw_GeneratePassword siw bd lib =
     siw_bind siw (bind_integer bd) ''length'' (\<lambda>len.
     siw_bind siw (bind_boolean bd) ''uppercase'' (\<lambda>uppercase.
     siw_bind siw (bind_boolean bd) ''lowercase'' (\<lambda>lowercase.
     siw_bind siw (bind_boolean bd) ''digits'' (\<lambda>digits.
     siw_bind siw (bind_boolean bd) ''symbols'' (\<lambda>symbols.
     siw_bind siw (bind_integer bd) ''count'' (\<lambda>count.
     siw_call siw (Server_GeneratePassword lib
       \<lparr>pw_Length = len, pw_Uppercase = uppercase, pw_Lowercase = lowercase,
        pw_Digits = digits, pw_Symbols = symbols, pw_Count = count\<rparr>)))))))"

definition siw_GenerateSSHKey ::
  "('s, 'n) ServerInterfaceWrapper \<Rightarrow> query_binder \<Rightarrow> ('k, 'p, 'n) service_lib \<Rightarrow> ('s, 'n) handler" where
  "siw_GenerateSSHKey siw bd lib =
     siw_bind siw (bind_string bd) ''type'' (\<lambda>keyType.
     siw_bind siw (bind_integer bd) ''bits'' (\<lambda>bits.
     siw_bind siw (bind_string bd) ''comment'' (\<lambda>comment.
     siw_bind siw (bind_integer bd) ''count'' (\<lambda>count.
     siw_call siw (Server_GenerateSSHKey lib
       \<lparr>ssh_Type = keyType, ssh_Bits = bits, ssh_Comment = comment, ssh_Count = count\<rparr>)))))"

definition siw_GenerateUUID ::
  "('s, 'n) ServerInterfaceWrapper \<Rightarrow> query_binder \<Rightarrow> ('k, 'p, 'n) service_lib \<Rightarrow> ('s, 'n) handler" where
  "siw_GenerateUUID siw bd lib =
     siw_bind siw (bind_integer bd) ''count'' (\<lambda>count.
     siw_bind siw (bind_string bd) ''format'' (\<lambda>format.
     siw_call siw (Server_GenerateUUID lib \<lparr>uuid_Count = count, uuid_Format = format\<rparr>)))"

definition siw_GenerateWords ::
  "('s, 'n) ServerInterfaceWrapper \<Rightarrow> query_binder \<Rightarrow> ('k, 'p, 'n) service_lib \<Rightarrow> ('s, 'n) handler" where
  "siw_GenerateWords siw bd lib =
     siw_bind siw (bind_string bd) ''style'' (\<lambda>style.
     siw_bind siw (bind_integer bd) ''words'' (\<lambda>words.
     siw_bind siw (bind_string bd) ''separator'' (\<lambda>separator.
     siw_bind siw (bind_boolean bd) ''capitalize'' (\<lambda>capitalize.
     siw_bind siw (bind_integer bd) ''count'' (\<lambda>count.
     siw_call siw (Server_GenerateWords lib
       \<lparr>words_Style = style, words_Words = words, words_Separator = separator,
        words_Capitalize = capitalize, words_Count = count\<rparr>))))))"

section \<open>Wrapped endpoints are endpoints\<close>

text \<open>
  The wrapper of the main API: no handler middleware, and the error handler of the router, a 400
  with the error's text.
\<close>

definition api_wrapper :: "('s, 'n) ServerInterfaceWrapper" where
  "api_wrapper = \<lparr>HandlerMiddlewares = [], ErrorHandlerFunc = invalid_param\<rparr>"

lemma api_wrapper_simps [simp]:
  "siw_call api_wrapper h = h" "ErrorHandlerFunc api_wrapper = invalid_param"
  by (simp_all add: siw_call_def api_wrapper_def)

lemma siw_bind_endpoint:
  assumes k: "\<And>v. endpoint (k v)"
  shows "endpoint (siw_bind api_wrapper bnd name k)"
proof
  fix c r
  show "quiet (cworld c) (cworld (siw_bind api_wrapper bnd name k r c))"
    by (auto simp: siw_bind_def invalid_param_def endpoint.axioms(1) [OF k, THEN quiet_handler.handler_quiet]
        split: sum.split bind_error.split)
  show "panicked (siw_bind api_wrapper bnd name k r c) \<or> outcome (siw_bind api_wrapper bnd name k r c)"
    if "unsent c"
    using that endpoint.endpoint_outcome [OF k that, of _ r]
    by (auto simp: siw_bind_def invalid_param_outcome split: sum.split bind_error.split)
qed

lemmas wrapper_defs =
  siw_FlipCoin_def siw_GenerateColor_def siw_GenerateCoordinates_def siw_RollDice_def
  siw_GenerateLorem_def siw_GenerateNumber_def siw_GeneratePassword_def siw_GenerateSSHKey_def
  siw_GenerateUUID_def siw_GenerateWords_def api_wrapper_simps

lemmas server_endpoints =
  coin_api.endpoint_axioms color_api.endpoint_axioms coord_api.endpoint_axioms
  dice_api.endpoint_axioms lorem_api.endpoint_axioms number_api.endpoint_axioms
  password_api.endpoint_axioms ssh_api.endpoint_axioms uuid_api.endpoint_axioms
  words_api.endpoint_axioms

lemma wrapped_endpoints:
  "endpoint (siw_FlipCoin api_wrapper)" "endpoint (siw_GenerateColor api_wrapper bd lib)"
  "endpoint (siw_GenerateCoordinates api_wrapper bd lib)" "endpoint (siw_RollDice api_wrapper bd lib)"
  "endpoint (siw_GenerateLorem api_wrapper bd lib)" "endpoint (siw_GenerateNumber api_wrapper bd lib)"
  "endpoint (siw_GeneratePassword api_wrapper bd lib)" "endpoint (siw_GenerateSSHKey api_wrapper bd lib)"
  "endpoint (siw_GenerateUUID api_wrapper bd lib)" "endpoint (siw_GenerateWords api_wrapper bd lib)"
  unfolding wrapper_defs by (intro siw_bind_endpoint server_endpoints)+

end
