(* ===== verification/Router.thy ===== *)
theory Router
  imports Auth_Outcome Api_Params Config_Env
begin

text \<open>
  The routing of \<open>handler/router.go\<close>: which handler a request reaches, behind which middlewares.  The
  chi multiplexer and the instrumentation of otelhttp are parameters, with the documented behaviour
  the program relies on as a predicate.
\<close>

section \<open>Parameters\<close>

text \<open>
  \<open>chi_pick\<close> finds the entry of a route table for a method and a path, \<open>chi_unmatched\<close> is the answer
  when there is none (404 or 405), \<open>chi_context\<close> what \<open>middleware.RequestID\<close> and
  \<open>middleware.ClientIPFromHeader\<close> put into the request's context, and \<open>otelhttp\<close> is
  \<open>otelhttp.NewHandler\<close> with its filter and its span names.
\<close>

record ('s, 'n) router_lib =
  chi_pick :: "(go_string \<times> go_string) list \<Rightarrow> go_string \<Rightarrow> go_string \<Rightarrow> nat option"
  chi_unmatched :: "('s, 'n) handler"
  chi_context :: "'n request \<Rightarrow> 'n request"
  otelhttp :: "('n request \<Rightarrow> bool) \<Rightarrow> ('n request \<Rightarrow> go_string) \<Rightarrow> ('s, 'n) handler \<Rightarrow> ('s, 'n) handler"

record ('s, 'k, 'p, 'n) app_lib =
  for_auth :: "'n auth_lib"
  for_service :: "('k, 'p, 'n) service_lib"
  for_params :: query_binder
  for_router :: "('s, 'n) router_lib"
  openapi_yaml :: go_string          \<comment> \<open>the embedded description\<close>

type_synonym ('s, 'n) route = "(go_string \<times> go_string) \<times> ('s, 'n) handler"

text \<open>
  A route covers a request with its method and path; a mounted router, written with the method
  \<open>*\<close>, covers every method below its prefix.
\<close>

definition below :: "go_string \<Rightarrow> go_string \<Rightarrow> bool" where
  "below prefix path \<longleftrightarrow> path = prefix \<or> has_prefix path (prefix @ ''/'')"

definition covers :: "go_string \<times> go_string \<Rightarrow> go_string \<Rightarrow> go_string \<Rightarrow> bool" where
  "covers key m path \<longleftrightarrow> key = (m, path) \<or> fst key = ''*'' \<and> below (snd key) path"

section \<open>The router\<close>

definition mux ::
  "('s, 'n) router_lib \<Rightarrow> ('s, 'n) route list \<Rightarrow> ('n request \<Rightarrow> go_string) \<Rightarrow> ('s, 'n) handler" where
  "mux lib routes path r c =
     (case chi_pick lib (map fst routes) (Method r) (path r) of
        None \<Rightarrow> chi_unmatched lib r c
      | Some i \<Rightarrow> snd (routes ! i) r c)"

text \<open>The limiter of the auth endpoints is made by \<open>NewRouter\<close>, its state is \<open>w_auth\<close>.\<close>

definition authRL :: "'s RateLimiter" where
  "authRL = memory_limiter w_auth w_auth_update"

definition new_authRL :: "'s world \<Rightarrow> 's world" where
  "new_authRL w = w\<lparr>w_auth := NewMemoryRateLimiter 5\<rparr>"

definition auth_group :: "('s, 'n) middleware" where
  "auth_group next = RateLimit authRL 5 True next"

definition auth_routes ::
  "'n auth_lib \<Rightarrow> Config \<Rightarrow> server \<Rightarrow> ('s, 'n) route list" where
  "auth_routes lib cfg srv =
     [((''POST'', ''/api/v1/auth/verify''),
         auth_group (siw_AuthVerify api_wrapper (AuthVerify lib srv))),
      ((''POST'', ''/api/v1/auth/register''),
         auth_group (AdminAuth (AdminToken cfg) (AuthRegister lib srv))),
      ((''POST'', ''/api/v1/auth/reissue''),
         auth_group (AdminAuth (AdminToken cfg) (AuthReissue lib srv)))]"

definition api_prefix :: go_string where
  "api_prefix = ''/api/v1''"

definition api_path :: "'n request \<Rightarrow> go_string" where
  "api_path r = drop (length api_prefix) (Path r)"

definition api_routes :: "('s, 'k, 'p, 'n) app_lib \<Rightarrow> ('s, 'n) route list" where
  "api_routes lib =
     (let svc = for_service lib; bd = for_params lib
      in [((''GET'', ''/coin''), siw_FlipCoin api_wrapper),
          ((''GET'', ''/color''), siw_GenerateColor api_wrapper bd svc),
          ((''GET'', ''/coordinates''), siw_GenerateCoordinates api_wrapper bd svc),
          ((''GET'', ''/dice''), siw_RollDice api_wrapper bd svc),
          ((''GET'', ''/lorem''), siw_GenerateLorem api_wrapper bd svc),
          ((''GET'', ''/number''), siw_GenerateNumber api_wrapper bd svc),
          ((''GET'', ''/openapi.yaml''), siw_GetOpenAPISpec api_wrapper (openapi_yaml lib)),
          ((''GET'', ''/password''), siw_GeneratePassword api_wrapper bd svc),
          ((''GET'', ''/ssh-key''), siw_GenerateSSHKey api_wrapper bd svc),
          ((''GET'', ''/uuid''), siw_GenerateUUID api_wrapper bd svc),
          ((''GET'', ''/words''), siw_GenerateWords api_wrapper bd svc)])"

definition api_group ::
  "(go_string \<Rightarrow> byte list) \<Rightarrow> Config \<Rightarrow> 's RateLimiter \<Rightarrow> bool \<Rightarrow> ('s, 'n) middleware" where
  "api_group sha cfg rl has_store next =
     Auth sha has_store (RateLimit rl (cfg_RateLimitRPM cfg) False next)"

definition app_routes ::
  "('s, 'k, 'p, 'n) app_lib \<Rightarrow> Config \<Rightarrow> 's RateLimiter \<Rightarrow> ('s, 'n) handler option \<Rightarrow> server \<Rightarrow> bool
    \<Rightarrow> ('s, 'n) route list" where
  "app_routes lib cfg rl promHandler srv has_store =
     [((''GET'', ''/healthz''), Healthz), ((''GET'', ''/readyz''), Readyz)] @
     (if MetricsEndpointEnabled cfg then [((''GET'', ''/metrics''), MetricsHandler promHandler)] else []) @
     auth_routes (for_auth lib) cfg srv @
     [((''*'', api_prefix), api_group (sha256 (for_auth lib)) cfg rl has_store
         (mux (for_router lib) (api_routes lib) api_path))]"

text \<open>Health-check probes are not traced; a span is named without the query string.\<close>

definition otel_filter :: "'n request \<Rightarrow> bool" where
  "otel_filter r \<longleftrightarrow> Path r \<noteq> ''/healthz'' \<and> Path r \<noteq> ''/readyz''"

definition span_name :: "'n request \<Rightarrow> go_string" where
  "span_name r = Method r @ '' '' @ Path r"

definition NewRouter ::
  "('s, 'k, 'p, 'n) app_lib \<Rightarrow> Config \<Rightarrow> 's RateLimiter \<Rightarrow> ('s, 'n) handler option \<Rightarrow> server \<Rightarrow> bool
    \<Rightarrow> ('s, 'n) handler" where
  "NewRouter lib cfg rl promHandler srv has_store =
     otelhttp (for_router lib) otel_filter span_name
       (\<lambda>r. Logger (CORS (CORSOrigins cfg)
          (mux (for_router lib) (app_routes lib cfg rl promHandler srv has_store) Path))
        (chi_context (for_router lib) r))"

section \<open>What the libraries promise\<close>

text \<open>
  An entry that is picked is in the table and covers the request; some entry is picked if one covers
  the request, and a route with exactly the request's method and path comes first.  An unmatched request is answered 404 or 405.  The context middlewares
  leave what the program reads of a request, but for the request's id.
\<close>

definition same_request :: "'n request \<Rightarrow> 'n request \<Rightarrow> bool" where
  "same_request r r' \<longleftrightarrow> Method r' = Method r \<and> Path r' = Path r \<and> Query r' = Query r \<and>
     Headers r' = Headers r \<and> RemoteAddr r' = RemoteAddr r \<and> Json r' = Json r \<and>
     CtxClient r' = CtxClient r"

definition router_ok :: "('s, 'n) router_lib \<Rightarrow> bool" where
  "router_ok lib \<longleftrightarrow>
     (\<forall>keys m p i. chi_pick lib keys m p = Some i \<longrightarrow> i < length keys \<and> covers (keys ! i) m p) \<and>
     (\<forall>keys m p. (m, p) \<in> set keys \<longrightarrow>
        (\<exists>i. chi_pick lib keys m p = Some i \<and> keys ! i = (m, p))) \<and>
     (\<forall>keys m p. (\<exists>key \<in> set keys. covers key m p) \<longrightarrow> chi_pick lib keys m p \<noteq> None) \<and>
     (\<forall>r c. cworld (chi_unmatched lib r c) = cworld c \<and>
        (unsent c \<longrightarrow> status (chi_unmatched lib r c) \<in> {Some 404, Some 405})) \<and>
     (\<forall>r. same_request r (chi_context lib r)) \<and>
     (\<forall>flt nm h. otelhttp lib flt nm h = h)"

lemma pick_sound:
  "router_ok lib \<Longrightarrow> chi_pick lib keys m p = Some i \<Longrightarrow> i < length keys \<and> covers (keys ! i) m p"
  by (simp add: router_ok_def)

lemma pick_route:
  assumes "router_ok lib" "chi_pick lib (map fst routes) m p = Some i"
  shows "routes ! i \<in> set routes" "covers (fst (routes ! i)) m p"
proof -
  note i = pick_sound [OF assms]
  then have len: "i < length routes" by simp
  then show "routes ! i \<in> set routes" by simp
  from i len show "covers (fst (routes ! i)) m p" by simp
qed

lemma pick_exact:
  "router_ok lib \<Longrightarrow> (m, p) \<in> set keys \<Longrightarrow> \<exists>i. chi_pick lib keys m p = Some i \<and> keys ! i = (m, p)"
  by (simp add: router_ok_def)

lemma pick_covered:
  "router_ok lib \<Longrightarrow> key \<in> set keys \<Longrightarrow> covers key m p \<Longrightarrow> \<exists>i. chi_pick lib keys m p = Some i"
  unfolding router_ok_def by (metis option.exhaust_sel)

lemma unmatched_ok:
  assumes "router_ok lib"
  shows "cworld (chi_unmatched lib r c) = cworld c"
    "unsent c \<Longrightarrow> status (chi_unmatched lib r c) \<in> {Some 404, Some 405}"
  using assms by (simp_all add: router_ok_def)

lemma context_ok: "router_ok lib \<Longrightarrow> same_request r (chi_context lib r)"
  by (simp add: router_ok_def)

lemma otelhttp_ok: "router_ok lib \<Longrightarrow> otelhttp lib flt nm h = h"
  by (simp add: router_ok_def)

text \<open>What \<open>mux\<close> does: no route, or a route that covers the request.\<close>

lemma mux_cases:
  assumes "router_ok lib"
  obtains (none) "mux lib routes path r c = chi_unmatched lib r c"
  | (route) key h where "(key, h) \<in> set routes" "covers key (Method r) (path r)"
      "mux lib routes path r c = h r c"
proof (cases "chi_pick lib (map fst routes) (Method r) (path r)")
  case None
  then show ?thesis by (intro none) (simp add: mux_def)
next
  case (Some i)
  with pick_route [OF assms Some] show ?thesis
    by (intro route [of "fst (routes ! i)" "snd (routes ! i)"]) (simp_all add: mux_def)
qed

lemma mux_exact:
  assumes "router_ok lib" "((Method r, path r), h) \<in> set routes" "distinct (map fst routes)"
  shows "mux lib routes path r c = h r c"
proof -
  have "(Method r, path r) \<in> set (map fst routes)" using assms(2) by force
  then obtain i where i: "chi_pick lib (map fst routes) (Method r) (path r) = Some i"
      "map fst routes ! i = (Method r, path r)"
    using pick_exact [OF assms(1)] by blast
  have "i < length routes" using pick_sound [OF assms(1) i(1)] by simp
  moreover obtain j where j: "j < length routes" "routes ! j = ((Method r, path r), h)"
    using assms(2) by (auto simp: in_set_conv_nth)
  ultimately have "i = j"
    using i(2) nth_eq_iff_index_eq [OF assms(3), of i j] by simp
  then show ?thesis using i(1) j by (simp add: mux_def)
qed

section \<open>What a router keeps\<close>

text \<open>
  A relation on worlds that a durable state keeps: it holds where nothing durable happens, and it is
  transitive.  Everything around the handlers keeps such a relation, so the router keeps it as soon
  as the handlers do.
\<close>

locale durable =
  fixes R :: "'s world \<Rightarrow> 's world \<Rightarrow> bool"
  assumes quiet_R: "quiet w w' \<Longrightarrow> R w w'"
    and R_trans: "R u v \<Longrightarrow> R v w \<Longrightarrow> R u w"
begin

definition safe :: "('n request \<Rightarrow> bool) \<Rightarrow> ('s, 'n) handler \<Rightarrow> bool" where
  "safe P h \<longleftrightarrow> (\<forall>r c. P r \<longrightarrow> unsent c \<longrightarrow> R (cworld c) (cworld (h r c)))"

lemma safe_quiet: "quiet_handler h \<Longrightarrow> safe P h"
  by (simp add: safe_def quiet_R quiet_handler.handler_quiet)

lemma safe_endpoint: "endpoint h \<Longrightarrow> safe P h"
  by (simp add: endpoint.axioms(1) safe_quiet)

lemma safe_gate:
  fixes h :: "('s, 'n) handler"
  assumes "gate mw" "safe (\<lambda>_. True) h"
  shows "safe P (mw h)"
  unfolding safe_def
proof (intro allI impI)
  fix r :: "'n request" and c :: "('s, 'n) conn"
  assume "P r" and c: "unsent c"
  then show "R (cworld c) (cworld (mw h r c))"
    using assms(2) quiet_R R_trans
    by (intro gate.gate_keeps [where R = R, OF assms(1)]) (auto simp: safe_def)
qed

lemma safe_plain_gate:
  fixes h :: "('s, 'n) handler"
  assumes "plain_gate mw" "safe P h"
  shows "safe P (mw h)"
  unfolding safe_def
proof (intro allI impI)
  fix r :: "'n request" and c :: "('s, 'n) conn"
  assume "P r" and c: "unsent c"
  then show "R (cworld c) (cworld (mw h r c))"
    using assms(2) quiet_R R_trans
    by (intro plain_gate.plain_keeps [where R = R, OF assms(1)]) (auto simp: safe_def)
qed

lemma safe_mux:
  fixes routes :: "('s, 'n) route list"
  assumes "router_ok lib"
    and "\<And>r key h. P r \<Longrightarrow> (key, h) \<in> set routes \<Longrightarrow> covers key (Method r) (path r) \<Longrightarrow> safe ((=) r) h"
  shows "safe P (mux lib routes path)"
  unfolding safe_def
proof (intro allI impI)
  fix r :: "'n request" and c :: "('s, 'n) conn"
  assume r: "P r" and c: "unsent c"
  show "R (cworld c) (cworld (mux lib routes path r c))"
  proof (cases rule: mux_cases [OF assms(1), of routes path r c])
    case 1
    then show ?thesis using unmatched_ok(1) [OF assms(1)] quiet_R [OF quiet_refl] by simp
  next
    case (2 key h)
    then show ?thesis using assms(2) [OF r 2(1,2)] c by (simp add: safe_def)
  qed
qed

lemma safe_Logger:
  fixes h :: "('s, 'n) handler"
  assumes "safe P h"
  shows "safe P (Logger h)"
  unfolding safe_def
proof (intro allI impI)
  fix r :: "'n request" and c :: "('s, 'n) conn"
  assume r: "P r" and c: "unsent c"
  let ?c = "c\<lparr>cworld := snd (time_Now (cworld c))\<rparr>"
  have "R (cworld c) (cworld ?c)" by (simp add: quiet_R)
  moreover have "unsent ?c" using c by simp
  then have "R (cworld ?c) (cworld (h r ?c))" using assms r unfolding safe_def by blast
  ultimately have 1: "R (cworld c) (cworld (h r ?c))" by (rule R_trans)
  moreover have "R (cworld c) (snd (time_Now (cworld (h r ?c))))"
    by (rule R_trans [OF 1]) (simp add: quiet_R)
  moreover have "R (cworld c) (cworld (h r c))" using assms r c unfolding safe_def by simp
  ultimately show "R (cworld c) (cworld (Logger h r c))"
    by (simp add: Logger_def Let_def case_prod_beta)
qed

text \<open>The whole router, from what its auth handlers keep.\<close>

lemma api_routes_safe: "(key, h) \<in> set (api_routes lib) \<Longrightarrow> safe P h"
  using safe_quiet [OF spec_api.quiet_handler_axioms]
  by (auto simp: api_routes_def Let_def siw_GetOpenAPISpec_def intro: safe_endpoint wrapped_endpoints)

lemma safe_api_group:
  assumes "router_ok (for_router lib)" "tame_limiter rl"
  shows "safe P (api_group sha cfg rl has_store (mux (for_router lib) (api_routes lib) api_path))"
proof -
  have "plain_gate (RateLimit rl (cfg_RateLimitRPM cfg) False)"
    by (rule rate_gate.RateLimit_plain [OF rate_gate.intro [OF assms(2)]])
  then have "safe (\<lambda>_. True) (RateLimit rl (cfg_RateLimitRPM cfg) False
      (mux (for_router lib) (api_routes lib) api_path))"
    by (rule safe_plain_gate) (rule safe_mux [OF assms(1) api_routes_safe])
  then show ?thesis
    unfolding api_group_def by (rule safe_gate [OF auth.gate_axioms])
qed

lemma safe_auth_group: "safe P h \<Longrightarrow> safe P (auth_group h)"
  unfolding auth_group_def authRL_def by (rule safe_plain_gate [OF auth_memory.RateLimit_plain])

lemma safe_app:
  fixes cfg :: Config and srv :: server
  assumes ok: "router_ok (for_router lib)" "tame_limiter rl" "\<And>g. prom = Some g \<Longrightarrow> quiet_handler g"
    and "\<And>r. P r \<Longrightarrow> (Method r, Path r) = (''POST'', ''/api/v1/auth/verify'') \<Longrightarrow>
      safe ((=) r) (AuthVerify (for_auth lib) srv)"
    and "\<And>r. P r \<Longrightarrow> (Method r, Path r) = (''POST'', ''/api/v1/auth/register'') \<Longrightarrow>
      safe ((=) r) (AdminAuth (AdminToken cfg) (AuthRegister (for_auth lib) srv))"
    and "\<And>r. P r \<Longrightarrow> (Method r, Path r) = (''POST'', ''/api/v1/auth/reissue'') \<Longrightarrow>
      safe ((=) r) (AdminAuth (AdminToken cfg) (AuthReissue (for_auth lib) srv))"
  shows "safe P (mux (for_router lib) (app_routes lib cfg rl prom srv has_store) Path)"
proof (rule safe_mux [OF ok(1)])
  fix r key h
  assume P: "P r" and route: "(key, h) \<in> set (app_routes lib cfg rl prom srv has_store)"
    and cov: "covers key (Method r) (Path r)"
  have metrics: "safe ((=) r) (MetricsHandler prom)"
    unfolding MetricsHandler_def using safe_quiet not_found.quiet_handler_axioms ok(3)
    by (auto split: option.split)
  have eqs: "key = (m, p) \<Longrightarrow> m \<noteq> ''*'' \<Longrightarrow> (Method r, Path r) = (m, p)" for m p
    using cov by (auto simp: covers_def)
  from route show "safe ((=) r) h"
    unfolding app_routes_def auth_routes_def siw_AuthVerify_def api_wrapper_simps
    using metrics safe_api_group [OF ok(1,2)] safe_quiet [OF healthz_probe.quiet_handler_axioms]
      safe_quiet [OF readyz_probe.quiet_handler_axioms] safe_auth_group assms(4-6) [OF P] eqs
    by (auto split: if_splits)
qed

lemma safe_NewRouter:
  assumes "router_ok (for_router lib)"
    and "safe P (mux (for_router lib) (app_routes lib cfg rl prom srv has_store) Path)"
    and "\<And>r r'. same_request r r' \<Longrightarrow> P r \<Longrightarrow> P r'"
  shows "safe P (NewRouter lib cfg rl prom srv has_store)"
proof -
  have "safe P (Logger (CORS (CORSOrigins cfg)
      (mux (for_router lib) (app_routes lib cfg rl prom srv has_store) Path)))"
    by (intro safe_Logger safe_plain_gate [OF cors.plain_gate_axioms] assms(2))
  then show ?thesis
    using assms(3) [OF context_ok [OF assms(1)]]
    by (simp add: NewRouter_def otelhttp_ok [OF assms(1)] safe_def)
qed

end

text \<open>The two relations: nothing durable happens; the accounts keep their rules.\<close>

definition accounts_kept :: "'s world \<Rightarrow> 's world \<Rightarrow> bool" where
  "accounts_kept w w' \<longleftrightarrow> keeps (w_db w) (w_db w')"

interpretation calm: durable quiet
  by unfold_locales (auto intro: quiet_trans)

interpretation accounts: durable accounts_kept
  by unfold_locales (auto simp: accounts_kept_def quiet_def intro: keeps_trans)

end
