(* ===== verification/Limiter_Equiv.thy ===== *)
theory Limiter_Equiv
  imports Limiter_Memory Limiter_Redis
begin

text \<open>
  The two backends side by side: they admit the same requests, and what each of them guarantees,
  read off the interpretations.  A sorted-set server kept in a list shows that the laws asked of
  the Redis server can hold.
\<close>

section \<open>A server that keeps the laws\<close>

record zserver =
  zdata :: "go_string \<Rightarrow> (go_string \<times> int) list"
  zdeadline :: "go_string \<Rightarrow> int option"
  zclock :: int

definition zs_empty :: "int \<Rightarrow> zserver" where
  "zs_empty T = \<lparr>zdata = (\<lambda>_. []), zdeadline = (\<lambda>_. None), zclock = T\<rparr>"

definition zs_at :: "int \<Rightarrow> zserver \<Rightarrow> zserver" where
  "zs_at T s =
     (let due = (\<lambda>k. case zdeadline s k of Some d \<Rightarrow> d \<le> T | None \<Rightarrow> False)
      in s\<lparr>zdata := (\<lambda>k. if due k then [] else zdata s k),
           zdeadline := (\<lambda>k. if due k then None else zdeadline s k), zclock := T\<rparr>)"

definition zs_commands :: "zserver redis_commands" where
  "zs_commands =
     \<lparr>zremrangebyscore = (\<lambda>k m s.
        let keep = filter (\<lambda>p. m < snd p) (zdata s k)
        in s\<lparr>zdata := (zdata s)(k := keep),
             zdeadline := (if keep = [] then (zdeadline s)(k := None) else zdeadline s)\<rparr>),
      zcard = (\<lambda>k s. int (length (remdups (zdata s k)))),
      zadd = (\<lambda>k sc x s.
        s\<lparr>zdata := (zdata s)(k := (x, sc) # filter (\<lambda>p. fst p \<noteq> x) (zdata s k))\<rparr>),
      pexpire = (\<lambda>k d s.
        if zdata s k = [] then s else s\<lparr>zdeadline := (zdeadline s)(k \<mapsto> zclock s + d)\<rparr>),
      zrange_first = (\<lambda>k s.
        if zdata s k = [] then None else Some (Min (set (map snd (zdata s k)))))\<rparr>"

definition zs_set :: "zserver \<Rightarrow> go_string \<Rightarrow> (go_string \<times> int) set" where
  "zs_set s k = set (zdata s k)"

interpretation zs: redis_server zs_commands zs_set zdeadline zclock zs_at
  by unfold_locales
    (auto simp: zs_commands_def zs_set_def zs_at_def Let_def fun_eq_iff length_remdups_card_conv
      split: option.splits if_splits)

section \<open>One window\<close>

definition whole_millis :: "time \<Rightarrow> bool" where
  "whole_millis t \<longleftrightarrow> t mod 1000000 = 0"

lemma whole_millis_windows:
  assumes "whole_millis t" "whole_millis u"
  shows "id t - windowDuration < id u \<longleftrightarrow> millis t - 60000 < millis u"
proof -
  obtain a b where t: "t = 1000000 * a" and u: "u = 1000000 * b"
    using assms by (auto simp: whole_millis_def mod_eq_0_iff_dvd elim!: dvdE)
  have "1000000 * a - 60000000000 < 1000000 * b \<longleftrightarrow> a - 60000 < b" by linarith
  then show ?thesis by (simp add: t u millis_def windowDuration_def duration_defs)
qed

sublocale redis_server \<subseteq> both: same_window memory_admit cleanup "\<lambda>b. memory_inv" memory_used id
  windowDuration "redis_admit redis server_at" "redis_sweep server_at" redis_inv redis_used millis
  60000 whole_millis
  by unfold_locales (rule whole_millis_windows)

text \<open>A server on which no key is set and a tape whose nonces differ: the backend's start.\<close>

definition redis_start ::
  "('s \<Rightarrow> go_string \<Rightarrow> (go_string \<times> int) set) \<Rightarrow> ('s \<Rightarrow> int) \<Rightarrow> nat \<Rightarrow> time \<Rightarrow> 's \<times> rng \<Rightarrow> bool"
where
  "redis_start zset clock b now sr \<longleftrightarrow> (\<forall>k. zset (fst sr) k = {}) \<and> clock (fst sr) \<le> millis now \<and>
     unique_nonces b (snd sr)"

context redis_server
begin

lemma start_fresh: "redis_start zset clock b now sr \<Longrightarrow> rwin.fresh b now sr"
  unfolding rwin.fresh_def
  by (cases sr) (auto simp: redis_start_def redis_inv_def redis_used_def spent_def)

lemma redis_bound:
  assumes "redis_start zset clock (length es) now sr" "in_order now es" "limited_to k n es" "0 \<le> n"
  shows "int (admitted_since
    (snd (run_events (redis_admit redis server_at) (redis_sweep server_at) (sr, []) es)) k
    (\<lambda>u. millis t - 60000 < millis u \<and> u \<le> t)) \<le> n"
  by (rule rwin.window_bound [OF start_fresh]) (use assms in auto)

lemma same_as_memory:
  assumes "redis_start zset clock (length es) now sr" "in_order now es"
    "list_all (\<lambda>e. whole_millis (event_time e)) es"
  shows "snd (run_events memory_admit cleanup (NewMemoryRateLimiter rpm, []) es) =
    snd (run_events (redis_admit redis server_at) (redis_sweep server_at) (sr, []) es)"
  by (rule both.same_decisions [OF mem_fresh start_fresh]) (use assms in auto)

lemma redis_key_alone:
  assumes "redis_start zset clock (length es) now sr" "in_order now es"
  shows "of_key k (snd (run_events (redis_admit redis server_at) (redis_sweep server_at) (sr, []) es)) =
    of_key k (snd (run_events (redis_admit redis server_at) (redis_sweep server_at) (sr, [])
      (filter (concerns k) es)))"
  by (rule rwin.key_alone [OF start_fresh]) (use assms in auto)

end

section \<open>Properties\<close>


definition sample_events :: "rl_event list" where
  "sample_events =
     [Request ''k'' 1 1000000, Request ''k'' 1 2000000, Request ''j'' 1 3000000, Sweep 4000000,
      Request ''k'' 1 60001000000]"



text \<open>A tape whose first nonces differ, and the empty server.\<close>

definition sample_rng :: rng where
  "sample_rng = \<lparr>draws = (\<lambda>i. i), faults = (\<lambda>_. None), cursor = 0\<rparr>"

definition sample_redis :: "zserver \<times> rng" where
  "sample_redis = (zs_empty 0, sample_rng)"

lemma sample_nonces: "unique_nonces 5 sample_rng"
proof -
  have "inj_on (nonce sample_rng) {..<5}"
  proof (rule inj_onI)
    fix i j :: nat
    assume ij: "i \<in> {..<5}" "j \<in> {..<5}" and eq: "nonce sample_rng i = nonce sample_rng j"
    have "map (\<lambda>k. of_nat (8 * i + k)) [0..<8] = (map (\<lambda>k. of_nat (8 * j + k)) [0..<8] :: byte list)"
      using eq by (simp add: nonce_def sample_rng_def)
    then have "hd (map (\<lambda>k. of_nat (8 * i + k)) [0..<8] :: byte list) =
        hd (map (\<lambda>k. of_nat (8 * j + k)) [0..<8])" by (rule arg_cong)
    then have "(of_nat (8 * i) :: byte) = of_nat (8 * j)" by (simp add: upt_rec)
    then have "8 * i mod 256 = 8 * j mod (256 :: nat)"
      using unat_of_nat [of "8 * i", where ?'a = 8] unat_of_nat [of "8 * j", where ?'a = 8]
      by (simp del: of_nat_mult)
    then show "i = j" using ij by simp
  qed
  then show ?thesis by (simp add: unique_nonces_def no_faults_def sample_rng_def)
qed

lemma sample_start: "redis_start zs_set zclock (length sample_events) 0 sample_redis"
  using sample_nonces
  by (simp add: redis_start_def sample_redis_def zs_empty_def zs_set_def millis_def
      sample_events_def eval_nat_numeral)




text \<open>
  C38: Keys do not interfere: the requests of a key are decided as if the requests of all other
  keys, and every clean-up, had not happened.
\<close>

theorem memory_keys_independent:
  assumes "in_order now es"
  shows "of_key key (snd (run_events memory_admit cleanup (NewMemoryRateLimiter rpm, []) es)) =
    of_key key (snd (run_events memory_admit cleanup (NewMemoryRateLimiter rpm, [])
      (filter (concerns key) es)))"
  by (rule mem.key_alone [OF mem_fresh assms])

theorem memory_keys_independent_witness:
  "of_key ''k'' (snd (run_events memory_admit cleanup (NewMemoryRateLimiter 60, []) sample_events)) =
    of_key ''k'' (snd (run_events memory_admit cleanup (NewMemoryRateLimiter 60, [])
      (filter (concerns ''k'') sample_events)))"
  by (rule memory_keys_independent [of 0]) (simp add: sample_events_def)

text \<open>The same for the distributed limiter.\<close>

theorem redis_keys_independent:
  assumes "redis_server redis zset deadline clock server_at"
    and "redis_start zset clock (length es) now sr" "in_order now es"
  shows "of_key key (snd (run_events (redis_admit redis server_at) (redis_sweep server_at)
      (sr, []) es)) =
    of_key key (snd (run_events (redis_admit redis server_at) (redis_sweep server_at) (sr, [])
      (filter (concerns key) es)))"
  by (rule redis_server.redis_key_alone [OF assms])

theorem redis_keys_independent_witness:
  "of_key ''k'' (snd (run_events (redis_admit zs_commands zs_at) (redis_sweep zs_at)
      (sample_redis, []) sample_events)) =
    of_key ''k'' (snd (run_events (redis_admit zs_commands zs_at) (redis_sweep zs_at)
      (sample_redis, []) (filter (concerns ''k'') sample_events)))"
  by (rule redis_keys_independent [OF zs.redis_server_axioms sample_start])
    (simp add: sample_events_def)

end
