(* ===== verification/Server_Runs.thy ===== *)
theory Server_Runs
  imports Router Limiter_Equiv
begin

text \<open>
  The running server: a sequence of requests through the router, with the passes of the clean-up
  goroutines in between, and what the composition of all parts guarantees.
\<close>

section \<open>Steps\<close>

text \<open>
  One step is a whole request, with a fresh context and response, or one pass of a limiter's clean-up.
\<close>

datatype 'n step = Serve "'n request" | SweepAuth | SweepApi

definition fresh_request :: "'n request \<Rightarrow> 'n request" where
  "fresh_request r = r\<lparr>CtxClient := None\<rparr>"

definition serve :: "('s, 'n) handler \<Rightarrow> 'n request \<Rightarrow> 's world \<Rightarrow> ('s, 'n) conn" where
  "serve h r w = h (fresh_request r) (new_conn w)"

fun server_step :: "('s, 'n) handler \<Rightarrow> 'n step \<Rightarrow> 's world \<Rightarrow> 's world" where
  "server_step h (Serve r) w = cworld (serve h r w)"
| "server_step h SweepAuth w =
     (let (now, w') = time_Now w in w'\<lparr>w_auth := cleanup (w_auth w') now\<rparr>)"
| "server_step h SweepApi w =
     (let (now, w') = time_Now w in w'\<lparr>w_memory := cleanup (w_memory w') now\<rparr>)"

fun run_server :: "('s, 'n) handler \<Rightarrow> 'n step list \<Rightarrow> 's world \<Rightarrow> 's world" where
  "run_server h [] w = w"
| "run_server h (x # xs) w = run_server h xs (server_step h x w)"

text \<open>The configuration of a router whose parts behave as documented.\<close>

definition app_ok ::
  "('s, 'k, 'p, 'n) app_lib \<Rightarrow> 's RateLimiter \<Rightarrow> ('s, 'n) handler option \<Rightarrow> bool" where
  "app_ok lib rl prom \<longleftrightarrow> router_ok (for_router lib) \<and> tame_limiter rl \<and>
     (\<forall>g. prom = Some g \<longrightarrow> quiet_handler g)"

lemma app_okD:
  assumes "app_ok lib rl prom"
  shows "router_ok (for_router lib)" "tame_limiter rl" "prom = Some g \<Longrightarrow> quiet_handler g"
  using assms by (simp_all add: app_ok_def)

section \<open>Which requests can write\<close>

text \<open>
  A request may change the tables or send mail only if it is a verification, or a registration or
  re-issue that shows the configured admin token.
\<close>

definition may_write :: "Config \<Rightarrow> 'n request \<Rightarrow> bool" where
  "may_write cfg r \<longleftrightarrow> Method r = ''POST'' \<and>
     (Path r = ''/api/v1/auth/verify'' \<or>
      Path r \<in> {''/api/v1/auth/register'', ''/api/v1/auth/reissue''} \<and>
        AdminToken cfg \<noteq> '''' \<and> Headers r ''X-Admin-Token'' = AdminToken cfg)"

lemma may_write_same: "same_request r r' \<Longrightarrow> may_write cfg r' = may_write cfg r"
  by (simp add: may_write_def same_request_def)

lemma admin_refuses:
  "AdminToken cfg = '''' \<or> Headers r ''X-Admin-Token'' \<noteq> AdminToken cfg \<Longrightarrow>
    calm.safe ((=) r) (AdminAuth (AdminToken cfg) h)"
  by (auto simp: calm.safe_def AdminAuth_def)

lemma router_calm:
  fixes lib :: "('s, 'k, 'p, 'n) app_lib"
  assumes "app_ok lib rl prom" "\<not> may_write cfg r" "unsent c"
  shows "quiet (cworld c) (cworld (NewRouter lib cfg rl prom srv has_store r c))"
proof -
  let ?P = "\<lambda>r. \<not> may_write cfg r"
  have "calm.safe ?P (mux (for_router lib) (app_routes lib cfg rl prom srv has_store) Path)"
    by (rule calm.safe_app [OF app_okD [OF assms(1)]])
      (auto simp: may_write_def intro: admin_refuses)
  then have "calm.safe ?P (NewRouter lib cfg rl prom srv has_store)"
    by (rule calm.safe_NewRouter [OF app_okD(1) [OF assms(1)]]) (simp add: may_write_same)
  then show ?thesis using assms(2,3) by (simp add: calm.safe_def)
qed

section \<open>The accounts along a run\<close>

lemma admin_accounts:
  "(\<And>r c. keeps (w_db (cworld c)) (w_db (cworld (h r c)))) \<Longrightarrow>
    accounts.safe P (AdminAuth tok h)"
  by (rule accounts.safe_plain_gate [OF admin.plain_gate_axioms])
    (simp add: accounts.safe_def accounts_kept_def)

lemma router_accounts:
  fixes lib :: "('s, 'k, 'p, 'n) app_lib"
  assumes "app_ok lib rl prom" "sha256_sized (for_auth lib)" "unsent c"
  shows "keeps (w_db (cworld c)) (w_db (cworld (NewRouter lib cfg rl prom srv has_store r c)))"
proof -
  have "accounts.safe P (AuthVerify (for_auth lib) srv)" for P
    by (simp add: accounts.safe_def accounts_kept_def AuthVerify_keeps [OF assms(2)])
  then have "accounts.safe (\<lambda>_. True) (mux (for_router lib) (app_routes lib cfg rl prom srv has_store) Path)"
    by (intro accounts.safe_app [OF app_okD [OF assms(1)]] admin_accounts AuthRegister_keeps
        AuthReissue_keeps)
  then have "accounts.safe (\<lambda>_. True) (NewRouter lib cfg rl prom srv has_store)"
    by (rule accounts.safe_NewRouter [OF app_okD(1) [OF assms(1)]]) simp
  then show ?thesis using assms(3) by (simp add: accounts.safe_def accounts_kept_def)
qed

lemma step_accounts:
  assumes "app_ok lib rl prom" "sha256_sized (for_auth lib)"
  shows "keeps (w_db w) (w_db (server_step (NewRouter lib cfg rl prom srv has_store) x w))"
  using router_accounts [OF assms unsent_new]
  by (cases x) (auto simp: serve_def Let_def time_Now_def)

lemma run_accounts:
  assumes "app_ok lib rl prom" "sha256_sized (for_auth lib)"
  shows "keeps (w_db w) (w_db (run_server (NewRouter lib cfg rl prom srv has_store) xs w))"
  by (induction xs arbitrary: w) (auto intro: keeps_trans step_accounts [OF assms])

section \<open>From the router to a handler\<close>

text \<open>The connection a route's handler is called on: the access log has read the clock, CORS is set.\<close>

definition probe :: "'n request \<Rightarrow> bool" where
  "probe r \<longleftrightarrow> Path r = ''/healthz'' \<or> Path r = ''/readyz''"

definition entered :: "Config \<Rightarrow> 'n request \<Rightarrow> ('s, 'n) conn \<Rightarrow> ('s, 'n) conn" where
  "entered cfg r c =
     cors_headers (CORSOrigins cfg) r (if probe r then c else c\<lparr>cworld := snd (time_Now (cworld c))\<rparr>)"

definition left :: "'n request \<Rightarrow> ('s, 'n) conn \<Rightarrow> ('s, 'n) conn" where
  "left r c = (if probe r \<or> panicked c then c else c\<lparr>cworld := snd (time_Now (cworld c))\<rparr>)"

lemma left_simps [simp]:
  "status (left r c) = status c" "body (left r c) = body c" "panicked (left r c) = panicked c"
  "header (left r c) = header c"
  by (simp_all add: left_def)

lemma entered_simps [simp]:
  "unsent (entered cfg r c) = unsent c"
  "cworld (entered cfg r c) = (if probe r then cworld c else snd (time_Now (cworld c)))"
  by (simp_all add: entered_def)

lemma router_enters:
  assumes "router_ok (for_router lib)" "Method r \<noteq> ''OPTIONS''"
  shows "\<exists>r'. same_request r r' \<and> NewRouter lib cfg rl prom srv has_store r c =
    left r' (mux (for_router lib) (app_routes lib cfg rl prom srv has_store) Path r'
      (entered cfg r' c))"
proof -
  let ?r = "chi_context (for_router lib) r"
  have s: "same_request r ?r" by (rule context_ok [OF assms(1)])
  then have "Method ?r \<noteq> ''OPTIONS''" using assms(2) by (simp add: same_request_def)
  then have "NewRouter lib cfg rl prom srv has_store r c =
      left ?r (mux (for_router lib) (app_routes lib cfg rl prom srv has_store) Path ?r
        (entered cfg ?r c))"
    by (simp add: NewRouter_def otelhttp_ok [OF assms(1)] Logger_def CORS_headers left_def entered_def
        probe_def Let_def case_prod_beta)
  with s show ?thesis by blast
qed

text \<open>A \<open>GET\<close> below the prefix of the API reaches its group.\<close>

lemma mux_api:
  assumes "router_ok (for_router lib)" "Method r = ''GET''" "below api_prefix (Path r)"
  shows "mux (for_router lib) (app_routes lib cfg rl prom srv has_store) Path r c =
    api_group (sha256 (for_auth lib)) cfg rl has_store
      (mux (for_router lib) (api_routes lib) api_path) r c"
proof -
  let ?routes = "app_routes lib cfg rl prom srv has_store"
  have other: "\<not> below api_prefix ''/healthz''" "\<not> below api_prefix ''/readyz''"
      "\<not> below api_prefix ''/metrics''"
    by code_simp+
  have "(''*'', api_prefix) \<in> set (map fst ?routes)" by (simp add: app_routes_def)
  moreover have "covers (''*'', api_prefix) (Method r) (Path r)" using assms(3) by (simp add: covers_def)
  ultimately obtain i where i: "chi_pick (for_router lib) (map fst ?routes) (Method r) (Path r) = Some i"
    using pick_covered [OF assms(1)] by blast
  from pick_route [OF assms(1) i] have "snd (?routes ! i) = api_group (sha256 (for_auth lib)) cfg rl has_store
      (mux (for_router lib) (api_routes lib) api_path)"
    using assms(2,3) other by (auto simp: app_routes_def auth_routes_def covers_def split: if_splits)
  with i show ?thesis by (simp add: mux_def)
qed

lemma router_api:
  assumes "router_ok (for_router lib)" "Method r = ''GET''" "below api_prefix (Path r)"
  shows "\<exists>r'. same_request r r' \<and> NewRouter lib cfg rl prom srv has_store r c =
    left r' (api_group (sha256 (for_auth lib)) cfg rl has_store
      (mux (for_router lib) (api_routes lib) api_path) r' (entered cfg r' c))"
proof -
  obtain r' where r': "same_request r r'" "NewRouter lib cfg rl prom srv has_store r c =
      left r' (mux (for_router lib) (app_routes lib cfg rl prom srv has_store) Path r'
        (entered cfg r' c))"
    using router_enters [OF assms(1), of r cfg rl prom srv has_store c] assms(2) by auto
  moreover have "Method r' = ''GET''" "below api_prefix (Path r')"
    using r'(1) assms(2,3) by (simp_all add: same_request_def)
  ultimately show ?thesis using mux_api [OF assms(1)] by metis
qed

section \<open>Keys along a run\<close>

text \<open>A key whose client was revoked is held by nobody any more, unless another client shares it.\<close>

lemma revoked_not_held:
  assumes "db_changes db db'" "db_ok db" "cl \<in> set (clients db)" "account cl = Revoked (Some h)"
    and "bearer_key r = Some k" "HashKey sha k = h"
    and "\<forall>cl' \<in> set (clients db'). APIKeyHash cl' = h \<longrightarrow> client_id cl' = client_id cl"
  shows "\<not> holds_key sha r db' cl'"
proof
  assume "holds_key sha r db' cl'"
  then have cl': "cl' \<in> set (clients db')" "APIKeyHash cl' = h" "RevokedAt cl' = None"
    using assms(5,6) by (auto simp: holds_key_def)
  obtain cl1 where cl1: "cl1 \<in> set (clients db')" "same_person cl cl1"
      "account_step\<^sup>*\<^sup>* (account cl) (account cl1)"
    using changes_account [OF assms(1,3)] by blast
  have rev: "RevokedAt cl1 \<noteq> None"
    using revoked_stays [of h "account cl1"] cl1(3) assms(4)
    by (auto simp: account_def Let_def split: if_splits)
  have ids: "distinct (map client_id (clients db'))"
    using db_ok_changes [OF assms(1,2)] by (simp add: db_ok_def)
  have "client_id cl' = client_id cl" using assms(7) cl'(1,2) by blast
  then have "client_id cl' = client_id cl1" using cl1(2) by (simp add: same_person_def)
  then have "cl' = cl1" by (rule map_if_distinct [OF ids cl'(1) cl1(1)])
  then show False using rev cl'(3) by simp
qed

lemma same_bearer: "same_request r r' \<Longrightarrow> bearer_key r' = bearer_key r"
  by (simp add: same_request_def bearer_key_def)

lemma api_unheld_key:
  assumes "router_ok (for_router lib)" "Method r = ''GET''" "below api_prefix (Path r)"
    and "bearer_key r = Some k" "\<And>cl. \<not> holds_key (sha256 (for_auth lib)) r (w_db w) cl"
  shows "status (serve (NewRouter lib cfg rl prom srv has_store) r w) = Some 401"
proof -
  let ?q = "fresh_request r" and ?sha = "sha256 (for_auth lib)"
  obtain r' where r': "same_request ?q r'" "NewRouter lib cfg rl prom srv has_store ?q (new_conn w) =
      left r' (api_group ?sha cfg rl has_store
        (mux (for_router lib) (api_routes lib) api_path) r' (entered cfg r' (new_conn w)))"
    using router_api [OF assms(1), of ?q cfg rl prom srv has_store "new_conn w"] assms(2,3)
    by (auto simp: fresh_request_def)
  let ?c = "entered cfg r' (new_conn w)"
  have b: "bearer_key r' = Some k"
    using same_bearer [OF r'(1)] assms(4) by (simp add: fresh_request_def bearer_key_def)
  have db: "w_db (cworld ?c) = w_db w" by (simp add: time_Now_def)
  have "\<not> holds_key ?sha r' (w_db (cworld ?c)) cl" for cl
    using assms(5) [of cl] b assms(4) unfolding db by (simp add: holds_key_def)
  moreover have "Headers r' ''Authorization'' \<noteq> ''''"
    using b by (auto simp: bearer_key_def bearer_def has_prefix_def to_lower_def split: if_splits)
  moreover have "unsent ?c" by simp
  ultimately obtain c' where "answers (Auth ?sha has_store) r' ?c c'" "status c' = Some 401"
    using Auth_verdict [of ?c ?sha has_store r'] by blast
  then show ?thesis using r'(2) by (simp add: serve_def api_group_def answers_def)
qed

section \<open>The randomness endpoints behind the router\<close>

definition api_paths :: "go_string list" where
  "api_paths = map ((@) api_prefix)
     [''/coin'', ''/color'', ''/coordinates'', ''/dice'', ''/lorem'', ''/number'', ''/password'',
      ''/ssh-key'', ''/uuid'', ''/words'']"

lemma api_paths_below: "p \<in> set api_paths \<Longrightarrow> below api_prefix p"
  by (auto simp: api_paths_def below_def has_prefix_def api_prefix_def)

lemma api_routes_distinct: "distinct (map fst (api_routes lib))"
  by (simp add: api_routes_def Let_def)

lemma api_routes_endpoints:
  "(key, h) \<in> set (api_routes lib) \<Longrightarrow> key \<noteq> (''GET'', ''/openapi.yaml'') \<Longrightarrow> endpoint h"
  by (auto simp: api_routes_def Let_def intro: wrapped_endpoints)

lemma api_routes_keys:
  "p \<in> set api_paths \<Longrightarrow> drop (length api_prefix) p \<noteq> ''/openapi.yaml'' \<and>
    (''GET'', drop (length api_prefix) p) \<in> set (map fst (api_routes lib))"
  by (auto simp: api_paths_def api_prefix_def api_routes_def Let_def)

lemma api_route:
  assumes "router_ok (for_router lib)" "Method r = ''GET''" "Path r \<in> set api_paths"
  shows "\<exists>h. endpoint h \<and> (\<forall>c. mux (for_router lib) (api_routes lib) api_path r c = h r c)"
proof -
  note keys = api_routes_keys [OF assms(3), of lib]
  then obtain h where h: "((Method r, api_path r), h) \<in> set (api_routes lib)"
    using assms(2) by (force simp: api_path_def)
  moreover have "endpoint h"
    using api_routes_endpoints [OF h] keys by (simp add: api_path_def)
  ultimately show ?thesis using mux_exact [where path = api_path, OF assms(1) h api_routes_distinct] by blast
qed

text \<open>The limiter of the API adds one status to those of the handler behind it.\<close>

lemma limited_status:
  assumes "unsent c" "\<And>c. unsent c \<Longrightarrow> panicked (h r c) \<or> status (h r c) \<in> S"
  shows "panicked (RateLimit rl rpm False h r c) \<or>
    status (RateLimit rl rpm False h r c) \<in> insert (Some 429) S"
proof -
  obtain limit res w where rc: "rate_check rl rpm r (cworld c) = (limit, res, w)"
    by (metis prod_cases3)
  show ?thesis
    using assms(1) assms(2) [of "c\<lparr>cworld := w\<rparr>"]
      assms(2) [of "limit_headers limit (projr res) (c\<lparr>cworld := w\<rparr>)"]
    by (cases res) (auto simp: RateLimit_cases [OF rc] Let_def)
qed

lemma endpoint_statuses:
  "endpoint h \<Longrightarrow> unsent c \<Longrightarrow> panicked (h r c) \<or> status (h r c) \<in> {Some 200, Some 400}"
  using endpoint.endpoint_status by blast

lemma api_statuses:
  assumes "app_ok lib rl prom" "Method r = ''GET''" "Path r \<in> set api_paths"
  shows "panicked (serve (NewRouter lib cfg rl prom srv has_store) r w) \<or>
    status (serve (NewRouter lib cfg rl prom srv has_store) r w)
      \<in> {Some 200, Some 400, Some 401, Some 429}"
proof -
  let ?q = "fresh_request r" and ?sha = "sha256 (for_auth lib)"
    and ?mux = "mux (for_router lib) (api_routes lib) api_path"
  note ok = app_okD(1) [OF assms(1)]
  obtain r' where r': "same_request ?q r'" "NewRouter lib cfg rl prom srv has_store ?q (new_conn w) =
      left r' (api_group ?sha cfg rl has_store ?mux r' (entered cfg r' (new_conn w)))"
    using router_api [OF ok, of ?q cfg rl prom srv has_store "new_conn w"] assms(2,3) api_paths_below
    by (auto simp: fresh_request_def)
  let ?c = "entered cfg r' (new_conn w)" and ?limited = "RateLimit rl (cfg_RateLimitRPM cfg) False ?mux"
  have st: "panicked (?limited r2 c2) \<or> status (?limited r2 c2) \<in> {Some 200, Some 400, Some 429}"
    if c2: "unsent c2" and r2: "r2 = r' \<or> (\<exists>i. r2 = WithClient r' i)" for r2 c2
  proof -
    have "Method r2 = ''GET''" "Path r2 \<in> set api_paths"
      using r2 r'(1) assms(2,3) by (auto simp: same_request_def fresh_request_def WithClient_def)
    then obtain h where h: "endpoint h" "\<And>c. ?mux r2 c = h r2 c"
      using api_route [OF ok] by blast
    have "panicked (?mux r2 c) \<or> status (?mux r2 c) \<in> {Some 200, Some 400}" if "unsent c" for c
      using endpoint_statuses [OF h(1) that] h(2) by metis
    from limited_status [where h = ?mux, OF c2 this] show ?thesis by auto
  qed
  have "unsent ?c" by simp
  from Auth_verdict [OF this, of ?sha has_store r']
  consider (on) r2 c2 where "hands_on (Auth ?sha has_store) r' ?c r2 c2" "unsent c2"
      "r2 = r' \<or> (\<exists>i. r2 = WithClient r' i)"
    | (no) c' where "answers (Auth ?sha has_store) r' ?c c'" "status c' = Some 401"
    by (auto simp: opened_def)
  then show ?thesis
  proof cases
    case on
    then have "api_group ?sha cfg rl has_store ?mux r' ?c = ?limited r2 c2"
      by (simp add: api_group_def hands_on_def)
    then show ?thesis using st [OF on(2,3)] r'(2) by (auto simp: serve_def)
  next
    case no
    then show ?thesis using r'(2) by (auto simp: serve_def api_group_def answers_def)
  qed
qed

end
