(* ===== verification/Process.thy ===== *)
theory Process
  imports Server_Runs
begin

text \<open>
  The process around the server: the calls into libraries that can fail while it starts and stops,
  in the order in which they are made, and the resources they open and close.  How the \<open>i\<close>-th call
  ends is a tape, so a theorem that quantifies over processes covers every combination of failures.
\<close>

section \<open>Calls and processes\<close>

datatype signal = Traces | Metrics | Logs

datatype call =
    NewResource "(go_string \<times> go_string) list"
  | NewExporter signal
  | NewPrometheusExporter
  | NewTracerProvider rat              \<comment> \<open>with its sampling ratio\<close>
  | NewMeterProvider
  | NewLoggerProvider
  | SetProvider signal bool            \<comment> \<open>the SDK's provider, or the no-op one\<close>
  | ShutdownProvider signal
  | SetDefaultLogger
  | ParsePoolConfig go_string
  | NewPool
  | PingPool
  | ClosePool
  | OpenSQL go_string
  | CloseSQL
  | SetDialect go_string
  | MigrateUp
  | ParseRedisURL go_string
  | NewRedisClient
  | InstrumentRedis
  | PingRedis
  | CloseRedis
  | StartLimiter
  | StopLimiter
  | StartAuthLimiter
  | Listen go_string
  | ShutdownServer

type_synonym calls = "(call \<times> go_string option) list"

record 's process =
  p_outcome :: "nat \<Rightarrow> go_string option"
  p_trace :: calls
  p_world :: "'s world"

definition grow :: "calls \<Rightarrow> 's process \<Rightarrow> 's process" where
  "grow t p = p\<lparr>p_trace := p_trace p @ t\<rparr>"

text \<open>A call that may fail, and one that cannot (or whose error is dropped).\<close>

definition attempt :: "call \<Rightarrow> 's process \<Rightarrow> go_string option \<times> 's process" where
  "attempt c p = (let err = p_outcome p (length (p_trace p)) in (err, grow [(c, err)] p))"

definition noted :: "call \<Rightarrow> 's process \<Rightarrow> 's process" where
  "noted c p = grow [(c, None)] p"

type_synonym ('s, 'a) action = "'s process \<Rightarrow> (go_string + 'a) \<times> 's process"

text \<open>
  \<open>if err := c; err != nil { undo; return fmt.Errorf(msg + "%w", err) }\<close> followed by \<open>k\<close>, a body with
  a deferred call, and the wrapping of an error that a call returned.
\<close>

definition check ::
  "call \<Rightarrow> call list \<Rightarrow> go_string \<Rightarrow> ('s, 'a) action \<Rightarrow> ('s, 'a) action" where
  "check c undo msg k p =
     (case attempt c p of
        (Some err, p') \<Rightarrow> (Inl (msg @ err), fold noted undo p')
      | (None, p') \<Rightarrow> k p')"

definition deferred :: "('s process \<Rightarrow> 's process) \<Rightarrow> ('s, 'a) action \<Rightarrow> ('s, 'a) action" where
  "deferred after m p = (let (res, p') = m p in (res, after p'))"

definition andthen ::
  "('s, 'a) action \<Rightarrow> go_string \<Rightarrow> ('a \<Rightarrow> ('s, 'b) action) \<Rightarrow> ('s, 'b) action" where
  "andthen m msg k p =
     (case m p of (Inl err, p') \<Rightarrow> (Inl (msg @ err), p') | (Inr x, p') \<Rightarrow> k x p')"

section \<open>What a trace leaves open\<close>

text \<open>
  A resource is held from the call that opens it, if that succeeds, to the call that closes it.  A
  provider takes over its exporter, and its shutdown closes both.
\<close>

datatype resource =
  Exporter signal | Pool | SqlDB | RedisClient | ApiSweeper | AuthSweeper

fun opens :: "call \<Rightarrow> resource option" where
  "opens (NewExporter s) = Some (Exporter s)"
| "opens NewPool = Some Pool"
| "opens (OpenSQL url) = Some SqlDB"
| "opens NewRedisClient = Some RedisClient"
| "opens StartLimiter = Some ApiSweeper"
| "opens StartAuthLimiter = Some AuthSweeper"
| "opens _ = None"

fun closes :: "call \<Rightarrow> resource option" where
  "closes (ShutdownProvider s) = Some (Exporter s)"
| "closes ClosePool = Some Pool"
| "closes CloseSQL = Some SqlDB"
| "closes CloseRedis = Some RedisClient"
| "closes StopLimiter = Some ApiSweeper"
| "closes _ = None"

definition held_step :: "call \<times> go_string option \<Rightarrow> resource list \<Rightarrow> resource list" where
  "held_step x held =
     (case closes (fst x) of
        Some r \<Rightarrow> remove1 r held
      | None \<Rightarrow>
          (case opens (fst x) of
             Some r \<Rightarrow> if snd x = None then r # held else held
           | None \<Rightarrow> held))"

definition held :: "calls \<Rightarrow> resource list" where
  "held t = fold held_step t []"

lemma grow_grow [simp]: "grow t (grow s p) = grow (s @ t) p"
  by (simp add: grow_def)

lemma grow_simps [simp]:
  "p_trace (grow t p) = p_trace p @ t" "p_outcome (grow t p) = p_outcome p"
  "p_world (grow t p) = p_world p" "grow [] p = p"
  by (simp_all add: grow_def)

lemma grow_world [simp]: "p_world_update f (grow t p) = grow t (p_world_update f p)"
  by (simp add: grow_def)

lemma noted_grow [simp]: "noted c p = grow [(c, None)] p"
  by (simp add: noted_def)

lemma attempt_cases:
  obtains err where "attempt c p = (Some err, grow [(c, Some err)] p)"
  | "attempt c p = (None, grow [(c, None)] p)"
  by (cases "p_outcome p (length (p_trace p))") (simp_all add: attempt_def Let_def)

text \<open>A failed check leaves its call and the undo; a passed one goes on.\<close>

lemma fold_noted [simp]: "fold noted cs p = grow (map (\<lambda>c. (c, None)) cs) p"
  by (induction cs arbitrary: p) auto

lemma check_cases:
  obtains (failed) err where
    "check c undo msg k p =
      (Inl (msg @ err), grow ((c, Some err) # map (\<lambda>c. (c, None)) undo) p)"
  | (passed) "check c undo msg k p = k (grow [(c, None)] p)"
  by (rule attempt_cases [of c p]) (auto simp: check_def)

section \<open>How an action ends\<close>

text \<open>
  \<open>ends m p G\<close>: the action ends in a result, the calls it made and the world it leaves with \<open>G\<close>.
  The rules follow the program text.
\<close>

definition ends ::
  "('s, 'a) action \<Rightarrow> 's process \<Rightarrow> (go_string + 'a \<Rightarrow> calls \<Rightarrow> 's world \<Rightarrow> bool) \<Rightarrow> bool" where
  "ends m p G \<longleftrightarrow> (\<exists>res t w. m p = (res, grow t (p\<lparr>p_world := w\<rparr>)) \<and> G res t w)"

lemma ends_value: "m p = (res, p) \<Longrightarrow> G res [] (p_world p) \<Longrightarrow> ends m p G"
  unfolding ends_def by (intro exI [of _ res] exI [of _ "[]"] exI [of _ "p_world p"]) (cases p; simp)

lemma ends_mono: "ends m p P \<Longrightarrow> (\<And>res t w. P res t w \<Longrightarrow> G res t w) \<Longrightarrow> ends m p G"
  unfolding ends_def by blast

lemma grow_same [simp]: "grow t (p\<lparr>p_world := p_world p\<rparr>) = grow t p"
  by simp

lemma world_grow [simp]: "(grow t p)\<lparr>p_world := w\<rparr> = grow t (p\<lparr>p_world := w\<rparr>)"
  by (simp add: grow_def)

lemma ends_grow:
  "ends m (grow s p) G \<longleftrightarrow> (\<exists>res t w. m (grow s p) = (res, grow (s @ t) (p\<lparr>p_world := w\<rparr>)) \<and> G res t w)"
  by (simp add: ends_def)

lemma ends_check:
  assumes "\<And>err. G (Inl (msg @ err)) ((c, Some err) # map (\<lambda>c. (c, None)) undo) (p_world p)"
    and "ends k (grow [(c, None)] p) (\<lambda>res t w. G res ((c, None) # t) w)"
  shows "ends (check c undo msg k) p G"
proof (rule check_cases [of c undo msg k p])
  fix err
  assume "check c undo msg k p = (Inl (msg @ err), grow ((c, Some err) # map (\<lambda>c. (c, None)) undo) p)"
  then show ?thesis
    unfolding ends_def using assms(1)
    by (metis grow_same)
next
  assume "check c undo msg k p = k (grow [(c, None)] p)"
  then show ?thesis
    using assms(2) unfolding ends_def by auto
qed

lemma ends_andthen:
  assumes "ends m p (\<lambda>res t w. case res of
      Inl err \<Rightarrow> G (Inl (msg @ err)) t w
    | Inr x \<Rightarrow> ends (k x) (grow t (p\<lparr>p_world := w\<rparr>)) (\<lambda>res t' w'. G res (t @ t') w'))"
  shows "ends (andthen m msg k) p G"
proof -
  obtain res t w where m: "m p = (res, grow t (p\<lparr>p_world := w\<rparr>))"
    and G: "case res of Inl err \<Rightarrow> G (Inl (msg @ err)) t w
      | Inr x \<Rightarrow> ends (k x) (grow t (p\<lparr>p_world := w\<rparr>)) (\<lambda>res t' w'. G res (t @ t') w')"
    using assms unfolding ends_def by blast
  show ?thesis
  proof (cases res)
    case (Inl err)
    then show ?thesis using G unfolding ends_def andthen_def m by auto
  next
    case (Inr x)
    then show ?thesis using G unfolding ends_def andthen_def m by auto
  qed
qed

text \<open>A deferred call, one that leaves its calls and may change the world.\<close>

definition leaves :: "('s process \<Rightarrow> 's process) \<Rightarrow> (calls \<Rightarrow> bool) \<Rightarrow> ('s world \<Rightarrow> 's world) \<Rightarrow> bool" where
  "leaves after C f \<longleftrightarrow> (\<forall>p. \<exists>t. after p = grow t (p\<lparr>p_world := f (p_world p)\<rparr>) \<and> C t)"

lemma ends_deferred:
  assumes "leaves after C f"
    and "ends m p (\<lambda>res t w. \<forall>t'. C t' \<longrightarrow> G res (t @ t') (f w))"
  shows "ends (deferred after m) p G"
proof -
  obtain res t w where m: "m p = (res, grow t (p\<lparr>p_world := w\<rparr>))"
    and G: "\<And>t'. C t' \<Longrightarrow> G res (t @ t') (f w)"
    using assms(2) unfolding ends_def by blast
  obtain t' where "after (grow t (p\<lparr>p_world := w\<rparr>)) =
      grow t' ((grow t (p\<lparr>p_world := w\<rparr>))\<lparr>p_world := f w\<rparr>)" "C t'"
    using assms(1) [unfolded leaves_def, rule_format, of "grow t (p\<lparr>p_world := w\<rparr>)"] by auto
  then show ?thesis
    unfolding ends_def deferred_def m using G by auto
qed

end
