(* ===== verification/Telemetry.thy ===== *)
theory Telemetry
  imports Process Handler_Server
begin

text \<open>
  The OpenTelemetry set-up of \<open>telemetry/telemetry.go\<close>: exporters, providers, the sampler and the
  shutdown.  What the SDK's constructors do inside is not part of the program; each is a call of the
  trace, fallible where its signature has an error.
\<close>

record telemetry_Params =
  Enabled :: bool
  ServiceName :: go_string
  Version :: go_string
  tel_Environment :: go_string
  InstanceID :: go_string

record ('s, 'n) telemetry_Result =
  Shutdown :: "'s process \<Rightarrow> go_string option \<times> 's process"
  PrometheusHandler :: "('s, 'n) handler option"
  Resource :: "(go_string \<times> go_string) list option"

text \<open>\<open>strconv.ParseFloat\<close>, a parameter: a number, an infinity or NaN, or a syntax error.\<close>

datatype parsed_float = Finite rat | NotFinite

definition buildSampler :: "(go_string \<Rightarrow> parsed_float option) \<Rightarrow> env \<Rightarrow> rat" where
  "buildSampler parse_float e =
     (let v = e ''OTEL_TRACES_SAMPLER_ARG''
      in if v \<noteq> '''' then
           (case parse_float v of
              Some (Finite f) \<Rightarrow> if f \<ge> 0 \<and> f \<le> 1 then f else 1
            | _ \<Rightarrow> 1)
         else 1)"

text \<open>The attribute names are those of \<open>semconv/v1.26.0\<close>.\<close>

definition resource_attributes :: "telemetry_Params \<Rightarrow> (go_string \<times> go_string) list" where
  "resource_attributes ps =
     (if ServiceName ps \<noteq> '''' then [(''service.name'', ServiceName ps)] else []) @
     (if Version ps \<noteq> '''' then [(''service.version'', Version ps)] else []) @
     (if tel_Environment ps \<noteq> '''' then [(''deployment.environment'', tel_Environment ps)] else []) @
     (if InstanceID ps \<noteq> '''' then [(''service.instance.id'', InstanceID ps)] else [])"

definition buildResource ::
  "telemetry_Params \<Rightarrow> ('s, (go_string \<times> go_string) list) action" where
  "buildResource ps =
     check (NewResource (resource_attributes ps)) [] '''' (\<lambda>p. (Inr (resource_attributes ps), p))"

definition shutdown_errors :: "go_string option list \<Rightarrow> go_string list" where
  "shutdown_errors errs = map the (filter (\<lambda>e. e \<noteq> None) errs)"

definition shutdownProviders :: "'s process \<Rightarrow> go_string option \<times> 's process" where
  "shutdownProviders p =
     (let (e1, p1) = attempt (ShutdownProvider Traces) p;
          (e2, p2) = attempt (ShutdownProvider Metrics) p1;
          (e3, p3) = attempt (ShutdownProvider Logs) p2;
          errs = shutdown_errors [e1, e2, e3]
      in (if errs \<noteq> [] then Some (''telemetry shutdown: '' @ join [CHR 0x0A] errs) else None, p3))"

definition Init ::
  "('s, 'n) handler \<Rightarrow> (go_string \<Rightarrow> parsed_float option) \<Rightarrow> env \<Rightarrow> telemetry_Params
    \<Rightarrow> ('s, ('s, 'n) telemetry_Result) action" where
  "Init promhttp parse_float e ps p =
     (if \<not> Enabled ps then
        (Inr \<lparr>Shutdown = (\<lambda>p. (None, p)), PrometheusHandler = None, Resource = None\<rparr>,
         fold noted [SetProvider Traces False, SetProvider Metrics False, SetProvider Logs False] p)
      else
        andthen (buildResource ps) ''build OTel resource: '' (\<lambda>res.
        check (NewExporter Traces) [] ''create trace exporter: '' (
        check (NewExporter Metrics) [] ''create metric exporter: '' (
        check (NewExporter Logs) [] ''create log exporter: '' (
        check NewPrometheusExporter [] ''create prometheus exporter: '' (\<lambda>p.
          (Inr \<lparr>Shutdown = shutdownProviders, PrometheusHandler = Some promhttp, Resource = Some res\<rparr>,
           fold noted
             [NewTracerProvider (buildSampler parse_float e), SetProvider Traces True,
              NewMeterProvider, SetProvider Metrics True,
              NewLoggerProvider, SetProvider Logs True] p)))))) p)"

section \<open>Facts\<close>

lemma sampler_ratio: "0 \<le> buildSampler parse_float e \<and> buildSampler parse_float e \<le> 1"
  by (auto simp: buildSampler_def Let_def split: option.split parsed_float.split)

text \<open>
  The three providers are shut down whatever the first ones answer; after a failed \<open>Init\<close> the exporters
  made so far are still open.
\<close>

lemma shutdownProviders_trace:
  "\<exists>e1 e2 e3. snd (shutdownProviders p) = grow
    [(ShutdownProvider Traces, e1), (ShutdownProvider Metrics, e2), (ShutdownProvider Logs, e3)] p"
  by (auto simp: shutdownProviders_def attempt_def Let_def)

definition exporters_up :: "bool \<Rightarrow> resource list" where
  "exporters_up enabled = (if enabled then [Exporter Logs, Exporter Metrics, Exporter Traces] else [])"

lemma fold_held_simps [simp]:
  "fold held_step [] H = H" "fold held_step (x # t) H = fold held_step t (held_step x H)"
  by simp_all

lemma buildResource_cases:
  obtains (failed) err where
    "buildResource ps p = (Inl err, grow [(NewResource (resource_attributes ps), Some err)] p)"
  | (built) "buildResource ps p = (Inr (resource_attributes ps),
      grow [(NewResource (resource_attributes ps), None)] p)"
  by (rule attempt_cases [of "NewResource (resource_attributes ps)" p])
    (auto simp: buildResource_def check_def)

end
