(* ===== verification/Startup.thy ===== *)
theory Startup
  imports Telemetry
begin

text \<open>
  The program: \<open>cmd/server/main.go\<close> with the constructors it calls, \<open>BuildPoolConfig\<close> and
  \<open>ConnectAndMigrate\<close> of \<open>store/store.go\<close> and \<open>NewRedisRateLimiter\<close> of \<open>ratelimiter/redis.go\<close>.
  A deferred call of \<open>run\<close> is a \<open>deferred\<close> around the rest of its body.
\<close>

section \<open>The database\<close>

definition BuildPoolConfig :: "go_string \<Rightarrow> ('s, 'a) action \<Rightarrow> ('s, 'a) action" where
  "BuildPoolConfig databaseURL = check (ParsePoolConfig databaseURL) [] ''parse pool config: ''"

definition ConnectAndMigrate :: "go_string \<Rightarrow> ('s, unit) action" where
  "ConnectAndMigrate databaseURL =
     BuildPoolConfig databaseURL (
     check NewPool [] ''connect to database: '' (
     check PingPool [ClosePool] ''ping database: '' (
     check (OpenSQL databaseURL) [ClosePool] ''open sql.DB for goose: '' (
     deferred (noted CloseSQL) (
     check (SetDialect ''postgres'') [ClosePool] ''set goose dialect: '' (
     check MigrateUp [ClosePool] ''run migrations: '' (
     \<lambda>p. (Inr (), p))))))))"

text \<open>The store, if one is configured, and the function that closes it.\<close>

definition initStore :: "Config \<Rightarrow> ('s, bool \<times> ('s process \<Rightarrow> 's process)) action" where
  "initStore cfg p =
     (if DatabaseURL cfg = '''' then (Inr (False, \<lambda>p. p), p)
      else andthen (ConnectAndMigrate (DatabaseURL cfg)) ''database setup: ''
        (\<lambda>_ p. (Inr (True, noted ClosePool), p)) p)"

definition initEmail :: "Config \<Rightarrow> bool \<Rightarrow> SMTPConfig option" where
  "initEmail cfg pgStore =
     (if SMTPHost cfg = '''' \<or> \<not> pgStore then None
      else Some
        \<lparr>Host = SMTPHost cfg, smtp_Port = SMTPPort cfg, User = SMTPUser cfg,
         Password = SMTPPassword cfg, From = SMTPFrom cfg\<rparr>)"

text \<open>\<open>handler.New\<close> with the dependencies \<open>run\<close> gives it.\<close>

definition handler_New :: "Config \<Rightarrow> bool \<Rightarrow> server" where
  "handler_New cfg pgStore =
     \<lparr>srv_store = pgStore, srv_email = (if pgStore then initEmail cfg pgStore else None),
      srv_config = cfg\<rparr>"

section \<open>The rate limiter\<close>

definition NewRedisRateLimiter :: "go_string \<Rightarrow> int \<Rightarrow> ('s, RedisRateLimiter) action" where
  "NewRedisRateLimiter redisURL rpm =
     check (ParseRedisURL redisURL) [] ''parse redis URL: '' (\<lambda>p.
     check InstrumentRedis [] ''instrument redis tracing: '' (
     check PingRedis [] ''redis ping: '' (
     \<lambda>p. (Inr \<lparr>redis_rpm = rpm\<rparr>, p))) (noted NewRedisClient p))"

definition errRedisURLRequired :: go_string where
  "errRedisURLRequired = ''ZAAS_RATE_LIMIT_BACKEND=redis requires ZAAS_REDIS_URL to be set''"

definition initRateLimiter ::
  "'s redis_commands \<Rightarrow> Config \<Rightarrow> ('s, 's RateLimiter \<times> ('s process \<Rightarrow> 's process)) action" where
  "initRateLimiter redis cfg p =
     (if RateLimitBackend cfg = ''redis'' then
        (if RedisURL cfg = '''' then (Inl errRedisURLRequired, p)
         else andthen (NewRedisRateLimiter (RedisURL cfg) (cfg_RateLimitRPM cfg))
           ''init redis rate limiter: ''
           (\<lambda>redisRL p. (Inr (redis_limiter redis redisRL, \<lambda>p. snd (attempt CloseRedis p)), p)) p)
      else
        (Inr (memory_limiter w_memory w_memory_update,
           \<lambda>p. noted StopLimiter (p_world_update (w_memory_update memory_Close) p)),
         noted StartLimiter
           (p_world_update (w_memory_update (\<lambda>_. NewMemoryRateLimiter (cfg_RateLimitRPM cfg))) p)))"

section \<open>Serving\<close>

text \<open>
  \<open>serve\<close>: the server works through its requests, \<open>xs\<close>, until \<open>ListenAndServe\<close> fails or a signal
  arrives; after a signal it shuts down gracefully.  A \<open>Listen\<close> that ends without an error stands for
  the signal.
\<close>

definition serve_until :: "Config \<Rightarrow> ('s, 'n) handler \<Rightarrow> 'n step list \<Rightarrow> ('s, unit) action" where
  "serve_until cfg h xs p =
     check (Listen (CHR '':'' # Port cfg)) [] ''server error: '' (
     check ShutdownServer [] ''graceful shutdown: '' (
     \<lambda>p. (Inr (), p))) (p_world_update (run_server h xs) p)"

text \<open>What a build of the program is linked with, and the version injected into it.\<close>

record ('s, 'k, 'p, 'n) build =
  b_lib :: "('s, 'k, 'p, 'n) app_lib"
  b_redis :: "'s redis_commands"
  b_promhttp :: "('s, 'n) handler"
  b_parse_float :: "go_string \<Rightarrow> parsed_float option"
  b_version :: go_string

definition run_app ::
  "('s, 'k, 'p, 'n) build \<Rightarrow> Config \<Rightarrow> ('s, 'n) handler option \<Rightarrow> 'n step list \<Rightarrow> ('s, unit) action" where
  "run_app b cfg promHandler xs =
     andthen (initStore cfg) '''' (\<lambda>(pgStore, closeDB).
     deferred closeDB (
     andthen (initRateLimiter (b_redis b) cfg) '''' (\<lambda>(rl, closeRL).
     deferred closeRL (\<lambda>p.
       serve_until cfg
         (NewRouter (b_lib b) cfg rl promHandler (handler_New cfg pgStore) pgStore) xs
         (noted StartAuthLimiter (p_world_update new_authRL p))))))"

definition program_params :: "('s, 'k, 'p, 'n) build \<Rightarrow> Config \<Rightarrow> go_string \<Rightarrow> telemetry_Params" where
  "program_params b cfg uuid =
     \<lparr>Enabled = OTelEnabled cfg, ServiceName = ''zaas-api'', Version = b_version b,
      tel_Environment = Environment cfg, InstanceID = uuid\<rparr>"

text \<open>\<open>run\<close>; \<open>None\<close> if \<open>uuid.New\<close> panics.\<close>

definition run ::
  "('s, 'k, 'p, 'n) build \<Rightarrow> env \<Rightarrow> Config \<Rightarrow> 'n step list \<Rightarrow> 's process
    \<Rightarrow> ((go_string + unit) \<times> 's process) option" where
  "run b e cfg xs p =
     (case random (uuid_New (for_service (b_lib b))) (p_world p) of
        None \<Rightarrow> None
      | Some (uuid, w) \<Rightarrow>
          Some (andthen (Init (b_promhttp b) (b_parse_float b) e (program_params b cfg uuid))
            ''init telemetry: '' (\<lambda>otel.
            deferred (\<lambda>p. snd (Shutdown otel p)) (\<lambda>p.
              run_app b cfg (PrometheusHandler otel) xs
                (if OTelEnabled cfg then noted SetDefaultLogger p else p)))
            (p\<lparr>p_world := w\<rparr>)))"

section \<open>The program\<close>

datatype log_level = LevelDebug | LevelInfo | LevelWarn | LevelError

definition log_level_of :: "Config \<Rightarrow> log_level" where
  "log_level_of cfg =
     (if LogLevel cfg = ''debug'' then LevelDebug
      else if LogLevel cfg = ''warn'' then LevelWarn
      else if LogLevel cfg = ''error'' then LevelError
      else LevelInfo)"

datatype log_handler = JSONHandler log_level | TextHandler log_level

definition log_handler_of :: "Config \<Rightarrow> log_handler" where
  "log_handler_of cfg =
     (if LogFormat cfg = ''json'' then JSONHandler (log_level_of cfg) else TextHandler (log_level_of cfg))"

text \<open>The exit status of the process: 0, 1 after an error of \<open>run\<close>, 2 after a panic.\<close>

record 's exit =
  exit_status :: int
  exit_logs :: log_handler
  exit_process :: "'s process"

definition main ::
  "('s, 'k, 'p, 'n) build \<Rightarrow> env \<Rightarrow> 'n step list \<Rightarrow> 's process \<Rightarrow> 's exit" where
  "main b e xs p =
     (let cfg = Load e; logs = log_handler_of cfg
      in case run b e cfg xs p of
           None \<Rightarrow> \<lparr>exit_status = 2, exit_logs = logs, exit_process = p\<rparr>
         | Some (Inl err, p') \<Rightarrow> \<lparr>exit_status = 1, exit_logs = logs, exit_process = p'\<rparr>
         | Some (Inr _, p') \<Rightarrow> \<lparr>exit_status = 0, exit_logs = logs, exit_process = p'\<rparr>)"

end
