(* ===== verification/Startup_Facts.thy ===== *)
theory Startup_Facts
  imports Startup
begin

text \<open>
  What each phase of the program does to the resources it holds and to the world, phase by phase, with
  the rules of \<open>ends\<close>; and the specification of a life of the process that they add up to.
\<close>

section \<open>The specification\<close>

definition is_listen :: "call \<Rightarrow> bool" where
  "is_listen c = (case c of Listen a \<Rightarrow> True | _ \<Rightarrow> False)"

definition listens :: "calls \<Rightarrow> bool" where
  "listens t = list_ex (\<lambda>x. is_listen (fst x)) t"

definition failed :: "(call \<Rightarrow> bool) \<Rightarrow> calls \<Rightarrow> bool" where
  "failed P t = list_ex (\<lambda>(c, err). P c \<and> err \<noteq> None) t"

definition redis_down :: "calls \<Rightarrow> bool" where
  "redis_down t = failed (\<lambda>c. c \<in> {InstrumentRedis, PingRedis}) t"

definition exporter_down :: "calls \<Rightarrow> bool" where
  "exporter_down t =
     failed (\<lambda>c. c \<in> {NewExporter Metrics, NewExporter Logs, NewPrometheusExporter}) t"

definition limiter_up :: "Config \<Rightarrow> resource list" where
  "limiter_up cfg = [if RateLimitBackend cfg = ''redis'' then RedisClient else ApiSweeper]"

definition pool_up :: "Config \<Rightarrow> resource list" where
  "pool_up cfg = (if DatabaseURL cfg = '''' then [] else [Pool])"

text \<open>
  The server may listen: everything the configuration asks for is open, the database is migrated,
  Redis has answered.
\<close>

definition backends_ready :: "Config \<Rightarrow> calls \<Rightarrow> bool" where
  "backends_ready cfg t \<longleftrightarrow>
     (DatabaseURL cfg \<noteq> '''' \<longrightarrow> (MigrateUp, None) \<in> set t) \<and>
     (RateLimitBackend cfg = ''redis'' \<longrightarrow> RedisURL cfg \<noteq> '''' \<and> (PingRedis, None) \<in> set t)"

definition ready :: "Config \<Rightarrow> calls \<Rightarrow> bool" where
  "ready cfg t \<longleftrightarrow> \<not> listens t \<and> backends_ready cfg t \<and>
     held t = AuthSweeper # limiter_up cfg @ pool_up cfg @ exporters_up (OTelEnabled cfg)"

definition serving :: "Config \<Rightarrow> bool \<Rightarrow> calls \<Rightarrow> bool" where
  "serving cfg ok t \<longleftrightarrow>
     (\<exists>err. t = [(Listen (CHR '':'' # Port cfg), Some err)]) \<and> \<not> ok \<or>
     (\<exists>err. t = [(Listen (CHR '':'' # Port cfg), None), (ShutdownServer, err)] \<and> (ok \<longleftrightarrow> err = None))"

definition app_closing :: "Config \<Rightarrow> call list" where
  "app_closing cfg =
     (if RateLimitBackend cfg = ''redis'' then CloseRedis else StopLimiter) #
     (if DatabaseURL cfg = '''' then [] else [ClosePool])"

definition closing :: "Config \<Rightarrow> call list" where
  "closing cfg = app_closing cfg @
     (if OTelEnabled cfg then map ShutdownProvider [Traces, Metrics, Logs] else [])"

text \<open>
  A life with a serving phase: what was opened is closed in the reverse order, limiter, database,
  telemetry.
\<close>

definition orderly :: "Config \<Rightarrow> bool \<Rightarrow> calls \<Rightarrow> bool" where
  "orderly cfg ok t \<longleftrightarrow>
     (\<exists>up sv down. t = up @ sv @ down \<and> ready cfg up \<and> serving cfg ok sv \<and> map fst down = closing cfg)"

text \<open>
  A life that ends before: nothing stays open, but for the client of a Redis server that did not
  answer and the exporters made before one failed.
\<close>

definition aborted :: "calls \<Rightarrow> bool" where
  "aborted t \<longleftrightarrow> \<not> listens t \<and>
     (held t = [] \<or> held t = [RedisClient] \<and> redis_down t \<or>
      set (held t) \<subseteq> range Exporter \<and> exporter_down t)"

section \<open>Traces\<close>

lemma held_step_simps [simp]:
  "closes c = Some r \<Longrightarrow> held_step (c, err) H = remove1 r H"
  "closes c = None \<Longrightarrow> opens c = None \<Longrightarrow> held_step (c, err) H = H"
  "closes c = None \<Longrightarrow> opens c = Some r \<Longrightarrow> held_step (c, None) H = r # H"
  "closes c = None \<Longrightarrow> held_step (c, Some e) H = H"
  by (auto simp: held_step_def split: option.split)

lemma listens_simps [simp]:
  "\<not> listens []" "listens (x # t) \<longleftrightarrow> is_listen (fst x) \<or> listens t"
  "listens (s @ t) \<longleftrightarrow> listens s \<or> listens t"
  by (simp_all add: listens_def)

lemma failed_append [simp]: "failed P (s @ t) \<longleftrightarrow> failed P s \<or> failed P t"
  by (simp add: failed_def)

lemma down_append [simp]:
  "redis_down (s @ t) \<longleftrightarrow> redis_down s \<or> redis_down t"
  "exporter_down (s @ t) \<longleftrightarrow> exporter_down s \<or> exporter_down t"
  by (simp_all add: redis_down_def exporter_down_def)

lemma held_append: "held (s @ t) = fold held_step t (held s)"
  by (simp add: held_def)

lemma fold_closers:
  "map fst t = cs \<Longrightarrow> list_all (\<lambda>c. closes c \<noteq> None) cs \<Longrightarrow>
    fold held_step t H = fold (\<lambda>c. remove1 (the (closes c))) cs H"
  by (induction t arbitrary: cs H) (auto simp: held_step_def)

lemma serving_held: "serving cfg ok t \<Longrightarrow> fold held_step t H = H"
  by (auto simp: serving_def)

lemma orderly_held:
  assumes "orderly cfg ok t"
  shows "held t = [AuthSweeper]" "listens t"
proof -
  obtain up sv down where t: "t = up @ sv @ down" and up: "ready cfg up" and sv: "serving cfg ok sv"
    and down: "map fst down = closing cfg"
    using assms unfolding orderly_def by blast
  have "fold held_step down (held up) = fold (\<lambda>c. remove1 (the (closes c))) (closing cfg) (held up)"
    by (rule fold_closers [OF down]) (simp add: closing_def app_closing_def)
  then show "held t = [AuthSweeper]"
    using up serving_held [OF sv]
    by (simp add: t held_append ready_def closing_def app_closing_def limiter_up_def pool_up_def
        exporters_up_def)
  show "listens t"
    using sv by (auto simp: t serving_def is_listen_def)
qed

section \<open>The phases\<close>

text \<open>What a phase does to the resources held before it, whatever they are.\<close>

definition adds :: "resource list \<Rightarrow> calls \<Rightarrow> bool" where
  "adds rs t \<longleftrightarrow> (\<forall>H. fold held_step t H = rs @ H)"

lemma adds_held: "adds rs t \<Longrightarrow> fold held_step t H = rs @ H"
  by (simp add: adds_def)

lemma leaves_noted: "leaves (noted c) (\<lambda>t. t = [(c, None)]) id"
  by (auto simp: leaves_def)

lemma leaves_call: "leaves (noted c) (\<lambda>t. map fst t = [c]) id"
  unfolding leaves_def by (auto intro: exI [of _ "[(c, None)]"])

lemma world_update: "p_world_update f p = p\<lparr>p_world := f (p_world p)\<rparr>"
  by (cases p) simp

lemma ends_pair: "G res [] (p_world p) \<Longrightarrow> ends (Pair res) p G"
  by (rule ends_value) simp_all

lemma ends_noted:
  "ends m (grow [(c, None)] p) (\<lambda>res t w. G res ((c, None) # t) w) \<Longrightarrow> ends (\<lambda>p. m (noted c p)) p G"
  unfolding ends_def by auto

lemma ends_started:
  "G res [(c, None)] (f (p_world p)) \<Longrightarrow> ends (\<lambda>p. (res, noted c (p_world_update f p))) p G"
  unfolding ends_def
  by (intro exI [of _ res] exI [of _ "[(c, None)]"] exI [of _ "f (p_world p)"])
    (simp add: world_update [of f])

lemmas ends_rules = ends_check ends_noted ends_value ends_deferred [OF leaves_noted]

lemma ConnectAndMigrate_ends:
  "ends (ConnectAndMigrate url) p (\<lambda>res t w. w = p_world p \<and> \<not> listens t \<and>
    (case res of Inl _ \<Rightarrow> adds [] t | Inr _ \<Rightarrow> adds [Pool] t \<and> (MigrateUp, None) \<in> set t))"
  unfolding ConnectAndMigrate_def BuildPoolConfig_def
  by (intro ends_rules) (auto simp: adds_def is_listen_def)

lemma initStore_ends:
  "ends (initStore cfg) p (\<lambda>res t w. w = p_world p \<and> \<not> listens t \<and>
    (case res of
       Inl _ \<Rightarrow> adds [] t
     | Inr (pg, closeDB) \<Rightarrow> adds (pool_up cfg) t \<and>
         (DatabaseURL cfg \<noteq> '''' \<longrightarrow> (MigrateUp, None) \<in> set t) \<and>
         leaves closeDB (\<lambda>t. map fst t = (if DatabaseURL cfg = '''' then [] else [ClosePool])) id))"
proof (cases "DatabaseURL cfg = ''''")
  case True
  then show ?thesis
    by (intro ends_value) (auto simp: initStore_def adds_def pool_up_def leaves_def)
next
  case False
  then have eq: "initStore cfg = andthen (ConnectAndMigrate (DatabaseURL cfg)) ''database setup: ''
      (\<lambda>_. Pair (Inr (True, noted ClosePool)))"
    by (simp add: initStore_def fun_eq_iff)
  show ?thesis
    unfolding eq
    by (rule ends_andthen, rule ends_mono [OF ConnectAndMigrate_ends])
      (auto intro!: ends_pair leaves_call simp: pool_up_def False split: sum.splits)
qed

lemma NewRedisRateLimiter_ends:
  "ends (NewRedisRateLimiter url rpm) p (\<lambda>res t w. w = p_world p \<and> \<not> listens t \<and>
    (case res of
       Inl _ \<Rightarrow> adds [] t \<or> redis_down t \<and> adds [RedisClient] t
     | Inr rl \<Rightarrow> adds [RedisClient] t \<and> (PingRedis, None) \<in> set t))"
  unfolding NewRedisRateLimiter_def
  by (intro ends_rules) (auto simp: adds_def is_listen_def redis_down_def failed_def)

text \<open>The limiter is one of the two; closing it leaves the tables and the outbox alone.\<close>

lemma leaves_CloseRedis:
  "leaves (\<lambda>p. snd (attempt CloseRedis p)) (\<lambda>t. map fst t = [CloseRedis]) (\<lambda>w. w)"
  unfolding leaves_def
proof
  fix p :: "'s process"
  show "\<exists>t. snd (attempt CloseRedis p) = grow t (p\<lparr>p_world := p_world p\<rparr>) \<and> map fst t = [CloseRedis]"
    by (rule attempt_cases [of CloseRedis p]) auto
qed

lemma initRateLimiter_ends:
  "ends (initRateLimiter redis cfg) p (\<lambda>res t w. quiet (p_world p) w \<and> \<not> listens t \<and>
    (case res of
       Inl _ \<Rightarrow> adds [] t \<or> redis_down t \<and> adds [RedisClient] t
     | Inr (rl, closeRL) \<Rightarrow> tame_limiter rl \<and> adds (limiter_up cfg) t \<and>
         (RateLimitBackend cfg = ''redis'' \<longrightarrow> RedisURL cfg \<noteq> '''' \<and> (PingRedis, None) \<in> set t) \<and>
         (\<exists>f. leaves closeRL (\<lambda>t. map fst t =
             [if RateLimitBackend cfg = ''redis'' then CloseRedis else StopLimiter]) f \<and>
           (\<forall>w. quiet w (f w)))))"
  (is "ends _ p ?G")
proof (cases "RateLimitBackend cfg = ''redis'' \<and> RedisURL cfg \<noteq> ''''")
  case True
  then have eq: "initRateLimiter redis cfg = andthen
      (NewRedisRateLimiter (RedisURL cfg) (cfg_RateLimitRPM cfg)) ''init redis rate limiter: ''
      (\<lambda>rl. Pair (Inr (redis_limiter redis rl, \<lambda>p. snd (attempt CloseRedis p))))"
    by (simp add: initRateLimiter_def fun_eq_iff)
  show ?thesis
    unfolding eq
    by (rule ends_andthen, rule ends_mono [OF NewRedisRateLimiter_ends])
      (auto intro!: ends_pair exI [of _ "\<lambda>w. w"] leaves_CloseRedis
        simp: limiter_up_def redis_limiter_tame True split: sum.splits)
next
  case False
  let ?f = "w_memory_update memory_Close :: 's world \<Rightarrow> 's world"
  have "leaves (\<lambda>p. noted StopLimiter (p_world_update ?f p)) (\<lambda>t. map fst t = [StopLimiter]) ?f"
    unfolding leaves_def
    by (auto simp: world_update [of "w_memory_update memory_Close"] intro: exI [of _ "[(StopLimiter, None)]"])
  moreover have "tame_limiter (memory_limiter w_memory w_memory_update)"
    by (rule memory_limiter_tame) (simp add: quiet_def)
  ultimately have "ends (initRateLimiter redis cfg) p ?G" if "RateLimitBackend cfg \<noteq> ''redis''"
    unfolding initRateLimiter_def if_not_P [OF that]
    using that
    by (intro ends_started) (auto simp: limiter_up_def adds_def is_listen_def quiet_def)
  moreover have "ends (initRateLimiter redis cfg) p ?G" if "RateLimitBackend cfg = ''redis''"
    using that False by (intro ends_value) (auto simp: initRateLimiter_def adds_def quiet_def)
  ultimately show ?thesis by blast
qed

section \<open>The program\<close>

lemma serve_until_ends:
  "ends (serve_until cfg h xs) p (\<lambda>res t w.
    serving cfg (is_ok res) t \<and> w = run_server h xs (p_world p))"
proof -
  have "ends (check (Listen (CHR '':'' # Port cfg)) [] ''server error: '' (
     check ShutdownServer [] ''graceful shutdown: '' (\<lambda>p. (Inr (), p))))
    (p\<lparr>p_world := run_server h xs (p_world p)\<rparr>)
    (\<lambda>res t w. serving cfg (is_ok res) t \<and> w = run_server h xs (p_world p))"
    by (intro ends_rules) (auto simp: serving_def)
  then show ?thesis
    unfolding ends_def serve_until_def by (simp add: world_update [of "run_server h xs"])
qed

text \<open>
  The world after the part of \<open>run\<close> that has telemetry: some requests were served, by a router with a
  tame limiter, between two quiet phases.
\<close>

lemma listening_ends:
  "ends (\<lambda>p. serve_until cfg h xs (noted StartAuthLimiter (p_world_update new_authRL p))) p
    (\<lambda>res t w. (\<exists>sv. t = (StartAuthLimiter, None) # sv \<and> serving cfg (is_ok res) sv) \<and>
      w = run_server h xs (new_authRL (p_world p)))"
  using serve_until_ends [of cfg h xs "noted StartAuthLimiter (p_world_update new_authRL p)"]
  unfolding ends_def by (auto simp: world_update [of new_authRL])

lemma quiet_new_authRL [simp]: "quiet w (new_authRL w)"
  by (simp add: quiet_def new_authRL_def)

definition limited_life :: "Config \<Rightarrow> bool \<Rightarrow> calls \<Rightarrow> bool" where
  "limited_life cfg ok t \<longleftrightarrow>
     (\<exists>up sv down. t = up @ sv @ down \<and> \<not> listens up \<and>
       (RateLimitBackend cfg = ''redis'' \<longrightarrow> RedisURL cfg \<noteq> '''' \<and> (PingRedis, None) \<in> set up) \<and>
       adds (AuthSweeper # limiter_up cfg) up \<and> serving cfg ok sv \<and>
       map fst down = [if RateLimitBackend cfg = ''redis'' then CloseRedis else StopLimiter]) \<or>
     \<not> ok \<and> \<not> listens t \<and> (adds [] t \<or> redis_down t \<and> adds [RedisClient] t)"

definition served_by ::
  "('s RateLimiter \<Rightarrow> ('s, 'n) handler) \<Rightarrow> 'n step list \<Rightarrow> 's world \<Rightarrow> 's world \<Rightarrow> bool" where
  "served_by H xs w w' \<longleftrightarrow>
     (\<exists>rl ys w1. tame_limiter rl \<and> ys \<in> {[], xs} \<and> quiet w w1 \<and> quiet (run_server (H rl) ys w1) w')"

lemma quiet_served_by:
  assumes "quiet w (w' :: 's world)"
  shows "served_by H xs w w'"
proof -
  have "tame_limiter (memory_limiter w_memory w_memory_update :: 's RateLimiter)"
    by (rule memory_limiter_tame) (simp add: quiet_def)
  then show ?thesis
    unfolding served_by_def using assms quiet_refl
    by (metis insertI1 run_server.simps(1))
qed

lemma limited_ends:
  "ends (andthen (initRateLimiter redis cfg) '''' (\<lambda>(rl, closeRL).
      deferred closeRL (\<lambda>p.
        serve_until cfg (H rl) xs (noted StartAuthLimiter (p_world_update new_authRL p))))) p
    (\<lambda>res t w. limited_life cfg (is_ok res) t \<and> served_by H xs (p_world p) w)"
proof (rule ends_andthen, rule ends_mono [OF initRateLimiter_ends], goal_cases)
  case (1 res t w)
  show ?case
  proof (cases res)
    case (Inl err)
    then show ?thesis using 1 by (auto simp: limited_life_def intro: quiet_served_by)
  next
    case (Inr x)
    obtain rl closeRL where x: "x = (rl, closeRL)" by (cases x)
    let ?close = "if RateLimitBackend cfg = ''redis'' then CloseRedis else StopLimiter"
    obtain f where f: "leaves closeRL (\<lambda>t. map fst t = [?close]) f" "\<And>w. quiet w (f w)"
      using 1 Inr x by auto
    have "limited_life cfg ok (t @ ((StartAuthLimiter, None) # sv) @ down)"
      if "serving cfg ok sv" "map fst down = [?close]" for ok sv down
      unfolding limited_life_def
      using 1 Inr x that
      by (intro disjI1 exI [of _ "t @ [(StartAuthLimiter, None)]"] exI [of _ sv] exI [of _ down])
        (auto simp: is_listen_def adds_def)
    moreover have "served_by H xs (p_world p) (f (run_server (H rl) xs (new_authRL w)))"
      unfolding served_by_def
      using 1 Inr x f(2) quiet_trans [OF _ quiet_new_authRL, of "p_world p" w]
      by (intro exI [of _ rl] exI [of _ xs] exI [of _ "new_authRL w"]) auto
    ultimately show ?thesis
      unfolding Inr x sum.case prod.case
      by (intro ends_deferred [OF f(1)] ends_mono [OF listening_ends]) auto
  qed
qed

definition app_life :: "Config \<Rightarrow> bool \<Rightarrow> calls \<Rightarrow> bool" where
  "app_life cfg ok t \<longleftrightarrow>
     (\<exists>up sv down. t = up @ sv @ down \<and> \<not> listens up \<and> backends_ready cfg up \<and>
       adds (AuthSweeper # limiter_up cfg @ pool_up cfg) up \<and> serving cfg ok sv \<and>
       map fst down = app_closing cfg) \<or>
     \<not> ok \<and> \<not> listens t \<and> (adds [] t \<or> redis_down t \<and> adds [RedisClient] t)"

text \<open>A limited life inside an open and a close of the pool.\<close>

lemma limited_app_life:
  assumes "limited_life cfg ok t" "\<not> listens s" "adds (pool_up cfg) s"
    and "DatabaseURL cfg \<noteq> '''' \<longrightarrow> (MigrateUp, None) \<in> set s"
    and "map fst u = (if DatabaseURL cfg = '''' then [] else [ClosePool])"
  shows "app_life cfg ok (s @ t @ u)"
  using assms(1) unfolding limited_life_def
proof (rule disjE; elim exE conjE)
  fix up sv down
  assume "t = up @ sv @ down" "\<not> listens up" "serving cfg ok sv"
    "RateLimitBackend cfg = ''redis'' \<longrightarrow> RedisURL cfg \<noteq> '''' \<and> (PingRedis, None) \<in> set up"
    "adds (AuthSweeper # limiter_up cfg) up"
    "map fst down = [if RateLimitBackend cfg = ''redis'' then CloseRedis else StopLimiter]"
  then show ?thesis
    unfolding app_life_def using assms(2-5)
    by (intro disjI1 exI [of _ "s @ up"] exI [of _ sv] exI [of _ "down @ u"])
      (auto simp: adds_def backends_ready_def app_closing_def)
next
  assume "\<not> ok" "\<not> listens t" and t: "adds [] t \<or> redis_down t \<and> adds [RedisClient] t"
  moreover have "fold held_step u H = fold (\<lambda>c. remove1 (the (closes c))) (map fst u) H" for H
    by (rule fold_closers [OF refl]) (simp add: assms(5))
  moreover have "\<not> listens u"
    using assms(5) by (auto simp: is_listen_def split: if_splits)
  ultimately show ?thesis
    using assms(2,3,5) by (auto simp: app_life_def adds_def pool_up_def)
qed

definition router_of ::
  "('s, 'k, 'p, 'n) build \<Rightarrow> Config \<Rightarrow> bool \<Rightarrow> 's RateLimiter \<Rightarrow> ('s, 'n) handler" where
  "router_of b cfg pg rl =
     NewRouter (b_lib b) cfg rl (if OTelEnabled cfg then Some (b_promhttp b) else None)
       (handler_New cfg pg) pg"

lemma run_app_ends:
  assumes "prom = (if OTelEnabled cfg then Some (b_promhttp b) else None)"
  shows "ends (run_app b cfg prom xs) p (\<lambda>res t w.
    app_life cfg (is_ok res) t \<and> (\<exists>pg. served_by (router_of b cfg pg) xs (p_world p) w))"
  unfolding run_app_def
proof (rule ends_andthen, rule ends_mono [OF initStore_ends], goal_cases)
  case (1 res t w)
  show ?case
  proof (cases res)
    case (Inl err)
    then show ?thesis using 1 quiet_served_by [OF quiet_refl] by (auto simp: app_life_def)
  next
    case (Inr x)
    obtain pg closeDB where x: "x = (pg, closeDB)" by (cases x)
    let ?close = "if DatabaseURL cfg = '''' then [] else [ClosePool]"
    have f: "leaves closeDB (\<lambda>t. map fst t = ?close) id" and w: "w = p_world p"
      and life: "\<And>ok s u. limited_life cfg ok s \<Longrightarrow> map fst u = ?close \<Longrightarrow> app_life cfg ok (t @ s @ u)"
      using 1 Inr x by (auto intro: limited_app_life)
    have "router_of b cfg pg = (\<lambda>rl. NewRouter (b_lib b) cfg rl prom (handler_New cfg pg) pg)"
      by (simp add: router_of_def assms fun_eq_iff)
    then have H: "served_by (\<lambda>rl. NewRouter (b_lib b) cfg rl prom (handler_New cfg pg) pg) xs v v' \<Longrightarrow>
        \<exists>pg. served_by (router_of b cfg pg) xs v v'" for v v'
      by metis
    show ?thesis
      unfolding Inr x sum.case prod.case
      by (intro ends_deferred [OF f] ends_mono [OF limited_ends]) (use life w H in auto)
  qed
qed

definition telemetry_closing :: "bool \<Rightarrow> call list" where
  "telemetry_closing enabled = (if enabled then map ShutdownProvider [Traces, Metrics, Logs] else [])"

lemma leaves_shutdownProviders:
  "leaves (\<lambda>p. snd (shutdownProviders p)) (\<lambda>t. map fst t = telemetry_closing True) id"
  unfolding leaves_def
proof
  fix p :: "'s process"
  show "\<exists>t. snd (shutdownProviders p) = grow t (p\<lparr>p_world := id (p_world p)\<rparr>) \<and>
      map fst t = telemetry_closing True"
    using shutdownProviders_trace [of p] by (auto simp: telemetry_closing_def)
qed

lemma buildResource_ends:
  "ends (buildResource ps) p (\<lambda>res t w. w = p_world p \<and> \<not> listens t \<and> adds [] t)"
  unfolding buildResource_def by (intro ends_rules) (auto simp: adds_def is_listen_def)

lemma ends_grown: "G res t (p_world p) \<Longrightarrow> ends (\<lambda>p. (res, grow t p)) p G"
  unfolding ends_def by (metis grow_same)

lemma exporter_down_simps [simp]:
  "exporter_down ((c, Some e) # t) \<longleftrightarrow>
     c \<in> {NewExporter Metrics, NewExporter Logs, NewPrometheusExporter} \<or> exporter_down t"
  "exporter_down ((c, None) # t) \<longleftrightarrow> exporter_down t"
  by (simp_all add: exporter_down_def failed_def)

definition init_post ::
  "('s, 'n) handler \<Rightarrow> bool \<Rightarrow> go_string + ('s, 'n) telemetry_Result \<Rightarrow> calls \<Rightarrow> bool" where
  "init_post promhttp enabled res t \<longleftrightarrow> \<not> listens t \<and>
    (case res of
       Inl _ \<Rightarrow> adds [] t \<or> exporter_down t \<and> (\<exists>rs. set rs \<subseteq> range Exporter \<and> adds rs t)
     | Inr otel \<Rightarrow> adds (exporters_up enabled) t \<and>
         PrometheusHandler otel = (if enabled then Some promhttp else None) \<and>
         leaves (\<lambda>p. snd (Shutdown otel p)) (\<lambda>t. map fst t = telemetry_closing enabled) id)"

lemma init_post_failed:
  assumes "adds [] s" "\<not> listens s"
  shows "init_post h e (Inl err) (s @ [(NewExporter Traces, Some x)])"
    "init_post h e (Inl err) (s @ [(NewExporter Traces, None), (NewExporter Metrics, Some x)])"
    "init_post h e (Inl err) (s @ [(NewExporter Traces, None), (NewExporter Metrics, None),
      (NewExporter Logs, Some x)])"
    "init_post h e (Inl err) (s @ [(NewExporter Traces, None), (NewExporter Metrics, None),
      (NewExporter Logs, None), (NewPrometheusExporter, Some x)])"
  using assms
  by (auto simp: init_post_def adds_def is_listen_def
      intro: exI [of _ "[Exporter Traces]"] exI [of _ "[Exporter Metrics, Exporter Traces]"]
        exI [of _ "[Exporter Logs, Exporter Metrics, Exporter Traces]"])

lemma init_post_up:
  assumes "adds [] s" "\<not> listens s"
    and "list_all (\<lambda>c. closes c = None \<and> opens c = None \<and> \<not> is_listen c) (map fst u)"
  shows "init_post h True (Inr \<lparr>Shutdown = shutdownProviders, PrometheusHandler = Some h, Resource = x\<rparr>)
    (s @ (NewExporter Traces, None) # (NewExporter Metrics, None) # (NewExporter Logs, None) #
      (NewPrometheusExporter, None) # u)"
proof -
  have "fold held_step u H = H" for H
    using assms(3) by (induction u arbitrary: H) (auto simp: held_step_def)
  moreover have "\<not> listens u"
    using assms(3) by (induction u) auto
  ultimately show ?thesis
    using assms(1,2) leaves_shutdownProviders
    by (simp add: init_post_def adds_def exporters_up_def is_listen_def)
qed

lemma Init_ends:
  "ends (Init promhttp parse_float e ps) p
    (\<lambda>res t w. w = p_world p \<and> init_post promhttp (Enabled ps) res t)"
proof (cases "Enabled ps")
  case True
  then have up: "Enabled ps = True" by simp
  show ?thesis
    unfolding Init_def up not_True_eq_False if_False
  proof (rule ends_andthen, rule ends_mono [OF buildResource_ends], goal_cases)
    case (1 res t w)
    then show ?case
    proof (cases res)
      case (Inl err)
      then show ?thesis using 1 by (simp add: init_post_def)
    next
      case (Inr x)
      then show ?thesis
        using 1 by (auto intro!: ends_check ends_grown init_post_up
            simp: init_post_failed is_listen_def)
    qed
  qed
next
  case False
  then have off: "Enabled ps = False" by simp
  show ?thesis
    unfolding Init_def off not_False_eq_True if_True fold_noted
    by (intro ends_grown)
      (auto simp: init_post_def adds_def is_listen_def exporters_up_def telemetry_closing_def
        leaves_def intro: exI [of _ "[]"])
qed

text \<open>An application's life inside the telemetry's.\<close>

lemma app_life_within:
  assumes "app_life cfg ok t" "\<not> listens s" "adds (exporters_up (OTelEnabled cfg)) s"
    and "map fst u = telemetry_closing (OTelEnabled cfg)"
  shows "orderly cfg ok (s @ t @ u) \<or> \<not> ok \<and> aborted (s @ t @ u)"
  using assms(1) unfolding app_life_def
proof (rule disjE; elim exE conjE)
  fix up sv down
  assume *: "t = up @ sv @ down" "\<not> listens up" "serving cfg ok sv" "backends_ready cfg up"
    "adds (AuthSweeper # limiter_up cfg @ pool_up cfg) up" "map fst down = app_closing cfg"
  then have "ready cfg (s @ up)"
    using assms(2,3) by (auto simp: ready_def backends_ready_def held_def adds_def)
  then show ?thesis
    unfolding orderly_def using * assms(4)
    by (intro disjI1 exI [of _ "s @ up"] exI [of _ sv] exI [of _ "down @ u"])
      (simp add: closing_def telemetry_closing_def)
next
  assume "\<not> ok" "\<not> listens t" and t: "adds [] t \<or> redis_down t \<and> adds [RedisClient] t"
  moreover have "fold held_step u H = fold (\<lambda>c. remove1 (the (closes c))) (map fst u) H" for H
    by (rule fold_closers [OF refl]) (simp add: assms(4) telemetry_closing_def)
  moreover have "\<not> listens u"
    using arg_cong [OF assms(4), where f = "list_ex is_listen"]
    by (auto simp: listens_def telemetry_closing_def is_listen_def list_ex_iff split: if_splits)
  ultimately show ?thesis
    using assms(2,3,4)
    by (auto simp: aborted_def adds_def held_def exporters_up_def telemetry_closing_def
        split: if_splits)
qed

definition life :: "Config \<Rightarrow> bool \<Rightarrow> calls \<Rightarrow> bool" where
  "life cfg ok t \<longleftrightarrow> orderly cfg ok t \<or> \<not> ok \<and> aborted t"

lemma init_post_aborted: "init_post h e (Inl err) t \<Longrightarrow> life cfg False t"
  by (auto simp: init_post_def life_def aborted_def adds_def held_def)

lemma ends_after:
  "ends m (grow s p) (\<lambda>res t w. G res (s @ t) w) \<Longrightarrow> ends (\<lambda>p. m (grow s p)) p G"
  unfolding ends_def by auto

lemma served_by_refl: "served_by H xs w w"
  by (simp add: quiet_served_by)

lemma run_ends:
  assumes "random (uuid_New (for_service (b_lib b))) (p_world p) = Some (uuid, v)"
  shows "\<exists>res t w. run b e cfg xs p = Some (res, grow t (p\<lparr>p_world := w\<rparr>)) \<and>
    life cfg (is_ok res) t \<and> (\<exists>pg. served_by (router_of b cfg pg) xs v w)"
proof -
  let ?ps = "program_params b cfg uuid"
  have on: "Enabled ?ps = OTelEnabled cfg" by (simp add: program_params_def)
  have "ends (andthen (Init (b_promhttp b) (b_parse_float b) e ?ps) ''init telemetry: '' (\<lambda>otel.
        deferred (\<lambda>p. snd (Shutdown otel p)) (\<lambda>p.
          run_app b cfg (PrometheusHandler otel) xs
            (if OTelEnabled cfg then noted SetDefaultLogger p else p)))) (p\<lparr>p_world := v\<rparr>)
      (\<lambda>res t w. life cfg (is_ok res) t \<and> (\<exists>pg. served_by (router_of b cfg pg) xs v w))"
  proof (rule ends_andthen, rule ends_mono [OF Init_ends], goal_cases)
    case (1 res t w)
    show ?case
    proof (cases res)
      case (Inl err)
      then show ?thesis using 1 by (auto intro: init_post_aborted served_by_refl)
    next
      case (Inr otel)
      have otel: "\<not> listens t" "adds (exporters_up (OTelEnabled cfg)) t" and v: "w = v"
        and prom: "PrometheusHandler otel = (if OTelEnabled cfg then Some (b_promhttp b) else None)"
        and down: "leaves (\<lambda>p. snd (Shutdown otel p))
          (\<lambda>t. map fst t = telemetry_closing (OTelEnabled cfg)) id"
        using 1 Inr by (simp_all add: init_post_def on)
      let ?log = "if OTelEnabled cfg then [(SetDefaultLogger, None)] else [] :: calls"
      have log: "\<not> listens (t @ ?log)" "adds (exporters_up (OTelEnabled cfg)) (t @ ?log)"
        using otel by (auto simp: is_listen_def adds_def)
      have "(if OTelEnabled cfg then noted SetDefaultLogger q else q) = grow ?log q" for q :: "'c process"
        by simp
      then have eq: "(\<lambda>p. run_app b cfg (PrometheusHandler otel) xs
          (if OTelEnabled cfg then noted SetDefaultLogger p else p)) =
        (\<lambda>p. run_app b cfg (PrometheusHandler otel) xs (grow ?log p))"
        by simp
      have "life cfg ok (t @ (?log @ s) @ u)"
        if "app_life cfg ok s" "map fst u = telemetry_closing (OTelEnabled cfg)" for ok s u
        using app_life_within [OF that(1) log that(2)] by (simp add: life_def)
      then show ?thesis
        unfolding Inr sum.case v eq
        by (intro ends_deferred [OF down] ends_after ends_mono [OF run_app_ends [OF prom]]) auto
    qed
  qed
  then show ?thesis
    unfolding ends_def run_def assms by auto
qed

end
