(* ===== verification/Auth_Rate.thy ===== *)
theory Auth_Rate
  imports Server_Runs
begin

text \<open>
  The limiter of the auth endpoints in the running server: its state is touched by the auth group
  and by its clean-up only, so the requests it lets through are the log of a sliding window.
\<close>

section \<open>What leaves the auth limiter alone\<close>

text \<open>\<open>still\<close>: the auth limiter is untouched, and time went on.\<close>

definition still :: "'s world \<Rightarrow> 's world \<Rightarrow> bool" where
  "still w w' \<longleftrightarrow> w_auth w' = w_auth w \<and> w_clock w' = w_clock w \<and> w_clockn w \<le> w_clockn w'"

lemma still_refl [simp]: "still w w"
  by (simp add: still_def)

lemma still_trans: "still u v \<Longrightarrow> still v w \<Longrightarrow> still u w"
  by (auto simp: still_def)

lemma still_time [simp]: "still w (snd (time_Now w))"
  by (simp add: still_def time_Now_def)

lemma still_sql [simp]: "still w (snd (sql m w))"
  by (simp add: still_def sql_def Let_def case_prod_beta)

lemma still_random: "random g w = Some (x, w') \<Longrightarrow> still w w'"
  by (auto simp: still_def random_def)

lemma still_smtp [simp]: "still w (snd (smtp_SendMail m w))"
  by (simp add: still_def smtp_SendMail_def Let_def split: smtp_outcome.split)

lemma still_eq_sql: "sql m w = (x, w') \<Longrightarrow> still w w'"
  using still_sql [of w m] by simp

lemma still_eq_time: "time_Now w = (x, w') \<Longrightarrow> still w w'"
  using still_time [of w] by simp

text \<open>A handler that leaves it alone.\<close>

definition stays :: "('s, 'n) handler \<Rightarrow> bool" where
  "stays h \<longleftrightarrow> (\<forall>r c. still (cworld c) (cworld (h r c)))"

lemma staysD: "stays h \<Longrightarrow> still (cworld c) (cworld (h r c))"
  by (simp add: stays_def)

lemma issue_token_still:
  assumes "issue_token lib email ty w = Some (res, w')"
  shows "still w w'"
proof -
  obtain token w1 where 1: "random GenerateToken w = Some (token, w1)"
    using assms by (auto simp: issue_token_def split: option.splits)
  obtain now w2 where 2: "time_Now w1 = (now, w2)" by fastforce
  obtain x w3 where 3: "sql (CreateToken email (HashKey (sha256 lib) token) ty (now + 24 * Hour)) w2 = (x, w3)"
    by fastforce
  have "w' = w3" using assms 1 2 3 by (simp add: issue_token_def Let_def)
  then show ?thesis
    using still_trans [OF still_trans [OF still_random [OF 1] still_eq_time [OF 2]] still_eq_sql [OF 3]]
    by simp
qed

lemma send_still [simp]:
  "still w (snd (SendVerification e cfg to url w))" "still w (snd (SendReissue e cfg to url w))"
  by (simp_all add: SendVerification_def SendReissue_def smtp_send_def Let_def split: sum.split)

lemma send_link_still:
  "still w (send_link lib srv SendVerification email url w)"
  "still w (send_link lib srv SendReissue email url w)"
  by (simp_all add: send_link_def split: option.split)

lemma register_token_still:
  "still (cworld c) (cworld (register_token lib srv email r c))"
  by (auto simp: register_token_def split: option.split sum.split
      intro: issue_token_still still_trans [OF issue_token_still send_link_still(1)])

lemma register_account_still:
  "still (cworld c) (cworld (register_account lib srv email name r c))"
proof -
  obtain existing w1 where q1: "sql (GetClientByEmail email) (cworld c) = (existing, w1)"
    by fastforce
  obtain created w2 where q2: "sql (CreateClient email name) w1 = (created, w2)" by fastforce
  note s1 = still_eq_sql [OF q1] and s2 = still_trans [OF still_eq_sql [OF q1] still_eq_sql [OF q2]]
  show ?thesis
    using s1 s2 still_trans [OF s1 register_token_still [of "c\<lparr>cworld := w1\<rparr>", simplified]]
      still_trans [OF s2 register_token_still [of "c\<lparr>cworld := w2\<rparr>", simplified]]
    by (auto simp: register_account_def q1 q2 Let_def split: sum.split)
qed

lemma AuthRegister_stays: "stays (AuthRegister lib srv)"
  by (simp add: stays_def AuthRegister_def register_account_still split: option.split sum.split)

lemma AuthReissue_stays: "stays (AuthReissue lib srv)"
  unfolding stays_def
proof (intro allI)
  fix r c
  show "still (cworld c) (cworld (AuthReissue lib srv r c))"
    by (auto simp: AuthReissue_def Let_def split: option.split sum.split prod.split
        intro: still_eq_sql still_trans [OF still_eq_sql issue_token_still]
          still_trans [OF still_eq_sql still_trans [OF issue_token_still send_link_still(2)]])
qed

lemma grant_key_still: "still (cworld c) (cworld (grant_key lib ty email r c))"
  by (auto simp: grant_key_def Let_def split: option.split prod.split sum.split
      intro: still_trans [OF still_random still_eq_sql])

lemma verify_token_still: "still (cworld c) (cworld (verify_token lib tok ty r c))"
proof -
  obtain res w1 where q1: "sql (ConsumeToken (HashKey (sha256 lib) tok) ty) (cworld c) = (res, w1)"
    by fastforce
  note s1 = still_eq_sql [OF q1]
  have g: "still (cworld c) (cworld (grant_key lib ty email r (c\<lparr>cworld := w\<rparr>)))"
    if "still (cworld c) w" for w email
    using still_trans [OF that grant_key_still [of "c\<lparr>cworld := w\<rparr>", simplified]] by simp
  show ?thesis
  proof (cases res)
    case (Inl err)
    then show ?thesis using s1 by (simp add: verify_token_eq [OF q1])
  next
    case (Inr t)
    obtain x w2 where q2: "sql (RevokeClient (token_email t)) w1 = (x, w2)" by fastforce
    note s2 = still_trans [OF s1 still_eq_sql [OF q2]]
    show ?thesis
      using Inr q2 s2 g [OF s1] g [OF s2] by (auto simp: verify_token_eq [OF q1] split: sum.split)
  qed
qed

lemma AuthVerify_stays: "stays (AuthVerify lib srv)"
  by (simp add: stays_def AuthVerify_cases verify_token_still split: option.split)


text \<open>The endpoints of the API.\<close>

lemma serve_results_stays: "stays (serve_results lib enc service ps)"
  by (auto simp: stays_def serve_results_def invalid_param_def split: option.split sum.split
      intro: still_random still_trans [OF still_random still_time])

lemma siw_bind_stays:
  "(\<And>v. stays (k v)) \<Longrightarrow> stays (siw_bind api_wrapper bnd name k)"
  by (auto simp: stays_def siw_bind_def invalid_param_def split: sum.split bind_error.split)

lemma WriteSingle_world [simp]: "cworld (WriteSingle j ps r c) = snd (time_Now (cworld c))"
  by (simp add: WriteSingle_def Let_def case_prod_beta)

lemma server_stays:
  "stays Server_FlipCoin" "stays (Server_RollDice lib p1)" "stays (Server_GenerateNumber lib p2)"
  "stays (Server_GenerateUUID lib p3)" "stays (Server_GenerateColor lib p4)"
  "stays (Server_GeneratePassword lib p5)" "stays (Server_GenerateWords lib p6)"
  "stays (Server_GenerateLorem lib p7)" "stays (Server_GenerateSSHKey lib p8)"
  "stays (Server_GenerateCoordinates lib p9)" "stays (Server_GetOpenAPISpec spec)"
  "stays Healthz" "stays Readyz" "stays NotFound"
proof -
  show "stays Server_FlipCoin"
    by (auto simp: stays_def Server_FlipCoin_def split: option.split
        intro: still_trans [OF still_random still_time])
  show "stays (Server_GenerateNumber lib p2)"
    by (simp add: Server_GenerateNumber_def Let_def serve_results_stays)
qed (simp_all add: Server_RollDice_def Server_GenerateUUID_def Server_GenerateColor_def
    Server_GeneratePassword_def Server_GenerateWords_def Server_GenerateLorem_def
    Server_GenerateSSHKey_def Server_GenerateCoordinates_def Let_def serve_results_stays [unfolded stays_def] stays_def
    Server_GetOpenAPISpec_def OpenAPISpec_def Healthz_def Readyz_def NotFound_def)

lemma wrapped_stay:
  "stays (siw_FlipCoin api_wrapper)" "stays (siw_GenerateColor api_wrapper bd lib)"
  "stays (siw_GenerateCoordinates api_wrapper bd lib)" "stays (siw_RollDice api_wrapper bd lib)"
  "stays (siw_GenerateLorem api_wrapper bd lib)" "stays (siw_GenerateNumber api_wrapper bd lib)"
  "stays (siw_GeneratePassword api_wrapper bd lib)" "stays (siw_GenerateSSHKey api_wrapper bd lib)"
  "stays (siw_GenerateUUID api_wrapper bd lib)" "stays (siw_GenerateWords api_wrapper bd lib)"
  "stays (siw_GetOpenAPISpec api_wrapper spec)"
  unfolding wrapper_defs siw_GetOpenAPISpec_def by (intro siw_bind_stays server_stays)+

lemma api_routes_stay: "(key, h) \<in> set (api_routes lib) \<Longrightarrow> stays h"
  by (auto simp: api_routes_def Let_def intro: wrapped_stay)

section \<open>Requests that are not for the auth endpoints\<close>

definition auth_call :: "'n request \<Rightarrow> bool" where
  "auth_call r \<longleftrightarrow> Method r = ''POST'' \<and>
     Path r \<in> {''/api/v1/auth/verify'', ''/api/v1/auth/register'', ''/api/v1/auth/reissue''}"

text \<open>The other parts of the server do not touch the auth limiter.\<close>

definition app_still :: "'s RateLimiter \<Rightarrow> ('s, 'n) handler option \<Rightarrow> bool" where
  "app_still rl prom \<longleftrightarrow> (\<forall>key w. still w (snd (Allow rl key w))) \<and>
     (\<forall>key n w. still w (snd (AllowN rl key n w))) \<and> (\<forall>g. prom = Some g \<longrightarrow> stays g)"

definition stays_on :: "'n request \<Rightarrow> ('s, 'n) handler \<Rightarrow> bool" where
  "stays_on r h \<longleftrightarrow> (\<forall>c. still (cworld c) (cworld (h r c)))"

lemma stays_stays_on: "stays h \<Longrightarrow> stays_on r h"
  by (simp add: stays_def stays_on_def)

lemma AdminAuth_stays: "stays h \<Longrightarrow> stays (AdminAuth tok h)"
  by (simp add: stays_def AdminAuth_def)

lemma CORS_stays:
  fixes h :: "('s, 'n) handler"
  assumes "stays_on r h"
  shows "stays_on r (CORS origins h)"
  unfolding stays_on_def
proof
  fix c :: "('s, 'n) conn"
  show "still (cworld c) (cworld (CORS origins h r c))"
    using assms [unfolded stays_on_def, THEN spec, of "cors_headers origins r c"]
    by (simp add: CORS_headers)
qed

lemma Logger_stays:
  fixes h :: "('s, 'n) handler"
  assumes "stays_on r h"
  shows "stays_on r (Logger h)"
  unfolding stays_on_def
proof
  fix c :: "('s, 'n) conn"
  let ?c = "c\<lparr>cworld := snd (time_Now (cworld c))\<rparr>"
  have "still (cworld c) (cworld (h r c))" "still (cworld ?c) (cworld (h r ?c))"
    using assms unfolding stays_on_def by blast+
  moreover from this(2) have "still (cworld c) (cworld (h r ?c))"
    using still_trans [OF still_time] by simp
  moreover from this have "still (cworld c) (snd (time_Now (cworld (h r ?c))))"
    by (rule still_trans) simp
  ultimately show "still (cworld c) (cworld (Logger h r c))"
    by (simp add: Logger_def Let_def case_prod_beta)
qed

lemma Auth_stays:
  fixes h :: "('s, 'n) handler"
  assumes "stays h"
  shows "stays (Auth sha has_store h)"
  unfolding stays_def
proof (intro allI)
  fix r :: "'n request" and c :: "('s, 'n) conn"
  have "still (cworld c) (cworld (h r' (c\<lparr>cworld := w\<rparr>)))" if "sql m (cworld c) = (x, w)" for r' m x w
    using still_trans [OF still_eq_sql [OF that]] staysD [OF assms, of "c\<lparr>cworld := w\<rparr>" r'] by simp
  then show "still (cworld c) (cworld (Auth sha has_store h r c))"
    using staysD [OF assms]
    by (auto simp: Auth_def Let_def split: prod.split sum.split intro: still_eq_sql)
qed

lemma RateLimit_stays:
  fixes h :: "('s, 'n) handler"
  assumes "app_still rl prom" "stays h"
  shows "stays (RateLimit rl rpm failClosed h)"
  unfolding stays_def
proof (intro allI)
  fix r :: "'n request" and c :: "('s, 'n) conn"
  obtain limit res w where rc: "rate_check rl rpm r (cworld c) = (limit, res, w)"
    by (metis prod_cases3)
  have w: "still (cworld c) w"
    using assms(1) rc by (auto simp: app_still_def rate_check_def split: option.splits)
      (metis snd_conv)+
  then have h: "still (cworld c) (cworld (h r c'))" if "cworld c' = w" for c'
    using still_trans [OF w] staysD [OF assms(2), of c' r] that by simp
  show "still (cworld c) (cworld (RateLimit rl rpm failClosed h r c))"
    using w h still_trans [OF w still_time]
    by (auto simp: RateLimit_cases [OF rc] Let_def split: sum.split)
qed

lemma mux_stays_on:
  fixes routes :: "('s, 'n) route list"
  assumes "router_ok lib"
    and "\<And>key h. (key, h) \<in> set routes \<Longrightarrow> covers key (Method r) (path r) \<Longrightarrow> stays_on r h"
  shows "stays_on r (mux lib routes path)"
  unfolding stays_on_def
proof
  fix c :: "('s, 'n) conn"
  show "still (cworld c) (cworld (mux lib routes path r c))"
  proof (cases rule: mux_cases [OF assms(1), of routes path r c])
    case 1
    then show ?thesis using unmatched_ok(1) [OF assms(1)] by simp
  next
    case (2 key h)
    then show ?thesis using assms(2) [OF 2(1,2)] by (simp add: stays_on_def)
  qed
qed

lemma api_mux_stays: "router_ok (for_router lib) \<Longrightarrow> stays (mux (for_router lib) (api_routes lib) api_path)"
  using mux_stays_on [of "for_router lib" "api_routes lib" _ api_path] api_routes_stay stays_stays_on
  unfolding stays_def stays_on_def by blast

lemma app_mux_stays:
  assumes "router_ok (for_router lib)" "app_still rl prom" "\<not> auth_call r"
  shows "stays_on r (mux (for_router lib) (app_routes lib cfg rl prom srv has_store) Path)"
proof (rule mux_stays_on [OF assms(1)])
  fix key h
  assume route: "(key, h) \<in> set (app_routes lib cfg rl prom srv has_store)"
    and cov: "covers key (Method r) (Path r)"
  have "stays (api_group (sha256 (for_auth lib)) cfg rl has_store
      (mux (for_router lib) (api_routes lib) api_path))"
    unfolding stays_def api_group_def
    using Auth_stays [OF RateLimit_stays [OF assms(2) api_mux_stays [OF assms(1)]]]
    by (simp add: stays_def)
  moreover have "stays (MetricsHandler prom)"
    using assms(2) server_stays(14) by (auto simp: app_still_def MetricsHandler_def split: option.split)
  ultimately have "stays h"
    using route cov assms(3) server_stays(12,13)
    by (auto simp: app_routes_def auth_routes_def covers_def auth_call_def split: if_splits)
  then show "stays_on r h" by (rule stays_stays_on)
qed

lemma other_request_still:
  assumes "router_ok (for_router lib)" "app_still rl prom" "\<not> auth_call r"
  shows "still w (cworld (serve (NewRouter lib cfg rl prom srv has_store) r w))"
proof -
  let ?r = "chi_context (for_router lib) (fresh_request r)"
  have "\<not> auth_call ?r"
    using context_ok [OF assms(1), of "fresh_request r"] assms(3)
    by (simp add: same_request_def auth_call_def fresh_request_def)
  from Logger_stays [OF CORS_stays [OF app_mux_stays [OF assms(1,2) this]]]
  show ?thesis by (simp add: serve_def NewRouter_def otelhttp_ok [OF assms(1)] stays_on_def)
    (metis cworld_new)
qed

section \<open>Requests for the auth endpoints\<close>

lemma error_statuses [simp]:
  "unsent c \<Longrightarrow> status (bad_request d r c) = Some 400"
  "unsent c \<Longrightarrow> status (server_error d r c) = Some 500"
  "unsent c \<Longrightarrow> status (no_database r c) = Some 503"
  "unsent c \<Longrightarrow> status (writeAccepted c) = Some 202"
  by (simp_all add: bad_request_def server_error_def no_database_def writeAccepted_def)

lemma panic_unlimited: "unsent c \<Longrightarrow> status c \<noteq> Some 429"
  by (simp add: unsent_def)

lemma register_token_unlimited: "unsent c \<Longrightarrow> status (register_token lib srv email r c) \<noteq> Some 429"
  by (simp add: register_token_def panic_unlimited split: option.split sum.split)

lemma AuthRegister_unlimited: "unsent c \<Longrightarrow> status (AuthRegister lib srv r c) \<noteq> Some 429"
  by (simp add: AuthRegister_def register_account_def Let_def register_token_unlimited
      split: option.split sum.split prod.split)

lemma AuthReissue_unlimited: "unsent c \<Longrightarrow> status (AuthReissue lib srv r c) \<noteq> Some 429"
  by (simp add: AuthReissue_def Let_def panic_unlimited split: option.split sum.split prod.split)

lemma grant_key_unlimited: "unsent c \<Longrightarrow> status (grant_key lib ty email r c) \<noteq> Some 429"
  by (simp add: grant_key_def Let_def panic_unlimited split: option.split sum.split prod.split)

lemma AuthVerify_unlimited: "unsent c \<Longrightarrow> status (AuthVerify lib srv r c) \<noteq> Some 429"
  by (simp add: AuthVerify_def verify_token_def Let_def grant_key_unlimited
      split: option.split sum.split prod.split)

lemma AdminAuth_unlimited:
  assumes "unsent c" "\<And>c. unsent c \<Longrightarrow> status (h r c) \<noteq> Some 429"
  shows "status (AdminAuth tok h r c) \<noteq> Some 429"
  using assms by (simp add: AdminAuth_def)

text \<open>What an auth request does: one call of the limiter, and the handler if it is let through.\<close>

definition limiter_clock :: "'s world \<Rightarrow> time" where
  "limiter_clock w = w_clock w (Suc (w_clockn w))"

lemma auth_group_step:
  assumes "unsent c" "stays h" "\<And>c. unsent c \<Longrightarrow> status (h r c) \<noteq> Some 429"
    and "CtxClient r = None"
  defines "now \<equiv> w_clock (cworld c) (w_clockn (cworld c))"
  defines "res \<equiv> memory_Allow (w_auth (cworld c)) (extractIP r) now"
  shows "w_auth (cworld (auth_group h r c)) = snd res"
    "status (auth_group h r c) = Some 429 \<longleftrightarrow> \<not> Allowed (fst res)"
    "w_clock (cworld (auth_group h r c)) = w_clock (cworld c)"
    "w_clockn (cworld c) < w_clockn (cworld (auth_group h r c))"
proof -
  let ?w = "(cworld c)\<lparr>w_clockn := Suc (w_clockn (cworld c)), w_auth := snd res\<rparr>"
  have rc: "rate_check authRL 5 r (cworld c) = (5, Inr (fst res), ?w)"
    by (simp add: rate_check_def GetClient_def assms(4) authRL_def memory_limiter_def memory_call_def
        time_Now_def res_def now_def Let_def case_prod_beta)
  let ?c = "limit_headers 5 (fst res) (c\<lparr>cworld := ?w\<rparr>)"
  have u: "unsent ?c" "unsent (?c\<lparr>cworld := w\<rparr>)" for w using assms(1) by simp_all
  have st: "still ?w (cworld (h r ?c))" using staysD [OF assms(2), of ?c r] by simp
  show "w_auth (cworld (auth_group h r c)) = snd res"
    "w_clock (cworld (auth_group h r c)) = w_clock (cworld c)"
    "w_clockn (cworld c) < w_clockn (cworld (auth_group h r c))"
    using st by (auto simp: auth_group_def RateLimit_cases [OF rc] Let_def still_def time_Now_def)
  show "status (auth_group h r c) = Some 429 \<longleftrightarrow> \<not> Allowed (fst res)"
    using assms(3) [OF u(1)] u(2) by (simp add: auth_group_def RateLimit_cases [OF rc] Let_def)
qed

lemma app_routes_distinct: "distinct (map fst (app_routes lib cfg rl prom srv has_store))"
  by (simp add: app_routes_def auth_routes_def api_prefix_def)

lemma auth_route:
  assumes "router_ok (for_router lib)" "auth_call r"
  shows "\<exists>h. (\<forall>c. mux (for_router lib) (app_routes lib cfg rl prom srv has_store) Path r c =
      auth_group h r c) \<and> stays h \<and> (\<forall>c. unsent c \<longrightarrow> status (h r c) \<noteq> Some 429)"
proof -
  let ?routes = "app_routes lib cfg rl prom srv has_store"
  have use: ?thesis if "((Method r, Path r), auth_group h) \<in> set ?routes" "stays h"
      "\<And>c. unsent c \<Longrightarrow> status (h r c) \<noteq> Some 429" for h
    using mux_exact [where path = Path, OF assms(1) that(1) app_routes_distinct] that(2,3) by blast
  have in_group: "(key, h) \<in> set (auth_routes (for_auth lib) cfg srv) \<Longrightarrow> (key, h) \<in> set ?routes"
    for key h by (simp add: app_routes_def)
  consider "(Method r, Path r) = (''POST'', ''/api/v1/auth/verify'')"
    | "(Method r, Path r) = (''POST'', ''/api/v1/auth/register'')"
    | "(Method r, Path r) = (''POST'', ''/api/v1/auth/reissue'')"
    using assms(2) by (auto simp: auth_call_def)
  then show ?thesis
  proof cases
    case 1
    show ?thesis
      by (rule use [OF in_group AuthVerify_stays AuthVerify_unlimited])
        (simp_all add: 1 auth_routes_def siw_AuthVerify_def)
  next
    case 2
    show ?thesis
      by (rule use [OF in_group AdminAuth_stays [OF AuthRegister_stays]
            AdminAuth_unlimited [OF _ AuthRegister_unlimited]])
        (simp_all add: 2 auth_routes_def)
  next
    case 3
    show ?thesis
      by (rule use [OF in_group AdminAuth_stays [OF AuthReissue_stays]
            AdminAuth_unlimited [OF _ AuthReissue_unlimited]])
        (simp_all add: 3 auth_routes_def)
  qed
qed

lemma auth_request_step:
  assumes "router_ok (for_router lib)" "auth_call r"
    and resp_def: "resp = serve (NewRouter lib cfg rl prom srv has_store) r w"
    and res_def: "res = memory_Allow (w_auth w) (extractIP r) (limiter_clock w)"
  shows "w_auth (cworld resp) = snd res" "status resp = Some 429 \<longleftrightarrow> \<not> Allowed (fst res)"
    "w_clock (cworld resp) = w_clock w" "Suc (w_clockn w) < w_clockn (cworld resp)"
proof -
  let ?q = "fresh_request r"
  obtain r' where r': "same_request ?q r'" "NewRouter lib cfg rl prom srv has_store ?q (new_conn w) =
      left r' (mux (for_router lib) (app_routes lib cfg rl prom srv has_store) Path r'
        (entered cfg r' (new_conn w)))"
    using router_enters [OF assms(1), of ?q cfg rl prom srv has_store "new_conn w"] assms(2)
    by (auto simp: auth_call_def fresh_request_def)
  let ?c = "entered cfg r' (new_conn w)"
  have same: "auth_call r'" "CtxClient r' = None" "\<not> probe r'"
    using r'(1) assms(2) by (auto simp: same_request_def auth_call_def fresh_request_def probe_def)
  have "Headers r' = Headers r" "RemoteAddr r' = RemoteAddr r"
    using r'(1) by (simp_all add: same_request_def fresh_request_def)
  then have ip: "extractIP r' = extractIP r" by (simp only: extractIP_def)
  obtain h where h: "\<And>c. mux (for_router lib) (app_routes lib cfg rl prom srv has_store) Path r' c =
      auth_group h r' c" "stays h" "\<And>c. unsent c \<Longrightarrow> status (h r' c) \<noteq> Some 429"
    using auth_route [OF assms(1) same(1)] by blast
  have c: "unsent ?c" "cworld ?c = w\<lparr>w_clockn := Suc (w_clockn w)\<rparr>"
    using same(3) by (simp_all add: time_Now_def)
  have eq: "resp = left r' (auth_group h r' ?c)" unfolding resp_def serve_def r'(2) h(1) ..
  note step = auth_group_step [OF c(1) h(2) h(3) same(2)]
  have mem: "memory_Allow (w_auth (cworld ?c)) (extractIP r') (w_clock (cworld ?c) (w_clockn (cworld ?c)))
      = res"
    unfolding c(2) ip res_def limiter_clock_def by simp
  show "w_auth (cworld resp) = snd res" "w_clock (cworld resp) = w_clock w"
    "Suc (w_clockn w) < w_clockn (cworld resp)"
    using step(1,3,4) unfolding mem by (auto simp: eq left_def time_Now_def same(3))
  show "status resp = Some 429 \<longleftrightarrow> \<not> Allowed (fst res)"
    using step(2) unfolding mem by (simp add: eq)
qed

section \<open>The log of the auth limiter\<close>

text \<open>
  The calls of the auth limiter in a run, with the clock reading each uses, and the requests it lets
  through: those to an auth endpoint that are not answered 429.
\<close>

fun auth_events :: "('s, 'n) handler \<Rightarrow> 'n step list \<Rightarrow> 's world \<Rightarrow> rl_event list" where
  "auth_events h [] w = []"
| "auth_events h (x # xs) w =
     (case x of
        Serve r \<Rightarrow> if auth_call r then [Request (extractIP r) 5 (limiter_clock w)] else []
      | SweepAuth \<Rightarrow> [Sweep (w_clock w (w_clockn w))]
      | SweepApi \<Rightarrow> []) @ auth_events h xs (server_step h x w)"

fun auth_passed :: "('s, 'n) handler \<Rightarrow> 'n step list \<Rightarrow> 's world \<Rightarrow> rl_log" where
  "auth_passed h [] w = []"
| "auth_passed h (x # xs) w =
     (case x of
        Serve r \<Rightarrow> if auth_call r \<and> status (serve h r w) \<noteq> Some 429
          then [(extractIP r, limiter_clock w)] else []
      | _ \<Rightarrow> []) @ auth_passed h xs (server_step h x w)"

lemma run_events_append:
  "run_events admit sweep (s, l) (es @ es') =
    run_events admit sweep (run_events admit sweep (s, l) es) es'"
proof (induction es arbitrary: s l)
  case (Cons e es)
  then show ?case by (cases e) (simp_all add: Let_def case_prod_beta)
qed simp

lemma default_rpm_kept [simp]:
  "default_rpm (snd (memory_AllowN rl key n now)) = default_rpm rl"
  "default_rpm (cleanup rl now) = default_rpm rl"
  by (simp_all add: memory_AllowN_def cleanup_def Let_def)

text \<open>One step of the server is at most one event of the limiter.\<close>

lemma auth_step:
  assumes "router_ok (for_router lib)" "app_still rl prom" "default_rpm (w_auth w) = 5"
    and H: "H = NewRouter lib cfg rl prom srv has_store"
  shows "run_events memory_admit cleanup (w_auth w, l) (auth_events H [x] w) =
      (w_auth (server_step H x w), l @ auth_passed H [x] w)"
    and "default_rpm (w_auth (server_step H x w)) = 5"
    and "w_clock (server_step H x w) = w_clock w"
    and "w_clockn w \<le> w_clockn (server_step H x w)"
    and "e \<in> set (auth_events H [x] w) \<Longrightarrow>
      \<exists>i. w_clockn w \<le> i \<and> i \<le> w_clockn (server_step H x w) \<and> event_time e = w_clock w i"
proof -
  have "(run_events memory_admit cleanup (w_auth w, l) (auth_events H [x] w) =
      (w_auth (server_step H x w), l @ auth_passed H [x] w)) \<and>
    default_rpm (w_auth (server_step H x w)) = 5 \<and> w_clock (server_step H x w) = w_clock w \<and>
    w_clockn w \<le> w_clockn (server_step H x w) \<and>
    (e \<in> set (auth_events H [x] w) \<longrightarrow>
      (\<exists>i. w_clockn w \<le> i \<and> i \<le> w_clockn (server_step H x w) \<and> event_time e = w_clock w i))"
  proof (cases x)
    case (Serve r)
    show ?thesis
    proof (cases "auth_call r")
      case True
      note step = auth_request_step [OF assms(1) True, OF H [THEN arg_cong, of "\<lambda>h. serve h r w"] refl]
      have "memory_Allow (w_auth w) (extractIP r) (limiter_clock w) =
          memory_AllowN (w_auth w) (extractIP r) 5 (limiter_clock w)"
        by (simp add: memory_Allow_def assms(3))
      with step True Serve assms(3) show ?thesis
        by (auto simp: Let_def case_prod_beta limiter_clock_def intro!: exI [of _ "Suc (w_clockn w)"])
    next
      case False
      then show ?thesis
        using other_request_still [OF assms(1,2) False] Serve assms(3) H
        by (simp add: still_def)
    qed
  qed (auto simp: Let_def case_prod_beta time_Now_def assms(3) intro!: exI [of _ "w_clockn w"])
  then show "run_events memory_admit cleanup (w_auth w, l) (auth_events H [x] w) =
      (w_auth (server_step H x w), l @ auth_passed H [x] w)"
    and "default_rpm (w_auth (server_step H x w)) = 5"
    and "w_clock (server_step H x w) = w_clock w"
    and "w_clockn w \<le> w_clockn (server_step H x w)"
    and "e \<in> set (auth_events H [x] w) \<Longrightarrow>
      \<exists>i. w_clockn w \<le> i \<and> i \<le> w_clockn (server_step H x w) \<and> event_time e = w_clock w i"
    by blast+
qed

lemma auth_events_Cons: "auth_events h (x # xs) w = auth_events h [x] w @ auth_events h xs (server_step h x w)"
  by simp

lemma auth_passed_Cons: "auth_passed h (x # xs) w = auth_passed h [x] w @ auth_passed h xs (server_step h x w)"
  by simp

lemma auth_run:
  assumes "router_ok (for_router lib)" "app_still rl prom" "default_rpm (w_auth w) = 5"
    and H: "H = NewRouter lib cfg rl prom srv has_store"
  shows "run_events memory_admit cleanup (w_auth w, l) (auth_events H xs w) =
    (w_auth (run_server H xs w), l @ auth_passed H xs w)"
  using assms(3)
proof (induction xs arbitrary: w l)
  case (Cons x xs)
  note step = auth_step [OF assms(1,2) Cons.prems H]
  show ?case
    unfolding auth_events_Cons [of H x xs] auth_passed_Cons [of H x xs] run_events_append step(1)
    using Cons.IH [OF step(2)] by simp
qed simp

lemma in_order_append:
  "in_order t (es @ es') \<longleftrightarrow> in_order t es \<and> in_order (last (t # map event_time es)) es'"
  by (induction es arbitrary: t) auto

lemma auth_events_short: "length (auth_events h [x] w) \<le> 1"
  by (simp split: step.split)

lemma auth_run_in_order:
  assumes "router_ok (for_router lib)" "app_still rl prom" "default_rpm (w_auth w) = 5"
    and H: "H = NewRouter lib cfg rl prom srv has_store" and "mono (w_clock w)" "t \<le> w_clock w (w_clockn w)"
  shows "in_order t (auth_events H xs w)"
  using assms(3,5,6)
proof (induction xs arbitrary: w t)
  case (Cons x xs)
  note step = auth_step [OF assms(1,2) Cons.prems(1) H]
  let ?w = "server_step H x w"
  have m: "mono (w_clock ?w)" using step(3) Cons.prems(2) by simp
  have le: "w_clock w (w_clockn w) \<le> w_clock ?w (w_clockn ?w)"
    using step(3) monoD [OF Cons.prems(2) step(4)] by simp
  show ?case
  proof (cases "auth_events H [x] w")
    case Nil
    then show ?thesis
      unfolding auth_events_Cons [of H x xs] using Cons.IH [OF step(2) m, of t] Cons.prems(3) le by simp
  next
    case (Cons e es)
    then have es: "es = []" using auth_events_short [of H x w] by simp
    have "e \<in> set (auth_events H [x] w)" unfolding Cons by simp
    then obtain i where i: "w_clockn w \<le> i" "i \<le> w_clockn ?w" "event_time e = w_clock w i"
      using step(5) by blast
    have "t \<le> event_time e" using i monoD [OF Cons.prems(2) i(1)] Cons.prems(3) by simp
    moreover have "event_time e \<le> w_clock ?w (w_clockn ?w)"
      using i(3) monoD [OF Cons.prems(2) i(2)] step(3) by simp
    ultimately show ?thesis
      unfolding auth_events_Cons [of H x xs] Cons es
      using Cons.IH [OF step(2) m, of "event_time e"] by simp
  qed
qed simp

lemma auth_limited: "limited_to key 5 (auth_events h xs w)"
  by (induction xs arbitrary: w) (auto simp: limited_to_def split: step.split)

end
