(* ===== verification/Auth_Properties.thy ===== *)
theory Auth_Properties
  imports Auth_Outcome
begin

text \<open>
  The properties of the account flow, with a concrete server, database and requests at which they
  apply.
\<close>

section \<open>A sample server\<close>

definition sample_sha :: "go_string \<Rightarrow> byte list" where
  "sample_sha s = take 32 (map of_char s @ replicate 32 0)"

definition sample_lib :: "unit auth_lib" where
  "sample_lib =
     \<lparr>sha256 = sample_sha, ParseAddress = (\<lambda>s. Some s),
      email_json = (\<lambda>j. case j of JStr s \<Rightarrow> Some s | _ \<Rightarrow> None),
      encs = \<lparr>escape_href = id, escape_text = id, quoted_printable = id, encode_word = id\<rparr>\<rparr>"

definition sample_server :: server where
  "sample_server = \<lparr>srv_store = True, srv_email = None, srv_config = Load (\<lambda>_. '''')\<rparr>"

definition person :: "time option \<Rightarrow> go_string \<Rightarrow> Client" where
  "person v h =
     \<lparr>client_id = ''c1'', client_email = ''a@b.c'', DisplayName = ''Ann'', APIKeyHash = h,
      APIKeyPrefix = '''', RateLimitRPM = 600, CreatedAt = 0, VerifiedAt = v, RevokedAt = None\<rparr>"

definition link_token :: "TokenType \<Rightarrow> Token" where
  "link_token ty =
     \<lparr>token_id = ''t1'', token_email = ''a@b.c'', TokenHash = HashKey sample_sha ''tok'',
      token_type = ty, token_created = 0, ExpiresAt = 24 * Hour, UsedAt = None\<rparr>"

definition world_of :: "database \<Rightarrow> unit world" where
  "world_of db =
     \<lparr>w_db = db,
      w_pg = (\<lambda>i. \<lparr>pg_now = 5000 + 1000 * int i, pg_uuid = ''u'' @ itoa (int i), delivery_of = Answered\<rparr>),
      w_pgn = 0, w_rng = \<lparr>draws = (\<lambda>i. i), faults = (\<lambda>_. None), cursor = 0\<rparr>,
      w_clock = (\<lambda>i. 7000 * int i), w_clockn = 0, w_smtp = (\<lambda>_. Sent), w_smtpn = 0, w_outbox = [],
      w_memory = NewMemoryRateLimiter 60, w_redis = (), w_net = (\<lambda>_. Delivered), w_netn = 0,
      w_auth = NewMemoryRateLimiter 5\<rparr>"

definition sample_request :: "go_string \<Rightarrow> (go_string \<times> unit json) list \<Rightarrow> unit request" where
  "sample_request path ms =
     \<lparr>Method = ''POST'', Path = path, Query = [], Headers = (\<lambda>_. ''''),
      RemoteAddr = ''1.2.3.4:5678'', Json = Some (JObj ms), RequestID = ''id'', CtxClient = None\<rparr>"

definition verify_request :: "TokenType \<Rightarrow> unit request" where
  "verify_request ty =
     sample_request ''/api/v1/auth/verify'' [(''token'', JStr ''tok''), (''type'', JStr ty)]"

definition pending_db :: database where
  "pending_db =
     \<lparr>clients = [person None ''''], verification_tokens = [link_token TokenTypeRegistration]\<rparr>"

definition active_db :: database where
  "active_db =
     \<lparr>clients = [person (Some 1000) ''h''], verification_tokens = [link_token TokenTypeReissue]\<rparr>"

definition pending_conn :: "(unit, unit) conn" where
  "pending_conn = new_conn (world_of pending_db)"

definition active_conn :: "(unit, unit) conn" where
  "active_conn = new_conn (world_of active_db)"

lemma sample_unsent [simp]: "unsent pending_conn" "unsent active_conn"
  by (simp_all add: pending_conn_def active_conn_def)

lemma sample_sized: "sha256_sized sample_lib"
  by (auto simp: sha256_sized_def sample_lib_def sample_sha_def min_def)

lemma sample_verified: "status (AuthVerify sample_lib sample_server
    (verify_request TokenTypeRegistration) pending_conn) = Some 200"
  by code_simp

lemma active_inv: "auth_inv (w_db (cworld active_conn))"
  by (simp add: auth_inv_def db_ok_def tokens_backed_def token_backed_def active_conn_def
      world_of_def active_db_def person_def link_token_def client_ok_def token_ok_def)

section \<open>Properties\<close>

text \<open>
  C4: A 200 of the verify endpoint means all of this: the request named a token that was stored
  under its hash, for its type, unused and not expired, and that is used now; no account with the
  token's address held a key before, and one does now; the response carries a well-formed key, and
  the table holds only its hash.
\<close>

theorem verify_grants_key:
  assumes "unsent c" "status (AuthVerify lib srv r c) = Some 200"
  shows "\<exists>req t k cl. decode_verify (Json r) = Some req \<and> api_key_format k \<and>
    replied 200 (verified_body (ver_type req) k) (AuthVerify lib srv r c) \<and>
    verified_by lib req (w_db (cworld c)) t k cl (w_db (cworld (AuthVerify lib srv r c)))"
  using AuthVerify_ok [OF assms] by metis

theorem verify_grants_key_witness:
  "\<exists>req t k cl. decode_verify (Json (verify_request TokenTypeRegistration)) = Some req \<and>
    api_key_format k \<and>
    verified_by sample_lib req pending_db t k cl (w_db (cworld (AuthVerify sample_lib sample_server
      (verify_request TokenTypeRegistration) pending_conn)))"
  using verify_grants_key [OF sample_unsent(1) sample_verified]
  by (auto simp: pending_conn_def world_of_def new_conn_def)

text \<open>
  C11: The re-issue flow never succeeds.  In every state the server can reach, a verification with
  the token of a re-issue mail is not answered with a key: the address of such a token is verified,
  and only an unverified account can be given a key.
\<close>

theorem reissue_never_succeeds:
  assumes "unsent c" "auth_inv (w_db (cworld c))" "decode_verify (Json r) = Some req"
    "ver_type req = TokenTypeReissue"
  shows "status (AuthVerify lib srv r c) \<noteq> Some 200"
  by (rule reissue_never_ok [OF assms])

lemma reissue_decoded: "decode_verify (Json (verify_request TokenTypeReissue)) =
    Some \<lparr>ver_token = ''tok'', ver_type = TokenTypeReissue\<rparr>"
  by code_simp

theorem reissue_never_succeeds_witness:
  "status (AuthVerify sample_lib sample_server (verify_request TokenTypeReissue) active_conn)
    \<noteq> Some 200"
  by (rule reissue_never_succeeds [OF sample_unsent(2) active_inv reissue_decoded]) simp

text \<open>
  C15: What it does instead: a re-issue token that is sent back while the store answers leaves the
  account revoked, so its only key is dead and, by C6, no other will ever be issued; and the answer
  is not a success.
\<close>

theorem reissue_locks_out:
  assumes "unsent c" "auth_inv (w_db (cworld c))" "srv_store srv"
    and "decode_verify (Json r) = Some req" "ver_type req = TokenTypeReissue"
    and "t \<in> set (verification_tokens (w_db (cworld c)))"
      "consumable (HashKey (sha256 lib) (ver_token req)) TokenTypeReissue
        (timestamptz (pg_now (w_pg (cworld c) (w_pgn (cworld c))))) t"
    and "\<And>t'. t' \<in> set (verification_tokens (w_db (cworld c))) \<Longrightarrow>
      TokenHash t' = HashKey (sha256 lib) (ver_token req) \<Longrightarrow> t' = t"
    and "cl \<in> set (clients (w_db (cworld c)))" "client_email cl = token_email t"
      "account cl = Active h"
    and "answered 2 (cworld c)"
  shows "status (AuthVerify lib srv r c) \<noteq> Some 200 \<and>
    (\<exists>cl' \<in> set (clients (w_db (cworld (AuthVerify lib srv r c)))).
      same_person cl cl' \<and> account cl' = Revoked (Some h))"
proof -
  have eq: "AuthVerify lib srv r c = verify_token lib (ver_token req) TokenTypeReissue r c"
    using assms(3,4,5) by (simp add: AuthVerify_cases)
  have "\<exists>cl' \<in> set (clients (w_db (cworld (AuthVerify lib srv r c)))).
      same_person cl cl' \<and> account cl' = Revoked (Some h)"
    unfolding eq by (rule reissue_revokes [OF assms(1,2,6-12)])
  then show ?thesis using reissue_never_ok [OF assms(1,2,4,5)] by blast
qed

theorem reissue_locks_out_witness:
  "\<exists>cl' \<in> set (clients (w_db (cworld (AuthVerify sample_lib sample_server
      (verify_request TokenTypeReissue) active_conn)))). account cl' = Revoked (Some ''h'')"
proof -
  have db: "w_db (cworld active_conn) = active_db"
    by (simp add: active_conn_def world_of_def new_conn_def)
  have "status (AuthVerify sample_lib sample_server (verify_request TokenTypeReissue) active_conn)
      \<noteq> Some 200 \<and>
    (\<exists>cl' \<in> set (clients (w_db (cworld (AuthVerify sample_lib sample_server
      (verify_request TokenTypeReissue) active_conn)))).
      same_person (person (Some 1000) ''h'') cl' \<and> account cl' = Revoked (Some ''h''))"
    by (rule reissue_locks_out [OF sample_unsent(2) active_inv _ reissue_decoded,
          where t = "link_token TokenTypeReissue"])
      (simp_all add: db sample_server_def active_db_def consumable_def link_token_def
        person_def account_def answered_def sample_lib_def active_conn_def world_of_def
        new_conn_def timestamptz_def duration_defs)
  then show ?thesis by blast
qed

text \<open>
  C31: A link works once.  After a verification that was not answered 400, the same request, at any
  later time of the database's clock, is answered 400.
\<close>

theorem verify_replay_rejected:
  assumes "unsent c" "srv_store srv" "status (AuthVerify lib srv r c) \<noteq> Some 400"
    and "unsent c'" "w_db (cworld c') = w_db (cworld (AuthVerify lib srv r c))"
    and "pg_now (w_pg (cworld c) (w_pgn (cworld c))) \<le> pg_now (w_pg (cworld c') (w_pgn (cworld c')))"
  shows "status (AuthVerify lib srv r c') = Some 400"
proof -
  obtain req where req: "decode_verify (Json r) = Some req"
      "AuthVerify lib srv r c = verify_token lib (ver_token req) (ver_type req) r c"
    using AuthVerify_reaches [OF assms(1,3,2)] by metis
  have le: "timestamptz (pg_now (w_pg (cworld c) (w_pgn (cworld c)))) \<le>
      timestamptz (pg_now (w_pg (cworld c') (w_pgn (cworld c'))))"
    using assms(6) by (simp add: timestamptz_def zdiv_mono1)
  have "status (verify_token lib (ver_token req) (ver_type req) r c') = Some 400"
    using verify_token_spent [OF assms(4) _ le] verify_token_spends [OF assms(1)] assms(3,5) req(2)
    by simp
  then show ?thesis using assms(2,4) req(1) by (simp add: AuthVerify_cases)
qed

theorem verify_replay_rejected_witness:
  "status (AuthVerify sample_lib sample_server (verify_request TokenTypeRegistration)
    (new_conn (cworld (AuthVerify sample_lib sample_server (verify_request TokenTypeRegistration)
      pending_conn)))) = Some 400"
proof (rule verify_replay_rejected [OF sample_unsent(1)])
  show "pg_now (w_pg (cworld pending_conn) (w_pgn (cworld pending_conn))) \<le>
    pg_now (w_pg (cworld (new_conn (cworld (AuthVerify sample_lib sample_server
        (verify_request TokenTypeRegistration) pending_conn)) :: (unit, unit) conn))
      (w_pgn (cworld (new_conn (cworld (AuthVerify sample_lib sample_server
        (verify_request TokenTypeRegistration) pending_conn)) :: (unit, unit) conn))))"
    by code_simp
qed (simp_all add: sample_server_def sample_verified [unfolded sample_server_def])








end
