(* ===== verification/Endpoint_Properties.thy ===== *)
theory Endpoint_Properties
  imports Api_Params Auth_Properties
begin

text \<open>
  The properties of the randomness endpoints, from the resolved parameters to the response: which
  requests are answered 200 and with what, and which 400 and with which error.
\<close>

section \<open>The reply of an endpoint\<close>

text \<open>
  \<open>api_reply\<close>: the response is a 400 whose problem carries the text of the error, or a 200 with the
  results, the resolved parameters and the time.
\<close>

definition api_reply ::
  "('k, 'p, 'n) service_lib \<Rightarrow> 'n request \<Rightarrow> (go_string \<times> 'n json) list
    \<Rightarrow> service_error + 'n json list \<Rightarrow> ('s, 'n) conn \<Rightarrow> ('s, 'n) conn \<Rightarrow> bool" where
  "api_reply lib r ps res c c' \<longleftrightarrow>
     (case res of
        Inl e \<Rightarrow> replied 400
          (problem_body r 400 ''INVALID_PARAM'' (error_text (quote lib) e) 0) c'
      | Inr js \<Rightarrow> replied 200
          (results_body js (meta_body r ps (w_clock (cworld c) (w_clockn (cworld c))))) c')"

lemma serve_results_reply:
  assumes "unsent c" "service (w_rng (cworld c)) = Some (res, rn)"
  shows "api_reply lib r ps (map_sum id (map enc) res) c (serve_results lib enc service ps r c)"
proof -
  let ?c = "c\<lparr>cworld := cworld c\<lparr>w_rng := rn\<rparr>\<rparr>"
  have r: "random service (cworld c) = Some (res, cworld ?c)"
    using assms(2) by (simp add: random_def)
  have u: "unsent ?c" using assms(1) by simp
  show ?thesis
    using WriteError_replied [OF u] writeResults_replied [OF u] r
    by (cases res) (auto simp: api_reply_def serve_results_def invalid_param_def time_Now_def)
qed

text \<open>From the outcome of the service to the reply.\<close>

lemma serve_results_outcome:
  assumes "unsent c" "\<exists>res rn. service (w_rng (cworld c)) = Some (res, rn) \<and> holds res rn"
    and "\<And>res rn. holds res rn \<Longrightarrow> P res"
  shows "\<exists>res. api_reply lib r ps (map_sum id (map enc) res) c (serve_results lib enc service ps r c) \<and>
    P res"
  using assms serve_results_reply [OF assms(1)] by blast

section \<open>Sample libraries\<close>

definition exact_machine :: float64 where
  "exact_machine = \<lparr>rnd = id, fused = False\<rparr>"

definition sample_uuid :: "rng \<Rightarrow> (go_string \<times> rng) option" where
  "sample_uuid r = Some (''01234567-89ab-4cde-8f01-23456789abcd'', r)"

definition sample_ssh :: "(unit, unit) ssh_library" where
  "sample_ssh =
     \<lparr>ed25519_GenerateKey = (\<lambda>r. (Inr (), r)), rsa_GenerateKey = (\<lambda>bits r. (Inr (), r)),
      OpenSSH_PEM = (\<lambda>_. Inr ''PEM''), PKCS1_PEM = (\<lambda>_. ''PEM''), NewPublicKey = (\<lambda>_. Inr ()),
      MarshalAuthorizedKey = (\<lambda>_. ''ssh-ed25519 AAAA'' @ [CHR 0x0A]),
      FingerprintSHA256 = (\<lambda>_. ''SHA256:x'')\<rparr>"

definition sample_service :: "(unit, unit, unit) service_lib" where
  "sample_service =
     \<lparr>quote = (\<lambda>s. s), uuid_New = sample_uuid, ssh_lib = sample_ssh, machine = exact_machine,
      json_number = (\<lambda>_. ())\<rparr>"

definition api_request :: "go_string \<Rightarrow> unit request" where
  "api_request path = (sample_request path [])\<lparr>Method := ''GET'', Json := None\<rparr>"

lemma exact_rounds: "rounds exact_machine"
  by (simp add: rounds_def exact_machine_def)

lemma sample_uuid_library: "uuid_library sample_uuid"
proof -
  have "uuid_text ''01234567-89ab-4cde-8f01-23456789abcd''" by code_simp
  then show ?thesis by (simp add: uuid_library_def sample_uuid_def)
qed


section \<open>Properties\<close>

text \<open>
  C17: The dice endpoint.  With six sides and one die by default, a request is answered 400 exactly
  if the number of sides is not that of a die or the count is not from 1 to 100; otherwise the
  answer is that many rolls, each from one to the number of sides.
\<close>

theorem dice_endpoint:
  assumes "unsent c"
  shows "let sides = defaultPtr (dice_Sides ps) 6; count = defaultPtr (dice_Count ps) 1
    in \<exists>res. api_reply lib r [(''count'', JInt count), (''sides'', JInt sides)]
        (map_sum id (map JInt) res) c (Server_RollDice lib ps r c) \<and>
      (case res of
         Inl e \<Rightarrow> if sides \<notin> {4, 6, 8, 10, 12, 20, 100} then error_is e ErrInvalidSides
           else (count < 1 \<or> 100 < count) \<and> error_is e ErrCountOutOfRange
       | Inr rolls \<Rightarrow> sides \<in> {4, 6, 8, 10, 12, 20, 100} \<and> 1 \<le> count \<and> count \<le> 100 \<and>
           int (length rolls) = count \<and> list_all (\<lambda>n. 1 \<le> n \<and> n \<le> sides) rolls)"
  unfolding Server_RollDice_def Let_def
  by (rule serve_results_outcome [OF assms RollDice_outcome])
    (auto simp: validSides_def dice_spec_def split: sum.splits)

theorem dice_endpoint_witness:
  "status (Server_RollDice sample_service \<lparr>dice_Sides = Some 7, dice_Count = None\<rparr>
    (api_request ''/api/v1/dice'') active_conn) = Some 400"
  using dice_endpoint [OF sample_unsent(2), of "\<lparr>dice_Sides = Some 7, dice_Count = None\<rparr>"
      sample_service "api_request ''/api/v1/dice''"]
  by (auto simp: Let_def api_reply_def replied_def split_sum_ex)







text \<open>
  C19: The number endpoint for whole numbers: from 0 to 100 by default.  The checks run in the order
  bounds, order, count; a request that passes them gets numbers from the closed interval.
\<close>

theorem number_endpoint:
  assumes "unsent c" "num_Float ps \<noteq> Some True"
  shows "let lo = defaultPtr (num_Min ps) 0; hi = defaultPtr (num_Max ps) 100;
      count = defaultPtr (num_Count ps) 1
    in \<exists>res. api_reply lib r
        [(''count'', JInt count), (''float'', JBool False), (''max'', JInt hi), (''min'', JInt lo)]
        (map_sum id (map JInt) res) c (Server_GenerateNumber lib ps r c) \<and>
      (case res of
         Inl e \<Rightarrow>
           if lo < - 1000000000 \<or> 1000000000 < hi then error_is e ErrBoundsExceeded
           else if hi < lo then error_is e ErrMinGreaterThanMax
           else (count < 1 \<or> 100 < count) \<and> error_is e ErrCountOutOfRange
       | Inr ns \<Rightarrow> - 1000000000 \<le> lo \<and> lo \<le> hi \<and> hi \<le> 1000000000 \<and> 1 \<le> count \<and> count \<le> 100 \<and>
           int (length ns) = count \<and> list_all (\<lambda>n. lo \<le> n \<and> n \<le> hi) ns)"
proof -
  have "\<not> defaultPtr (num_Float ps) False" using assms(2) by (cases "num_Float ps") auto
  then show ?thesis
    unfolding Server_GenerateNumber_def Let_def
    apply (simp only: if_False)
    apply (rule serve_results_outcome [OF assms(1) RandomInts_outcome])
    apply (auto simp: validateNumberParams_def maxBound_def split: sum.splits if_splits)
    done
qed

theorem number_endpoint_witness:
  "status (Server_GenerateNumber sample_service
      \<lparr>num_Min = Some 5, num_Max = Some 4, num_Count = None, num_Float = None\<rparr>
    (api_request ''/api/v1/number'') active_conn) = Some 400"
  using number_endpoint [OF sample_unsent(2),
      of "\<lparr>num_Min = Some 5, num_Max = Some 4, num_Count = None, num_Float = None\<rparr>"
      sample_service "api_request ''/api/v1/number''"]
  by (auto simp: Let_def api_reply_def replied_def split_sum_ex)



text \<open>
  C23: The UUID endpoint.  The format is checked before the count; the results have the shape of the
  format: the canonical text, 32 hex digits, or the text after \<open>urn:uuid:\<close>.
\<close>

theorem uuid_endpoint:
  assumes "unsent c" "uuid_library (uuid_New lib)"
  shows "let count = defaultPtr (uuid_Count ps) 1; format = defaultPtr (uuid_Format ps) ''standard''
    in \<exists>res. api_reply lib r [(''count'', JInt count), (''format'', JStr format)]
        (map_sum id (map JStr) res) c (Server_GenerateUUID lib ps r c) \<and>
      (case res of
         Inl e \<Rightarrow> if format \<notin> set validUUIDFormats then error_is e ErrInvalidFormat
           else (count < 1 \<or> 100 < count) \<and> error_is e ErrCountOutOfRange
       | Inr us \<Rightarrow> format \<in> set validUUIDFormats \<and> 1 \<le> count \<and> count \<le> 100 \<and>
           int (length us) = count \<and> list_all (uuid_shape format) us)"
  unfolding Server_GenerateUUID_def Let_def
  by (rule serve_results_outcome [OF assms(1) GenerateUUIDs_outcome [OF assms(2)]])
    (auto split: sum.splits)

theorem uuid_endpoint_witness:
  "status (Server_GenerateUUID sample_service \<lparr>uuid_Count = Some 0, uuid_Format = None\<rparr>
    (api_request ''/api/v1/uuid'') active_conn) = Some 400"
proof -
  have "uuid_library (uuid_New sample_service)"
    using sample_uuid_library by (simp add: sample_service_def)
  from uuid_endpoint [OF sample_unsent(2) this, of "\<lparr>uuid_Count = Some 0, uuid_Format = None\<rparr>"
      "api_request ''/api/v1/uuid''"]
  show ?thesis by (auto simp: Let_def api_reply_def replied_def split_sum_ex)
qed





text \<open>
  C26: The coordinates endpoint.  Every result lies on the globe, and inside one of the six boxes if
  land was asked for, whatever the rounding of the machine.
\<close>

theorem coordinates_endpoint:
  assumes "unsent c" "rounds (machine lib)"
  shows "let count = defaultPtr (coord_Count ps) 1; landOnly = defaultPtr (coord_LandOnly ps) False
    in \<exists>res. api_reply lib r [(''count'', JInt count), (''land_only'', JBool landOnly)]
        (map_sum id (map (coordinate_json (json_number lib))) res) c
        (Server_GenerateCoordinates lib ps r c) \<and>
      (case res of
         Inl e \<Rightarrow> (count < 1 \<or> 100 < count) \<and> error_is e ErrCountOutOfRange
       | Inr cs \<Rightarrow> 1 \<le> count \<and> count \<le> 100 \<and> int (length cs) = count \<and>
           list_all (\<lambda>p. on_globe p \<and> (landOnly \<longrightarrow> (\<exists>b \<in> set landBoxes. in_box p b))) cs)"
  unfolding Server_GenerateCoordinates_def Let_def
  by (rule serve_results_outcome [OF assms(1) RandomCoordinates_outcome [OF assms(2)]])
    (auto split: sum.splits)

theorem coordinates_endpoint_witness:
  "status (Server_GenerateCoordinates sample_service
      \<lparr>coord_Count = Some 2, coord_LandOnly = Some True\<rparr>
    (api_request ''/api/v1/coordinates'') active_conn) \<in> {Some 200, Some 400}"
proof -
  have "rounds (machine sample_service)" using exact_rounds by (simp add: sample_service_def)
  from coordinates_endpoint [OF sample_unsent(2) this,
      of "\<lparr>coord_Count = Some 2, coord_LandOnly = Some True\<rparr>" "api_request ''/api/v1/coordinates''"]
  show ?thesis by (auto simp: Let_def api_reply_def replied_def split_sum_ex)
qed

end
