(* ===== verification/Middleware_Properties.thy ===== *)
theory Middleware_Properties
  imports Auth_Properties
begin

text \<open>The properties of the middlewares: who is let through, on what terms, and under which key.\<close>

text \<open>
  C16: Who passes \<open>Auth\<close>.  The next handler is called, if at all, either with the request as it is
  when it has no \<open>Authorization\<close> header, or with the identity and limit of a client of the table
  that is verified, not revoked, and stores the hash of the key the header bears; every other
  request is answered 401.  Neither the tables nor the outbox change on the way.
\<close>

theorem auth_lets_through_holders_only:
  assumes "unsent c"
  shows "(\<exists>r' c'. hands_on (Auth sha has_store) r c r' c' \<and> opened c c' \<and>
      (Headers r ''Authorization'' = '''' \<and> r' = r \<or>
       Headers r ''Authorization'' \<noteq> '''' \<and> has_store \<and>
       (\<exists>cl. holds_key sha r (w_db (cworld c)) cl \<and>
         r' = WithClient r (ClientInfoFromStore cl)))) \<or>
    (\<exists>c'. answers (Auth sha has_store) r c c' \<and> refused c c' \<and> status c' = Some 401 \<and>
      Headers r ''Authorization'' \<noteq> '''')"
  by (rule Auth_verdict [OF assms])

definition key_request :: "go_string \<Rightarrow> unit request" where
  "key_request k = (sample_request ''/api/v1/dice'' [])
     \<lparr>Headers := (\<lambda>h. if h = ''Authorization'' then ''Bearer '' @ k else '''')\<rparr>"

theorem auth_lets_through_holders_only_witness:
  "\<exists>c'. answers (Auth sample_sha True) (key_request ''wrong'') active_conn c' \<and>
    status c' = Some 401"
proof -
  have "\<not> holds_key sample_sha (key_request ''wrong'') (w_db (cworld active_conn)) cl" for cl
  proof -
    have "HashKey sample_sha ''wrong'' \<noteq> ''h''" by code_simp
    moreover have "bearer_key (key_request ''wrong'') = Some ''wrong''" by code_simp
    ultimately show ?thesis
      by (auto simp: holds_key_def active_conn_def world_of_def new_conn_def active_db_def person_def)
  qed
  moreover have "Headers (key_request ''wrong'') ''Authorization'' \<noteq> ''''"
    by (simp add: key_request_def)
  ultimately show ?thesis
    using auth_lets_through_holders_only [OF sample_unsent(2), of sample_sha True "key_request ''wrong''"]
    by blast
qed

text \<open>
  C33: The admin gate fails closed: the next handler is called exactly when a token is configured
  and the request has it; otherwise the answer is 401.
\<close>

theorem admin_gate_fails_closed:
  assumes "unsent c"
  shows "if tok \<noteq> '''' \<and> Headers r ''X-Admin-Token'' = tok then hands_on (AdminAuth tok) r c r c
    else \<exists>c'. answers (AdminAuth tok) r c c' \<and> refused c c' \<and> status c' = Some 401"
  using assms
  by (auto simp: hands_on_def answers_def AdminAuth_def refused_def unsent_def)

theorem admin_gate_fails_closed_witness:
  "\<exists>c'. answers (AdminAuth '''') (key_request ''x'') active_conn c' \<and> status c' = Some 401"
  using admin_gate_fails_closed [OF sample_unsent(2), of "''''" "key_request ''x''"] by auto

text \<open>The three answers of the rate limiter.\<close>

lemma retry_after_bound:
  "1 \<le> retry_after reset now" "retry_after reset now * Second \<le> max Second (reset - now)"
proof -
  have "quot (reset - now) Second * Second \<le> reset - now" if "1 \<le> quot (reset - now) Second"
  proof -
    have "0 \<le> reset - now" using that by (auto simp: quot_def Second_def split: if_splits)
    then show ?thesis by (simp add: quot_nonneg Second_def)
  qed
  then show "1 \<le> retry_after reset now" "retry_after reset now * Second \<le> max Second (reset - now)"
    by (auto simp: retry_after_def Let_def)
qed

lemma limiter_fails_closed:
  assumes "unsent c" "rate_check rl rpm r (cworld c) = (limit, Inl err, w)"
  shows "\<exists>c'. answers (RateLimit rl rpm True) r c c' \<and> status c' = Some 503 \<and>
    get_header ''Retry-After'' c' = Some ''5''"
  using assms(1)
  by (intro exI [of _ "send_json problem_type 503 (limiter_unavailable r)
      (set_header ''Retry-After'' ''5'' (c\<lparr>cworld := w\<rparr>))"])
    (auto simp: answers_def RateLimit_cases [OF assms(2)] send_json_header unsent_def)

lemma limiter_admits:
  assumes "unsent c" "rate_check rl rpm r (cworld c) = (limit, Inr result, w)" "Allowed result"
  shows "\<exists>c'. hands_on (RateLimit rl rpm failClosed) r c r c' \<and> unsent c' \<and> cworld c' = w \<and>
    get_header ''X-RateLimit-Limit'' c' = Some (itoa limit) \<and>
    get_header ''X-RateLimit-Remaining'' c' = Some (itoa (Remaining result))"
  using assms(1,3)
  by (intro exI [of _ "limit_headers limit result (c\<lparr>cworld := w\<rparr>)"])
    (auto simp: hands_on_def RateLimit_cases [OF assms(2)] Let_def limit_headers_def unsent_def)

lemma limiter_denies:
  assumes "unsent c" "rate_check rl rpm r (cworld c) = (limit, Inr result, w)" "\<not> Allowed result"
  shows "\<exists>c'. answers (RateLimit rl rpm failClosed) r c c' \<and> status c' = Some 429 \<and>
    get_header ''Retry-After'' c' = Some (itoa (retry_after (ResetAt result) (fst (time_Now w))))"
  using assms(1,3)
  by (intro exI [of _ "send_json problem_type 429
      (rate_limited r limit (retry_after (ResetAt result) (fst (time_Now w))))
      (set_header ''Retry-After'' (itoa (retry_after (ResetAt result) (fst (time_Now w))))
        ((limit_headers limit result (c\<lparr>cworld := w\<rparr>))\<lparr>cworld := snd (time_Now w)\<rparr>))"])
    (auto simp: answers_def RateLimit_cases [OF assms(2)] Let_def send_json_header limit_headers_def
      unsent_def)

text \<open>
  C34: What the rate limiter's verdict does.  An admitted request goes on, with what is left of its
  limit in the headers.  A denied one is answered 429 with a \<open>Retry-After\<close> of at least a second and
  no later than the reset, up to that second.  A backend error stops the request with a 503 where
  the limiter is configured to fail closed, and lets it go on untouched elsewhere.
\<close>

theorem rate_limit_verdict:
  assumes "unsent c" "rate_check rl rpm r (cworld c) = (limit, res, w)"
  shows "case res of
      Inl err \<Rightarrow>
        if failClosed
        then \<exists>c'. answers (RateLimit rl rpm failClosed) r c c' \<and> status c' = Some 503 \<and>
          get_header ''Retry-After'' c' = Some ''5''
        else hands_on (RateLimit rl rpm failClosed) r c r (c\<lparr>cworld := w\<rparr>)
    | Inr result \<Rightarrow>
        if Allowed result
        then \<exists>c'. hands_on (RateLimit rl rpm failClosed) r c r c' \<and> unsent c' \<and> cworld c' = w \<and>
          get_header ''X-RateLimit-Limit'' c' = Some (itoa limit) \<and>
          get_header ''X-RateLimit-Remaining'' c' = Some (itoa (Remaining result))
        else \<exists>c' s. answers (RateLimit rl rpm failClosed) r c c' \<and> status c' = Some 429 \<and>
          get_header ''Retry-After'' c' = Some (itoa s) \<and> 1 \<le> s \<and>
          s * Second \<le> max Second (ResetAt result - fst (time_Now w))"
proof (cases res)
  case (Inl err)
  have "hands_on (RateLimit rl rpm False) r c r (c\<lparr>cworld := w\<rparr>)"
    using RateLimit_cases [OF assms(2), where failClosed = False] Inl by (simp add: hands_on_def)
  then show ?thesis
    using Inl limiter_fails_closed [OF assms(1) assms(2) [unfolded Inl]] by (cases failClosed) simp_all
next
  case (Inr result)
  then show ?thesis
    using limiter_admits [OF assms(1) assms(2) [unfolded Inr], of failClosed]
      limiter_denies [OF assms(1) assms(2) [unfolded Inr], of failClosed]
      retry_after_bound [of "ResetAt result" "fst (time_Now w)"]
    by (cases "Allowed result") auto
qed

theorem rate_limit_verdict_witness:
  "\<exists>c'. hands_on (RateLimit (memory_limiter w_memory w_memory_update) 60 False)
    (key_request ''x'') active_conn (key_request ''x'') c' \<and>
    get_header ''X-RateLimit-Remaining'' c' = Some ''59''"
proof -
  obtain w where "rate_check (memory_limiter w_memory w_memory_update) 60 (key_request ''x'')
      (cworld active_conn) = (60, Inr \<lparr>Allowed = True, Remaining = 59, ResetAt = Minute\<rparr>, w)"
    by (simp add: rate_check_def GetClient_def key_request_def sample_request_def memory_limiter_def
        memory_call_def memory_Allow_def memory_AllowN_def Let_def getOrCreate_def
        active_conn_def new_conn_def world_of_def NewMemoryRateLimiter_def time_Now_def
        windowDuration_def)
  from rate_limit_verdict [OF sample_unsent(2) this, of False]
  have "\<exists>c'. hands_on (RateLimit (memory_limiter w_memory w_memory_update) 60 False)
      (key_request ''x'') active_conn (key_request ''x'') c' \<and>
      get_header ''X-RateLimit-Remaining'' c' = Some (itoa 59)"
    by auto
  moreover have "itoa 59 = ''59''" by code_simp
  ultimately show ?thesis by simp
qed

text \<open>
  C39: The key of an anonymous request is the last hop of \<open>X-Forwarded-For\<close>, whatever the client
  wrote before it; without that header it is the host of the connection's address, with the
  brackets of an IPv6 address removed.
\<close>

theorem anonymous_key:
  assumes "CHR '','' \<notin> set hop" "no_outer_space hop" "hop \<noteq> ''''" "plain_host host"
  shows "(Headers r ''X-Forwarded-For'' = spoofed @ '', '' @ hop \<longrightarrow> extractIP r = hop) \<and>
    (Headers r ''X-Forwarded-For'' = hop \<longrightarrow> extractIP r = hop) \<and>
    (Headers r ''X-Forwarded-For'' = '''' \<longrightarrow> CHR '':'' \<notin> set port \<longrightarrow> plain_host port \<longrightarrow>
      RemoteAddr r = join_host_port host port \<longrightarrow> extractIP r = host)"
proof -
  have "extractIP r = hop" if "Headers r ''X-Forwarded-For'' = spoofed @ '', '' @ hop"
  proof -
    have "last (split_on (CHR '','') (spoofed @ CHR '','' # (CHR '' '' # hop))) = CHR '' '' # hop"
      using assms(1) by (intro last_split_on) simp
    moreover have "trim_space (CHR '' '' # hop) = hop"
      using trim_space_id [OF assms(2)] by (simp add: trim_space_def trim_left_blank)
    ultimately show ?thesis using that assms(3) by (simp add: extractIP_def)
  qed
  moreover have "extractIP r = hop" if "Headers r ''X-Forwarded-For'' = hop"
    using that assms(1,3) trim_space_id [OF assms(2)] by (simp add: extractIP_def)
  moreover have "extractIP r = host" if "Headers r ''X-Forwarded-For'' = ''''"
    "CHR '':'' \<notin> set port" "plain_host port" "RemoteAddr r = join_host_port host port"
    using that split_join_host_port [OF assms(4) that(3,2)] by (simp add: extractIP_def)
  ultimately show ?thesis by blast
qed

theorem anonymous_key_witness:
  "extractIP ((key_request ''x'')\<lparr>Headers := (\<lambda>h. if h = ''X-Forwarded-For''
    then ''1.1.1.1'' @ '', '' @ ''203.0.113.9'' else '''')\<rparr>) = ''203.0.113.9''"
proof -
  have "no_outer_space ''203.0.113.9''" by code_simp
  then show ?thesis
    using anonymous_key [of "''203.0.113.9''" "''h''" "(key_request ''x'')\<lparr>Headers := (\<lambda>h.
      if h = ''X-Forwarded-For'' then ''1.1.1.1'' @ '', '' @ ''203.0.113.9'' else '''')\<rparr>" "''1.1.1.1''"]
    by (simp add: plain_host_def)
qed

text \<open>
  C40: CORS.  A preflight request is answered 204 and never reaches a handler; every other request
  goes on.  The origin is allowed when the configuration is the wildcard, or names it; otherwise no
  \<open>Access-Control-Allow-Origin\<close> is set.
\<close>

theorem cors_allows_configured_origins:
  assumes "unsent c"
  shows "\<exists>c'. (if Method r = ''OPTIONS'' then answers (CORS origins) r c (write_header 204 c')
      else hands_on (CORS origins) r c r c') \<and> unsent c' \<and> cworld c' = cworld c \<and>
    get_header ''Access-Control-Allow-Origin'' c' =
      (if origins = ''*'' then Some ''*''
       else if Headers r ''Origin'' \<in> trim_space ` set (split_on (CHR '','') origins)
       then Some (Headers r ''Origin'')
       else get_header ''Access-Control-Allow-Origin'' c)"
proof -
  have st: "status c = None" using assms by (simp add: unsent_def)
  have "get_header ''Access-Control-Allow-Origin'' (cors_headers origins r c) =
      (if origins = ''*'' then Some ''*''
       else if Headers r ''Origin'' \<in> trim_space ` set (split_on (CHR '','') origins)
       then Some (Headers r ''Origin'')
       else get_header ''Access-Control-Allow-Origin'' c)"
  proof (cases "find (\<lambda>a. trim_space a = Headers r ''Origin'') (split_on (CHR '','') origins)")
    case None
    then have "Headers r ''Origin'' \<notin> trim_space ` set (split_on (CHR '','') origins)"
      by (auto simp: find_None_iff)
    with None st show ?thesis by (simp add: cors_headers_def CORS_def Let_def)
  next
    case (Some a)
    then have "trim_space a = Headers r ''Origin''" "a \<in> set (split_on (CHR '','') origins)"
      by (auto simp: find_Some_iff)
    then have "Headers r ''Origin'' \<in> trim_space ` set (split_on (CHR '','') origins)"
      by (metis image_eqI)
    with Some st show ?thesis by (simp add: cors_headers_def CORS_def Let_def)
  qed
  moreover have "if Method r = ''OPTIONS''
      then answers (CORS origins) r c (write_header 204 (cors_headers origins r c))
      else hands_on (CORS origins) r c r (cors_headers origins r c)"
    by (simp add: answers_def hands_on_def CORS_headers)
  ultimately show ?thesis using assms by (intro exI [of _ "cors_headers origins r c"]) simp
qed

theorem cors_allows_configured_origins_witness:
  "\<exists>c'. hands_on (CORS ''https://a.at, https://b.at'') ((key_request ''x'')\<lparr>Headers := (\<lambda>h.
      if h = ''Origin'' then ''https://b.at'' else '''')\<rparr>) active_conn ((key_request ''x'')\<lparr>Headers :=
      (\<lambda>h. if h = ''Origin'' then ''https://b.at'' else '''')\<rparr>) c' \<and>
    get_header ''Access-Control-Allow-Origin'' c' = Some ''https://b.at''"
proof -
  let ?r = "(key_request ''x'')\<lparr>Headers := (\<lambda>h. if h = ''Origin'' then ''https://b.at'' else '''')\<rparr>"
  have "no_outer_space ''https://b.at''" by code_simp
  then have "trim_space ''https://b.at'' = ''https://b.at''" by (rule trim_space_id)
  then have "trim_space ('' '' @ ''https://b.at'') = ''https://b.at''"
    by (simp only: trim_left_blank trim_space_def append_Cons append_Nil)
  moreover have "'' '' @ ''https://b.at'' \<in> set (split_on (CHR '','') ''https://a.at, https://b.at'')"
    using split_on_append [of "CHR '',''" "''https://a.at''" "'' https://b.at''"]
    by (simp del: split_on.simps)
  ultimately have "''https://b.at'' \<in> trim_space `
      set (split_on (CHR '','') ''https://a.at, https://b.at'')" by (metis image_eqI)
  moreover have h: "Headers ?r ''Origin'' = ''https://b.at''" by simp
  ultimately have o: "Headers ?r ''Origin'' \<in> trim_space `
      set (split_on (CHR '','') ''https://a.at, https://b.at'')" by (simp only:)
  have m: "Method ?r \<noteq> ''OPTIONS''" by (simp add: key_request_def sample_request_def)
  have w: "''https://a.at, https://b.at'' \<noteq> ''*''" by simp
  obtain c' where "hands_on (CORS ''https://a.at, https://b.at'') ?r active_conn ?r c'"
      "get_header ''Access-Control-Allow-Origin'' c' = Some (Headers ?r ''Origin'')"
    using cors_allows_configured_origins [OF sample_unsent(2), of ?r "''https://a.at, https://b.at''"]
    unfolding if_not_P [OF m] if_not_P [OF w] if_P [OF o] by blast
  then show ?thesis unfolding h by blast
qed

end
