(* ===== verification/Server_Properties.thy ===== *)
theory Server_Properties
  imports Auth_Rate Endpoint_Properties Middleware_Properties
begin

text \<open>The properties of the running server: what the composition of the parts guarantees.\<close>

section \<open>A sample application\<close>

text \<open>A multiplexer that behaves as documented: the exact route first, then a mounted router.\<close>

definition sample_pick :: "(go_string \<times> go_string) list \<Rightarrow> go_string \<Rightarrow> go_string \<Rightarrow> nat option" where
  "sample_pick keys m p =
     (case find (\<lambda>i. keys ! i = (m, p)) [0..<length keys] of
        Some i \<Rightarrow> Some i
      | None \<Rightarrow> find (\<lambda>i. covers (keys ! i) m p) [0..<length keys])"

definition sample_chi :: "(unit, unit) router_lib" where
  "sample_chi =
     \<lparr>chi_pick = sample_pick, chi_unmatched = NotFound, chi_context = (\<lambda>r. r),
      otelhttp = (\<lambda>_ _ h. h)\<rparr>"

definition sample_params :: query_binder where
  "sample_params =
     \<lparr>bind_integer = (\<lambda>_ _. Inr None), bind_boolean = (\<lambda>_ _. Inr None),
      bind_string = (\<lambda>_ _. Inr None)\<rparr>"

definition sample_app :: "(unit, unit, unit, unit) app_lib" where
  "sample_app =
     \<lparr>for_auth = sample_lib, for_service = sample_service, for_params = sample_params,
      for_router = sample_chi, openapi_yaml = ''openapi: 3.0.3''\<rparr>"

definition sample_limiter_api :: "unit RateLimiter" where
  "sample_limiter_api = memory_limiter w_memory w_memory_update"

definition sample_config :: Config where
  "sample_config = (Load (\<lambda>_. ''''))\<lparr>AdminToken := ''secret''\<rparr>"

definition sample_router :: "(unit, unit) handler" where
  "sample_router = NewRouter sample_app sample_config sample_limiter_api None sample_server True"

lemma sample_pick_sound: "sample_pick keys m p = Some i \<Longrightarrow> i < length keys \<and> covers (keys ! i) m p"
  by (auto simp: sample_pick_def find_Some_iff covers_def split: option.splits)

lemma find_index:
  "x \<in> set xs \<Longrightarrow> P x \<Longrightarrow> \<exists>i. find (\<lambda>i. P (xs ! i)) [0..<length xs] = Some i \<and> P (xs ! i)"
  using find_None_iff [of "\<lambda>i. P (xs ! i)" "[0..<length xs]"]
  by (cases "find (\<lambda>i. P (xs ! i)) [0..<length xs]")
    (auto simp: in_set_conv_nth find_Some_iff)

lemma sample_pick_exact:
  assumes "(m, p) \<in> set keys"
  shows "\<exists>i. sample_pick keys m p = Some i \<and> keys ! i = (m, p)"
  using find_index [OF assms, of "\<lambda>k. k = (m, p)"] by (auto simp: sample_pick_def)

lemma sample_pick_covered: "key \<in> set keys \<Longrightarrow> covers key m p \<Longrightarrow> sample_pick keys m p \<noteq> None"
  using find_index [of key keys "\<lambda>k. covers k m p"] by (auto simp: sample_pick_def split: option.split)

lemma sample_chi_ok: "router_ok sample_chi"
  unfolding router_ok_def sample_chi_def
  using sample_pick_sound sample_pick_exact sample_pick_covered
  by (auto simp: NotFound_def same_request_def unsent_def)

lemma sample_app_ok: "app_ok sample_app sample_limiter_api None"
  using sample_chi_ok api_memory.tame
  by (simp add: app_ok_def sample_app_def sample_limiter_api_def)


section \<open>Properties\<close>

text \<open>
  C6: Who can change anything.  Through the router, a request changes the tables or sends mail only
  if it verifies a token, or registers or re-issues and shows the configured admin token; with no
  admin token configured, nobody can register.
\<close>

theorem only_authorized_requests_write:
  assumes "app_ok lib rl prom" "\<not> may_write cfg r"
  shows "quiet w (cworld (serve (NewRouter lib cfg rl prom srv has_store) r w))"
  using router_calm [OF assms(1) _ unsent_new, of cfg "fresh_request r"] assms(2)
  by (simp add: serve_def may_write_def fresh_request_def)

theorem only_authorized_requests_write_witness:
  "quiet (world_of pending_db) (cworld (serve sample_router
    (sample_request ''/api/v1/auth/register'' [(''email'', JStr ''x@y.z'')]) (world_of pending_db)))"
  unfolding sample_router_def
  by (rule only_authorized_requests_write [OF sample_app_ok])
    (simp add: may_write_def sample_request_def sample_config_def)

text \<open>
  C7: A revoked key opens nothing.  After the revocation, and whatever requests came in between,
  every API request that bears the key is answered 401, as long as no other client stores the same
  hash.
\<close>

theorem revoked_key_locked_out:
  assumes "app_ok lib rl prom" "sha256_sized (for_auth lib)" "auth_inv (w_db w)"
    and "cl \<in> set (clients (w_db w))" "account cl = Revoked (Some h)"
    and "w' = run_server (NewRouter lib cfg rl prom srv has_store) xs w"
    and "\<forall>cl' \<in> set (clients (w_db w')). APIKeyHash cl' = h \<longrightarrow> client_id cl' = client_id cl"
    and "Method r = ''GET''" "below api_prefix (Path r)"
    and "bearer_key r = Some k" "HashKey (sha256 (for_auth lib)) k = h"
  shows "status (serve (NewRouter lib cfg rl prom srv has_store) r w') = Some 401"
proof (rule api_unheld_key [OF app_okD(1) [OF assms(1)] assms(8-10)])
  have "db_changes (w_db w) (w_db w')" "db_ok (w_db w)"
    using run_accounts [OF assms(1,2)] assms(3,6) by (simp_all add: keeps_def auth_inv_def)
  from revoked_not_held [OF this assms(4,5,10,11,7)]
  show "\<not> holds_key (sha256 (for_auth lib)) r (w_db w') cl'" for cl' .
qed

definition revoked_person :: Client where
  "revoked_person = (person (Some 1000) (HashKey sample_sha ''zaas_1''))\<lparr>RevokedAt := Some 2000\<rparr>"

definition revoked_db :: database where
  "revoked_db = \<lparr>clients = [revoked_person], verification_tokens = []\<rparr>"

definition key_get :: "unit request" where
  "key_get = (key_request ''zaas_1'')\<lparr>Method := ''GET''\<rparr>"

theorem revoked_key_locked_out_witness:
  "status (serve sample_router key_get (world_of revoked_db)) = Some 401"
proof -
  have hash: "HashKey sample_sha ''zaas_1'' \<noteq> ''''" by code_simp
  have "sha256_sized (for_auth sample_app)" using sample_sized by (simp add: sample_app_def)
  moreover have "auth_inv (w_db (world_of revoked_db))"
    using hash by (simp add: auth_inv_def db_ok_def tokens_backed_def world_of_def revoked_db_def
        revoked_person_def person_def client_ok_def)
  moreover have "account revoked_person = Revoked (Some (HashKey sample_sha ''zaas_1''))"
    using hash by (simp add: revoked_person_def person_def account_def)
  moreover have "below api_prefix (Path key_get)" "bearer_key key_get = Some ''zaas_1''"
    by code_simp+
  ultimately show ?thesis
    unfolding sample_router_def
    by (intro revoked_key_locked_out [OF sample_app_ok, where xs = "[]" and cl = revoked_person
          and h = "HashKey sample_sha ''zaas_1''" and w = "world_of revoked_db" and k = "''zaas_1''"])
      (simp_all add: world_of_def revoked_db_def key_get_def sample_app_def sample_lib_def)
qed

text \<open>
  C14: The randomness endpoints stay available.  Whatever state the database, the mail server and the
  rate limiter are in, a \<open>GET\<close> of an endpoint that completes is answered 200, 400, 401 or 429: an
  outage of the limiter's backend or of the database never makes it a server error.
\<close>

theorem endpoints_never_fail:
  assumes "app_ok lib rl prom" "Method r = ''GET''" "Path r \<in> set api_paths"
    and "\<not> panicked (serve (NewRouter lib cfg rl prom srv has_store) r w)"
  shows "status (serve (NewRouter lib cfg rl prom srv has_store) r w)
    \<in> {Some 200, Some 400, Some 401, Some 429}"
  using api_statuses [OF assms(1-3)] assms(4) by blast

theorem endpoints_never_fail_witness:
  "status (serve sample_router (api_request ''/api/v1/dice'') (world_of active_db))
    \<in> {Some 200, Some 400, Some 401, Some 429}"
proof -
  have "\<not> panicked (serve sample_router (api_request ''/api/v1/dice'') (world_of active_db))"
    by code_simp
  then show ?thesis
    unfolding sample_router_def
    by (intro endpoints_never_fail [OF sample_app_ok])
      (simp_all add: api_request_def sample_request_def api_paths_def api_prefix_def)
qed



end
