(* ===== verification/Startup_Properties.thy ===== *)
theory Startup_Properties
  imports Startup_Facts Server_Properties
begin

text \<open>
  The properties of a whole life of the program, from \<open>main\<close> to its exit: the order in which it
  starts and stops, and what its requests can have done to the tables and the outbox.
\<close>

section \<open>Who is registered\<close>

text \<open>
  The roster: the mails sent, the identities of the clients and the tokens that were issued.  A
  verification changes nothing of it.
\<close>

definition roster_db ::
  "database \<Rightarrow> (go_string \<times> go_string \<times> go_string) list \<times> (go_string \<times> go_string \<times> TokenType) list" where
  "roster_db db =
     (map (\<lambda>cl. (client_id cl, client_email cl, DisplayName cl)) (clients db),
      map (\<lambda>t. (TokenHash t, token_email t, token_type t)) (verification_tokens db))"

definition same_roster :: "'s world \<Rightarrow> 's world \<Rightarrow> bool" where
  "same_roster w w' \<longleftrightarrow> w_outbox w' = w_outbox w \<and> roster_db (w_db w') = roster_db (w_db w)"

interpretation roster: durable same_roster
  by unfold_locales (auto simp: same_roster_def quiet_def)

lemma roster_updates [simp]:
  "roster_db (snd (ConsumeToken h ty call db)) = roster_db db"
  "roster_db (snd (RevokeClient email call db)) = roster_db db"
  "roster_db (snd (MarkClientVerified email k p call db)) = roster_db db"
  by (auto simp: store_ops sql_defs roster_db_def split: pg_delivery.split option.split sum.split
      pg_error.split prod.split)

lemma roster_sql:
  assumes "sql m w = (res, w')" "\<And>call db. roster_db (snd (m call db)) = roster_db db"
  shows "same_roster w w'"
  using sql_eq(2,3) [OF assms(1)] assms(2) by (simp add: same_roster_def)

lemma grant_key_roster: "same_roster (cworld c) (cworld (grant_key lib ty email r c))"
proof (cases "random GenerateAPIKey (cworld c)")
  case None
  then show ?thesis by (simp add: grant_key_None roster.quiet_R)
next
  case (Some kw)
  obtain k w1 where kw: "kw = (k, w1)" by (cases kw)
  obtain res w2 where q: "sql (MarkClientVerified email (HashKey (sha256 lib) k) (KeyPrefix k)) w1 = (res, w2)"
    by fastforce
  have "same_roster (cworld c) w2"
    using roster.R_trans [OF roster.quiet_R [OF random_quiet [OF Some [unfolded kw]]] roster_sql [OF q]]
    by simp
  then show ?thesis
    unfolding grant_key_eq [OF Some [unfolded kw] q] by (simp split: sum.split)
qed

lemma AuthVerify_roster: "same_roster (cworld c) (cworld (AuthVerify lib srv r c))"
proof -
  have "same_roster (cworld c) (cworld (verify_token lib tok ty r c))" for tok ty
  proof -
    obtain res w1 where q: "sql (ConsumeToken (HashKey (sha256 lib) tok) ty) (cworld c) = (res, w1)"
      by fastforce
    have k1: "same_roster (cworld c) w1" by (rule roster_sql [OF q]) simp
    have k2: "same_roster (cworld c) (cworld (grant_key lib ty email r (c\<lparr>cworld := w\<rparr>)))"
      if "same_roster (cworld c) w" for w email
      using roster.R_trans [OF that] grant_key_roster [of "c\<lparr>cworld := w\<rparr>"] by simp
    show ?thesis
    proof (cases res)
      case (Inl err)
      then show ?thesis using k1 by (simp add: verify_token_eq [OF q])
    next
      case (Inr t)
      obtain x w2 where q2: "sql (RevokeClient (token_email t)) w1 = (x, w2)" by fastforce
      have k3: "same_roster (cworld c) w2" by (rule roster.R_trans [OF k1 roster_sql [OF q2]]) simp
      show ?thesis
        using Inr q2 k2 [OF k1] k2 [OF k3] k3 by (auto simp: verify_token_eq [OF q] split: sum.split)
    qed
  qed
  then show ?thesis
    by (simp add: AuthVerify_cases roster.quiet_R split: option.split)
qed

text \<open>With no admin token, nobody gets on the roster.\<close>

lemma run_roster:
  fixes lib :: "('s, 'k, 'p, 'n) app_lib"
  assumes "app_ok lib rl prom" "AdminToken cfg = ''''"
  shows "same_roster w (run_server (NewRouter lib cfg rl prom srv has_store) xs w)"
proof -
  let ?H = "NewRouter lib cfg rl prom srv has_store"
  have verify: "roster.safe P (AuthVerify (for_auth lib) srv)" for P
    by (simp add: roster.safe_def AuthVerify_roster)
  have refused: "roster.safe P (AdminAuth (AdminToken cfg) h)" for P and h :: "('s, 'n) handler"
    unfolding roster.safe_def assms(2)
    by (auto intro: roster.quiet_R simp: AdminAuth_def)
  have "roster.safe (\<lambda>_. True) (mux (for_router lib) (app_routes lib cfg rl prom srv has_store) Path)"
    by (intro roster.safe_app [OF app_okD [OF assms(1)]] verify refused)
  then have "roster.safe (\<lambda>_. True) ?H"
    by (rule roster.safe_NewRouter [OF app_okD(1) [OF assms(1)]]) simp
  then have "same_roster w (server_step ?H x w)" for x w
    by (cases x)
      (auto simp: roster.safe_def serve_def time_Now_def Let_def unsent_new same_roster_def dest!: spec)
  then show ?thesis
    by (induction xs arbitrary: w) (auto intro: roster.R_trans roster.quiet_R)
qed

section \<open>From the start to the exit\<close>

text \<open>What the libraries a build is linked with have to promise.\<close>

definition build_ok :: "('s, 'k, 'p, 'n) build \<Rightarrow> bool" where
  "build_ok b \<longleftrightarrow> router_ok (for_router (b_lib b)) \<and> quiet_handler (b_promhttp b)"

lemma build_app_ok:
  "build_ok b \<Longrightarrow> tame_limiter rl \<Longrightarrow>
    app_ok (b_lib b) rl (if OTelEnabled cfg then Some (b_promhttp b) else None)"
  by (simp add: build_ok_def app_ok_def)

lemma main_cases:
  assumes "p_trace p = []"
  shows "main b e xs p = \<lparr>exit_status = 2, exit_logs = log_handler_of (Load e), exit_process = p\<rparr> \<or>
    (\<exists>ok t v w pg. quiet (p_world p) v \<and>
      main b e xs p = \<lparr>exit_status = (if ok then 0 else 1), exit_logs = log_handler_of (Load e),
        exit_process = grow t (p\<lparr>p_world := w\<rparr>)\<rparr> \<and>
      life (Load e) ok t \<and> served_by (router_of b (Load e) pg) xs v w)"
proof (cases "random (uuid_New (for_service (b_lib b))) (p_world p)")
  case None
  then show ?thesis by (simp add: main_def run_def Let_def)
next
  case (Some uv)
  obtain uuid v where uv: "uv = (uuid, v)" by (cases uv)
  obtain res t w pg where r: "run b e (Load e) xs p = Some (res, grow t (p\<lparr>p_world := w\<rparr>))"
      "life (Load e) (is_ok res) t" "served_by (router_of b (Load e) pg) xs v w"
    using run_ends [OF Some [unfolded uv], of e "Load e" xs] by blast
  then have "main b e xs p = \<lparr>exit_status = (if is_ok res then 0 else 1),
      exit_logs = log_handler_of (Load e), exit_process = grow t (p\<lparr>p_world := w\<rparr>)\<rparr>"
    by (cases res) (simp_all add: main_def Let_def)
  then show ?thesis
    using r(2,3) random_quiet [OF Some [unfolded uv]] by blast
qed

text \<open>A relation that requests and quiet phases keep holds over a whole life.\<close>

lemma main_keeps:
  fixes b :: "('s, 'k, 'p, 'n) build"
  assumes "durable R" "p_trace p = []" "build_ok b"
    and "\<And>rl prom srv pg w. app_ok (b_lib b) rl prom \<Longrightarrow>
      R w (run_server (NewRouter (b_lib b) (Load e) rl prom srv pg) xs w)"
  shows "R (p_world p) (p_world (exit_process (main b e xs p)))"
proof -
  note quiet = durable.quiet_R [OF assms(1)] and trans = durable.R_trans [OF assms(1)]
  {
    fix v w :: "'s world" and pg
    assume v: "quiet (p_world p) v" and "served_by (router_of b (Load e) pg) xs v w"
    then obtain rl ys w1 where *: "tame_limiter rl" "ys \<in> {[], xs}" "quiet v w1"
        "quiet (run_server (router_of b (Load e) pg rl) ys w1) w"
      unfolding served_by_def by blast
    have "R w1 (run_server (router_of b (Load e) pg rl) ys w1)"
      using assms(4) [OF build_app_ok [OF assms(3) *(1), of "Load e"]] *(2) quiet [OF quiet_refl]
      by (auto simp: router_of_def)
    then have "R (p_world p) w"
      using trans [OF quiet [OF v]] trans [OF quiet [OF *(3)]] trans quiet [OF *(4)] by blast
  }
  then show ?thesis
    using main_cases [OF assms(2), of b e xs] quiet [OF quiet_refl] by auto
qed

text \<open>
  C5: The life of the process.  The server listens only once everything its configuration asks for is
  up: the exporters, the database with its migrations done, the Redis server that has answered.  When
  it stops, by a signal or an error, it closes the limiter, the database and the telemetry in this
  order, and the exit status is 0 exactly after a clean shutdown; what stays is the clean-up goroutine
  of the auth limiter, which nothing closes.  A start that fails exits with a status other than 0 and
  leaves nothing open, but for a Redis client whose server did not answer and the exporters made before
  another one failed.
\<close>

theorem main_lifecycle:
  assumes "p_trace p = []"
  shows "let x = main b e xs p; t = p_trace (exit_process x)
    in if listens t then orderly (Load e) (exit_status x = 0) t \<and> held t = [AuthSweeper]
      else exit_status x \<in> {1, 2} \<and>
        (held t = [] \<or> held t = [RedisClient] \<and> redis_down t \<or>
         set (held t) \<subseteq> range Exporter \<and> exporter_down t)"
proof -
  have "if listens t then orderly (Load e) ok t \<and> held t = [AuthSweeper] else \<not> ok \<and>
      (held t = [] \<or> held t = [RedisClient] \<and> redis_down t \<or>
       set (held t) \<subseteq> range Exporter \<and> exporter_down t)" if "life (Load e) ok t" for ok t
    using that orderly_held by (auto simp: life_def aborted_def)
  note life = this
  show ?thesis
    using main_cases [OF assms, of b e xs]
  proof (elim disjE exE conjE)
    assume "main b e xs p = \<lparr>exit_status = 2, exit_logs = log_handler_of (Load e), exit_process = p\<rparr>"
    then show ?thesis by (simp add: assms Let_def held_def)
  next
    fix ok t w
    assume "main b e xs p = \<lparr>exit_status = (if ok then 0 else 1),
        exit_logs = log_handler_of (Load e), exit_process = grow t (p\<lparr>p_world := w\<rparr>)\<rparr>"
      "life (Load e) ok t"
    then show ?thesis using life [of ok t] by (cases ok) (simp_all add: assms Let_def split: if_splits)
  qed
qed

text \<open>A build, an environment with a database, and processes whose calls succeed or fail.\<close>

definition sample_commands :: "unit redis_commands" where
  "sample_commands =
     \<lparr>zremrangebyscore = (\<lambda>_ _ s. s), zcard = (\<lambda>_ _. 0), zadd = (\<lambda>_ _ _ s. s),
      pexpire = (\<lambda>_ _ s. s), zrange_first = (\<lambda>_ _. None)\<rparr>"

definition sample_build :: "(unit, unit, unit, unit) build" where
  "sample_build =
     \<lparr>b_lib = sample_app, b_redis = sample_commands, b_promhttp = NotFound,
      b_parse_float = (\<lambda>_. None), b_version = ''1.0.0''\<rparr>"

definition sample_env :: env where
  "sample_env key = (if key = ''ZAAS_DB_URL'' then ''postgres://db'' else '''')"

definition sample_process :: "database \<Rightarrow> unit process" where
  "sample_process db = \<lparr>p_outcome = (\<lambda>_. None), p_trace = [], p_world = world_of db\<rparr>"

definition sample_steps :: "unit step list" where
  "sample_steps = [Serve (verify_request TokenTypeRegistration), SweepAuth,
     Serve (api_request ''/api/v1/coin'')]"

definition sample_exit :: "database \<Rightarrow> unit exit" where
  "sample_exit db = main sample_build sample_env sample_steps (sample_process db)"

theorem main_lifecycle_witness:
  "orderly (Load sample_env) True
    (p_trace (exit_process (main sample_build sample_env [] (sample_process pending_db))))"
proof -
  have start: "p_trace (sample_process pending_db) = []" by (simp add: sample_process_def)
  have "listens (p_trace (exit_process (main sample_build sample_env [] (sample_process pending_db))))"
    "exit_status (main sample_build sample_env [] (sample_process pending_db)) = 0"
    by code_simp+
  then show ?thesis
    using main_lifecycle [OF start, of sample_build sample_env "[]"]
    by (simp add: Let_def)
qed

text \<open>
  C8: Accounts over a whole life.  From the start of the program to its exit, whatever fails on the way
  and whatever requests it served, the tables stay well-formed, every token belongs to an account, and
  every client stays, keeps its identity, and moves only from pending to active to revoked.
\<close>

theorem main_keeps_accounts:
  assumes "p_trace p = []" "build_ok b" "sha256_sized (for_auth (b_lib b))"
    and "auth_inv (w_db (p_world p))"
  shows "let db = w_db (p_world p); db' = w_db (p_world (exit_process (main b e xs p)))
    in auth_inv db' \<and> (\<forall>cl \<in> set (clients db). \<exists>cl' \<in> set (clients db').
      same_person cl cl' \<and> account_step\<^sup>*\<^sup>* (account cl) (account cl'))"
proof -
  have k: "keeps (w_db (p_world p)) (w_db (p_world (exit_process (main b e xs p))))"
    by (rule main_keeps [OF accounts.durable_axioms assms(1,2), unfolded accounts_kept_def])
      (rule run_accounts [OF _ assms(3)])
  then show ?thesis
    using auth_inv_keeps [OF k assms(4)] changes_account by (auto simp: keeps_def Let_def)
qed

lemma sample_build_ok: "build_ok sample_build"
  using sample_chi_ok not_found.quiet_handler_axioms
  by (simp add: build_ok_def sample_build_def sample_app_def)

theorem main_keeps_accounts_witness: "auth_inv (w_db (p_world (exit_process (sample_exit active_db))))"
proof -
  have "p_trace (sample_process active_db) = []" by (simp add: sample_process_def)
  moreover have "sha256_sized (for_auth (b_lib sample_build))"
    using sample_sized by (simp add: sample_app_def sample_build_def)
  moreover have "auth_inv (w_db (p_world (sample_process active_db)))"
    using active_inv by (simp add: active_conn_def new_conn_def sample_process_def)
  ultimately show ?thesis
    using main_keeps_accounts [OF _ sample_build_ok, of "sample_process active_db" sample_env sample_steps]
    by (simp add: sample_exit_def Let_def)
qed

text \<open>
  C9: No sign-up without an admin token.  A program started without \<open>ZAAS_ADMIN_TOKEN\<close>, as it is by
  default, never registers anybody: over its whole life it sends no mail, issues no token, and adds,
  removes or renames no client.
\<close>

theorem no_signup_without_admin_token:
  assumes "p_trace p = []" "build_ok b" "e ''ZAAS_ADMIN_TOKEN'' = ''''"
  shows "same_roster (p_world p) (p_world (exit_process (main b e xs p)))"
proof -
  have "AdminToken (Load e) = ''''"
    using assms(3) by (simp add: Load_def getEnv_def)
  then show ?thesis
    using main_keeps [OF roster.durable_axioms assms(1,2)] run_roster by blast
qed

theorem no_signup_without_admin_token_witness:
  "same_roster (p_world (sample_process pending_db)) (p_world (exit_process (sample_exit pending_db)))"
  unfolding sample_exit_def
  by (rule no_signup_without_admin_token [OF _ sample_build_ok])
    (simp_all add: sample_process_def sample_env_def)

end
