(* ===== verification/Api_Contract.thy ===== *)
theory Api_Contract
  imports Endpoint_Properties Router "HOL-Library.Multiset"
begin

text \<open>
  The parts of the generated code (\<open>gen/openapi.gen.go\<close>) that state the contract of the API description:
  the members of its enumerations and the route table, and how the hand-written validation and router
  compare to them.  The program uses the types and the wrappers of the file; \<open>Valid\<close> and
  \<open>HandlerWithOptions\<close> it does not call, so nothing but a comparison keeps the two sides together.
\<close>

section \<open>Enumerations\<close>

definition ProblemCode_Valid :: "go_string \<Rightarrow> bool" where
  "ProblemCode_Valid e \<longleftrightarrow> e \<in>
     {''INTERNAL_ERROR'', ''INVALID_API_KEY'', ''INVALID_PARAM'', ''RATE_LIMITED'', ''SERVICE_UNAVAILABLE''}"

definition VerifyRequestType_Valid :: "go_string \<Rightarrow> bool" where
  "VerifyRequestType_Valid e \<longleftrightarrow> e \<in> {''registration'', ''reissue''}"

definition GenerateColorParamsFormat_Valid :: "go_string \<Rightarrow> bool" where
  "GenerateColorParamsFormat_Valid e \<longleftrightarrow> e \<in> {''hex'', ''hsl'', ''rgb''}"

definition RollDiceParamsSides_Valid :: "int \<Rightarrow> bool" where
  "RollDiceParamsSides_Valid e \<longleftrightarrow> e \<in> {10, 100, 12, 20, 4, 6, 8}"

definition GenerateSSHKeyParamsType_Valid :: "go_string \<Rightarrow> bool" where
  "GenerateSSHKeyParamsType_Valid e \<longleftrightarrow> e \<in> {''ed25519'', ''rsa''}"

definition GenerateSSHKeyParamsBits_Valid :: "int \<Rightarrow> bool" where
  "GenerateSSHKeyParamsBits_Valid e \<longleftrightarrow> e \<in> {2048, 4096}"

definition GenerateUUIDParamsFormat_Valid :: "go_string \<Rightarrow> bool" where
  "GenerateUUIDParamsFormat_Valid e \<longleftrightarrow> e \<in> {''no-dashes'', ''standard'', ''urn''}"

definition GenerateWordsParamsStyle_Valid :: "go_string \<Rightarrow> bool" where
  "GenerateWordsParamsStyle_Valid e \<longleftrightarrow> e \<in> {''docker'', ''random'', ''ubuntu''}"

section \<open>Routes\<close>

definition siw_AuthRegister ::
  "('s, 'n) ServerInterfaceWrapper \<Rightarrow> ('s, 'n) handler \<Rightarrow> ('s, 'n) handler" where
  "siw_AuthRegister siw handler = siw_call siw handler"

definition siw_AuthReissue ::
  "('s, 'n) ServerInterfaceWrapper \<Rightarrow> ('s, 'n) handler \<Rightarrow> ('s, 'n) handler" where
  "siw_AuthReissue siw handler = siw_call siw handler"

record ('s, 'n) ChiServerOptions =
  opt_BaseURL :: go_string
  opt_BaseRouter :: "('s, 'n) route list"
  opt_Middlewares :: "(('s, 'n) handler \<Rightarrow> ('s, 'n) handler) list"
  opt_ErrorHandlerFunc :: "(go_string \<Rightarrow> ('s, 'n) handler) option"

text \<open>\<open>http.Error\<close>.\<close>

definition http_Error :: "int \<Rightarrow> go_string \<Rightarrow> ('s, 'n) handler" where
  "http_Error code err r c =
     write_body (Bytes (err @ [CHR 0x0A])) (write_header code
       (set_header ''X-Content-Type-Options'' ''nosniff''
         (set_header ''Content-Type'' ''text/plain; charset=utf-8'' c)))"

definition HandlerWithOptions ::
  "('s, 'k, 'p, 'n) app_lib \<Rightarrow> server \<Rightarrow> ('s, 'n) ChiServerOptions \<Rightarrow> ('s, 'n) route list" where
  "HandlerWithOptions lib srv options =
     (let svc = for_service lib; bd = for_params lib; base = opt_BaseURL options;
          wrapper = \<lparr>HandlerMiddlewares = opt_Middlewares options,
            ErrorHandlerFunc = (case opt_ErrorHandlerFunc options of
               None \<Rightarrow> http_Error 400 | Some f \<Rightarrow> f)\<rparr>
      in opt_BaseRouter options @
         [((''GET'', base @ ''/dice''), siw_RollDice wrapper bd svc),
          ((''GET'', base @ ''/coin''), siw_FlipCoin wrapper),
          ((''GET'', base @ ''/number''), siw_GenerateNumber wrapper bd svc),
          ((''GET'', base @ ''/uuid''), siw_GenerateUUID wrapper bd svc),
          ((''GET'', base @ ''/color''), siw_GenerateColor wrapper bd svc),
          ((''GET'', base @ ''/coordinates''), siw_GenerateCoordinates wrapper bd svc),
          ((''GET'', base @ ''/password''), siw_GeneratePassword wrapper bd svc),
          ((''GET'', base @ ''/words''), siw_GenerateWords wrapper bd svc),
          ((''GET'', base @ ''/lorem''), siw_GenerateLorem wrapper bd svc),
          ((''GET'', base @ ''/ssh-key''), siw_GenerateSSHKey wrapper bd svc),
          ((''POST'', base @ ''/auth/register''),
             siw_AuthRegister wrapper (AuthRegister (for_auth lib) srv)),
          ((''POST'', base @ ''/auth/verify''),
             siw_AuthVerify wrapper (AuthVerify (for_auth lib) srv)),
          ((''POST'', base @ ''/auth/reissue''),
             siw_AuthReissue wrapper (AuthReissue (for_auth lib) srv)),
          ((''GET'', base @ ''/openapi.yaml''), siw_GetOpenAPISpec wrapper (openapi_yaml lib))])"

definition HandlerFromMuxWithBaseURL ::
  "('s, 'k, 'p, 'n) app_lib \<Rightarrow> server \<Rightarrow> ('s, 'n) route list \<Rightarrow> go_string \<Rightarrow> ('s, 'n) route list" where
  "HandlerFromMuxWithBaseURL lib srv r baseURL = HandlerWithOptions lib srv
     \<lparr>opt_BaseURL = baseURL, opt_BaseRouter = r, opt_Middlewares = [], opt_ErrorHandlerFunc = None\<rparr>"

definition HandlerFromMux ::
  "('s, 'k, 'p, 'n) app_lib \<Rightarrow> server \<Rightarrow> ('s, 'n) route list \<Rightarrow> ('s, 'n) route list" where
  "HandlerFromMux lib srv r = HandlerWithOptions lib srv
     \<lparr>opt_BaseURL = '''', opt_BaseRouter = r, opt_Middlewares = [], opt_ErrorHandlerFunc = None\<rparr>"

definition api_Handler :: "('s, 'k, 'p, 'n) app_lib \<Rightarrow> server \<Rightarrow> ('s, 'n) route list" where
  "api_Handler lib srv = HandlerWithOptions lib srv
     \<lparr>opt_BaseURL = '''', opt_BaseRouter = [], opt_Middlewares = [], opt_ErrorHandlerFunc = None\<rparr>"

text \<open>The server the generated code falls back to: 501 for every operation.\<close>

definition Unimplemented :: "('s, 'n) handler" where
  "Unimplemented r c = write_header 501 c"

section \<open>Comparison\<close>

text \<open>A service turns a request down with an error, without using the random source.\<close>

definition rejects :: "'a service \<Rightarrow> sentinel \<Rightarrow> bool" where
  "rejects svc sen \<longleftrightarrow> (\<forall>r. \<exists>e. svc r = Some (Inl e, r) \<and> error_is e sen)"

lemma rejects_simps [simp]:
  "rejects (fails e) sen \<longleftrightarrow> error_is e sen"
  "\<not> rejects (returns g) sen"
  by (auto simp: rejects_def fails_def returns_def)

lemma try_fill_error:
  assumes "try_fill_from i n gen r = Some (Inl e, r')"
  shows "\<exists>j s s'. gen j s = Some (Inl e, s')"
  using assms
proof (induction n arbitrary: i r)
  case (Suc n)
  then obtain x s where x: "gen i r = Some (x, s)" by (auto split: bind_splits)
  show ?case
  proof (cases x)
    case (Inl e')
    then show ?thesis using x Suc.prems by auto
  next
    case (Inr a)
    then obtain xs where "try_fill_from (Suc i) n gen s = Some (xs, r')" "map_sum id ((#) a) xs = Inl e"
      using x Suc.prems by (auto split: bind_splits)
    then show ?thesis using Suc.IH [of "Suc i" s] by (cases xs) auto
  qed
qed simp

lemma generated_pair_error:
  assumes "generateSSHKeyPair lib keyType bits comment r = Some (Inl e, r')" "keyType \<in> {''ed25519'', ''rsa''}"
  shows "\<exists>err. e = Library err"
  using assms
  by (auto simp: generateSSHKeyPair_def generateEd25519_def generateRSA_def
      split: prod.splits sum.splits bind_splits)

lemma GenerateSSHKeys_error:
  assumes "GenerateSSHKeys lib n keyType bits comment r = Some (Inl e, r')"
    and "keyType \<in> {''ed25519'', ''rsa''}"
  shows "\<not> error_is e ErrInvalidKeyType"
    and "bits \<in> {2048, 4096} \<Longrightarrow> \<not> error_is e ErrInvalidKeyBits"
proof -
  have "\<exists>ps err. e = Wrap ps (Library err)"
    if "try_fill n (numbered_key_pair (lib, keyType, bits, comment)) r = Some (Inl e, r')"
    using try_fill_error [OF that [unfolded try_fill_def]] generated_pair_error [OF _ assms(2)]
    by (fastforce simp: numbered_key_pair_def split: bind_splits sum.splits)
  then show "\<not> error_is e ErrInvalidKeyType" "bits \<in> {2048, 4096} \<Longrightarrow> \<not> error_is e ErrInvalidKeyBits"
    using assms by (auto simp: GenerateSSHKeys_def fails_def split: if_splits)
qed

lemma rejects_fails: "rejects svc sen \<Longrightarrow> (\<And>r e r'. svc r = Some (Inl e, r') \<Longrightarrow> \<not> error_is e sen) \<Longrightarrow> False"
  unfolding rejects_def by blast

text \<open>
  C28: The API description and the services agree on the enumerations: a parameter is turned down with
  the error of its enumeration exactly if it is not a member; the token types the verify handler knows
  are the members of theirs; the error codes with a type and a title of their own are the members of
  the problem codes.  \<open>INVALID_ADMIN_TOKEN\<close>, which the admin gate answers with, is not one.
\<close>

theorem enumerations_match:
  "(rejects (RollDice sides n) ErrInvalidSides \<longleftrightarrow> \<not> RollDiceParamsSides_Valid sides) \<and>
   (rejects (RandomColors fl n format) ErrInvalidColorFormat \<longleftrightarrow>
     \<not> GenerateColorParamsFormat_Valid format) \<and>
   (rejects (GenerateUUIDs uuid n uformat) ErrInvalidFormat \<longleftrightarrow>
     \<not> GenerateUUIDParamsFormat_Valid uformat) \<and>
   (rejects (RandomWords p) ErrInvalidWordStyle \<longleftrightarrow> \<not> GenerateWordsParamsStyle_Valid (Style p)) \<and>
   (rejects (GenerateSSHKeys ssh n keyType bits comment) ErrInvalidKeyType \<longleftrightarrow>
     \<not> GenerateSSHKeyParamsType_Valid keyType) \<and>
   (rejects (GenerateSSHKeys ssh n ''rsa'' bits comment) ErrInvalidKeyBits \<longleftrightarrow>
     \<not> GenerateSSHKeyParamsBits_Valid bits) \<and>
   (ty \<in> {TokenTypeRegistration, TokenTypeReissue} \<longleftrightarrow> VerifyRequestType_Valid ty) \<and>
   (problemTypeURL code \<noteq> errors_url @ ''unknown'' \<longleftrightarrow> ProblemCode_Valid code) \<and>
   \<not> ProblemCode_Valid ''INVALID_ADMIN_TOKEN''"
proof (intro conjI)
  show "rejects (RollDice sides n) ErrInvalidSides \<longleftrightarrow> \<not> RollDiceParamsSides_Valid sides"
    by (simp add: RollDice_def validSides_def RollDiceParamsSides_Valid_def)
  show "rejects (RandomColors fl n format) ErrInvalidColorFormat \<longleftrightarrow>
     \<not> GenerateColorParamsFormat_Valid format"
    by (auto simp: RandomColors_def validColorFormats_def GenerateColorParamsFormat_Valid_def)
  show "rejects (GenerateUUIDs uuid n uformat) ErrInvalidFormat \<longleftrightarrow>
     \<not> GenerateUUIDParamsFormat_Valid uformat"
    by (auto simp: GenerateUUIDs_def validUUIDFormats_def GenerateUUIDParamsFormat_Valid_def)
  show "rejects (RandomWords p) ErrInvalidWordStyle \<longleftrightarrow> \<not> GenerateWordsParamsStyle_Valid (Style p)"
    by (auto simp: RandomWords_def GenerateWordsParamsStyle_Valid_def)
  show "rejects (GenerateSSHKeys ssh n keyType bits comment) ErrInvalidKeyType \<longleftrightarrow>
     \<not> GenerateSSHKeyParamsType_Valid keyType"
    using GenerateSSHKeys_error(1) [of ssh n keyType bits comment]
    by (cases "keyType \<in> {''ed25519'', ''rsa''}")
      (auto simp: GenerateSSHKeyParamsType_Valid_def GenerateSSHKeys_def dest: rejects_fails)
  show "rejects (GenerateSSHKeys ssh n ''rsa'' bits comment) ErrInvalidKeyBits \<longleftrightarrow>
     \<not> GenerateSSHKeyParamsBits_Valid bits"
    using GenerateSSHKeys_error(2) [of ssh n "''rsa''" bits comment]
    by (cases "bits \<in> {2048, 4096}")
      (auto simp: GenerateSSHKeyParamsBits_Valid_def GenerateSSHKeys_def dest: rejects_fails)
  show "ty \<in> {TokenTypeRegistration, TokenTypeReissue} \<longleftrightarrow> VerifyRequestType_Valid ty"
    by (simp add: VerifyRequestType_Valid_def TokenTypeRegistration_def TokenTypeReissue_def)
  show "problemTypeURL code \<noteq> errors_url @ ''unknown'' \<longleftrightarrow> ProblemCode_Valid code"
    by (simp add: problemTypeURL_def slugs_def ProblemCode_Valid_def)
  show "\<not> ProblemCode_Valid ''INVALID_ADMIN_TOKEN''"
    by (simp add: ProblemCode_Valid_def)
qed




end
