(* ===== verification/Api_Types.thy ===== *)
theory Api_Types
  imports Endpoint_Properties
begin

text \<open>
  The generated types of the responses (\<open>gen/openapi.gen.go\<close>): structs with their JSON form, and the
  one-or-many unions with their \<open>As\<close>, \<open>From\<close> and \<open>Merge\<close> methods.  A client that is generated from the
  API description reads a response with them; the server writes it by hand (\<open>handler/respond.go\<close>).
  What \<open>encoding/json\<close> does to a struct is modelled; \<open>runtime.JSONMerge\<close> is a parameter.
\<close>

section \<open>Structs and their JSON form\<close>

text \<open>
  \<open>json.Unmarshal\<close> into a struct: each member whose name folds to the name of a field sets it, in
  order; other members are skipped, \<open>null\<close> leaves a field as it is, and a value of the wrong type is an
  error of the whole call.  This is for bodies in which no member is repeated; into a repeated member
  Go would merge.
\<close>

type_synonym ('n, 'a) field = "go_string \<times> ('n json \<Rightarrow> 'a \<Rightarrow> 'a option)"

definition set_member ::
  "('n, 'a) field list \<Rightarrow> go_string \<Rightarrow> 'n json \<Rightarrow> 'a \<Rightarrow> 'a option" where
  "set_member spec k v x =
     (case find (\<lambda>(name, _). fold_name k = name) spec of
        None \<Rightarrow> Some x
      | Some (_, set_it) \<Rightarrow> set_it v x)"

definition decode_struct :: "('n, 'a) field list \<Rightarrow> 'a \<Rightarrow> 'n json \<Rightarrow> 'a option" where
  "decode_struct spec zero j =
     (case j of
        JNull \<Rightarrow> Some zero
      | JObj ms \<Rightarrow> fold (\<lambda>(k, v) cur. Option.bind cur (set_member spec k v)) ms (Some zero)
      | _ \<Rightarrow> None)"

definition set_field ::
  "('n json \<Rightarrow> 'b option) \<Rightarrow> ('b \<Rightarrow> 'a \<Rightarrow> 'a) \<Rightarrow> 'n json \<Rightarrow> 'a \<Rightarrow> 'a option" where
  "set_field dec upd v x =
     (case v of JNull \<Rightarrow> Some x | _ \<Rightarrow> map_option (\<lambda>b. upd b x) (dec v))"

text \<open>A pointer field: \<open>null\<close> sets it to nil.\<close>

definition set_pointer ::
  "('n json \<Rightarrow> 'b option) \<Rightarrow> ('b option \<Rightarrow> 'a \<Rightarrow> 'a) \<Rightarrow> 'n json \<Rightarrow> 'a \<Rightarrow> 'a option" where
  "set_pointer dec upd v x =
     (case v of JNull \<Rightarrow> Some (upd None x) | _ \<Rightarrow> map_option (\<lambda>b. upd (Some b) x) (dec v))"

fun dec_string :: "'n json \<Rightarrow> go_string option" where
  "dec_string (JStr s) = Some s"
| "dec_string _ = None"

definition dec_int :: "'n json \<Rightarrow> int option" where
  "dec_int j = (case j of JInt i \<Rightarrow> if int64 i then Some i else None | _ \<Rightarrow> None)"

text \<open>A timestamp; its text is the library's, the value is the clock reading.\<close>

fun dec_time :: "'n json \<Rightarrow> time option" where
  "dec_time (JInt t) = Some t"
| "dec_time _ = None"

fun dec_map :: "'n json \<Rightarrow> (go_string \<times> 'n json) list option" where
  "dec_map (JObj ms) = Some ms"
| "dec_map _ = None"

definition dec_slice :: "('n json \<Rightarrow> 'b option) \<Rightarrow> 'n json \<Rightarrow> 'b list option" where
  "dec_slice dec j = (case j of JArr js \<Rightarrow> those (map dec js) | _ \<Rightarrow> None)"

definition pointer_member :: "go_string \<Rightarrow> ('b \<Rightarrow> 'n json) \<Rightarrow> 'b option \<Rightarrow> (go_string \<times> 'n json) list" where
  "pointer_member name enc p = (case p of None \<Rightarrow> [] | Some b \<Rightarrow> [(name, enc b)])"

record 'n Meta =
  Endpoint :: go_string
  Params :: "(go_string \<times> 'n json) list"
  RequestId :: "go_string option"
  Timestamp :: time

definition zero_Meta :: "'n Meta" where
  "zero_Meta = \<lparr>Endpoint = '''', Params = [], RequestId = None, Timestamp = 0\<rparr>"

definition decode_Meta :: "'n json \<Rightarrow> 'n Meta option" where
  "decode_Meta = decode_struct
     [(''endpoint'', set_field dec_string (\<lambda>s m. m\<lparr>Endpoint := s\<rparr>)),
      (''params'', set_field dec_map (\<lambda>p m. m\<lparr>Params := p\<rparr>)),
      (''request_id'', set_pointer dec_string (\<lambda>s m. m\<lparr>RequestId := s\<rparr>)),
      (''timestamp'', set_field dec_time (\<lambda>t m. m\<lparr>Timestamp := t\<rparr>))] zero_Meta"

definition encode_Meta :: "'n Meta \<Rightarrow> 'n json" where
  "encode_Meta m = JObj ([(''endpoint'', JStr (Endpoint m)), (''params'', JObj (Params m))] @
     pointer_member ''request_id'' JStr (RequestId m) @ [(''timestamp'', JInt (Timestamp m))])"

text \<open>The pairs of structs \<open>SingleXResult\<close> and \<open>MultiXResult\<close> differ in their element type alone.\<close>

record ('n, 'a) SingleResult =
  s_Meta :: "'n Meta"
  Result :: 'a

record ('n, 'a) MultiResult =
  m_Meta :: "'n Meta"
  Results :: "'a list"

record SSHKey =
  key_Fingerprint :: go_string
  key_PrivateKey :: go_string
  key_PublicKey :: go_string

record 'f api_Coordinate =
  api_Lat :: 'f
  api_Lon :: 'f

type_synonym 'n SingleIntResult = "('n, int) SingleResult"
type_synonym 'n MultiIntResult = "('n, int) MultiResult"
type_synonym 'n SingleStringResult = "('n, go_string) SingleResult"
type_synonym 'n MultiStringResult = "('n, go_string) MultiResult"
type_synonym 'n SingleSSHKeyResult = "('n, SSHKey) SingleResult"
type_synonym 'n MultiSSHKeyResult = "('n, SSHKey) MultiResult"
type_synonym ('n, 'f) SingleCoordinateResult = "('n, 'f api_Coordinate) SingleResult"
type_synonym ('n, 'f) MultiCoordinateResult = "('n, 'f api_Coordinate) MultiResult"
type_synonym ('n, 'f) SingleNumberResult = "('n, 'f) SingleResult"
type_synonym ('n, 'f) MultiNumberResult = "('n, 'f) MultiResult"

text \<open>An element type: its JSON form both ways, and its zero value.\<close>

record ('n, 'a) codec =
  enc :: "'a \<Rightarrow> 'n json"
  dec :: "'n json \<Rightarrow> 'a option"
  zero_value :: 'a

definition decode_single :: "('n, 'a) codec \<Rightarrow> 'n json \<Rightarrow> ('n, 'a) SingleResult option" where
  "decode_single el = decode_struct
     [(''meta'', set_field decode_Meta (\<lambda>v x. x\<lparr>s_Meta := v\<rparr>)),
      (''result'', set_field (dec el) (\<lambda>v x. x\<lparr>Result := v\<rparr>))]
     \<lparr>s_Meta = zero_Meta, Result = zero_value el\<rparr>"

definition decode_multi :: "('n, 'a) codec \<Rightarrow> 'n json \<Rightarrow> ('n, 'a) MultiResult option" where
  "decode_multi el = decode_struct
     [(''meta'', set_field decode_Meta (\<lambda>v x. x\<lparr>m_Meta := v\<rparr>)),
      (''results'', set_field (dec_slice (dec el)) (\<lambda>v x. x\<lparr>Results := v\<rparr>))]
     \<lparr>m_Meta = zero_Meta, Results = []\<rparr>"

definition encode_single :: "('n, 'a) codec \<Rightarrow> ('n, 'a) SingleResult \<Rightarrow> 'n json" where
  "encode_single el x = JObj [(''meta'', encode_Meta (s_Meta x)), (''result'', enc el (Result x))]"

definition encode_multi :: "('n, 'a) codec \<Rightarrow> ('n, 'a) MultiResult \<Rightarrow> 'n json" where
  "encode_multi el x =
     JObj [(''meta'', encode_Meta (m_Meta x)), (''results'', JArr (map (enc el) (Results x)))]"

section \<open>Element types\<close>

definition int_codec :: "('n, int) codec" where
  "int_codec = \<lparr>enc = JInt, dec = dec_int, zero_value = 0\<rparr>"

definition string_codec :: "('n, go_string) codec" where
  "string_codec = \<lparr>enc = JStr, dec = dec_string, zero_value = ''''\<rparr>"

definition encode_SSHKey :: "SSHKey \<Rightarrow> 'n json" where
  "encode_SSHKey k = JObj
     [(''fingerprint'', JStr (key_Fingerprint k)), (''private_key'', JStr (key_PrivateKey k)),
      (''public_key'', JStr (key_PublicKey k))]"

definition zero_SSHKey :: SSHKey where
  "zero_SSHKey = \<lparr>key_Fingerprint = '''', key_PrivateKey = '''', key_PublicKey = ''''\<rparr>"

definition decode_SSHKey :: "'n json \<Rightarrow> SSHKey option" where
  "decode_SSHKey = decode_struct
     [(''fingerprint'', set_field dec_string (\<lambda>s k. k\<lparr>key_Fingerprint := s\<rparr>)),
      (''private_key'', set_field dec_string (\<lambda>s k. k\<lparr>key_PrivateKey := s\<rparr>)),
      (''public_key'', set_field dec_string (\<lambda>s k. k\<lparr>key_PublicKey := s\<rparr>))] zero_SSHKey"

definition ssh_key_codec :: "('n, SSHKey) codec" where
  "ssh_key_codec = \<lparr>enc = encode_SSHKey, dec = decode_SSHKey, zero_value = zero_SSHKey\<rparr>"





section \<open>Unions\<close>

text \<open>
  The field \<open>union\<close> of a response body is a \<open>json.RawMessage\<close>, \<open>None\<close> for nil.  An \<open>As\<close> that fails returns
  an error; \<open>From\<close> replaces the message; \<open>Merge\<close> takes whatever \<open>runtime.JSONMerge\<close> returns.
\<close>

type_synonym 'n raw = "'n json option"
type_synonym 'n merge = "'n raw \<Rightarrow> 'n json \<Rightarrow> go_string option \<times> 'n raw"

record ('n, 'a) union_methods =
  AsSingle :: "'n raw \<Rightarrow> go_string + ('n, 'a) SingleResult"
  FromSingle :: "('n, 'a) SingleResult \<Rightarrow> 'n raw \<Rightarrow> go_string option \<times> 'n raw"
  MergeSingle :: "('n, 'a) SingleResult \<Rightarrow> 'n raw \<Rightarrow> go_string option \<times> 'n raw"
  AsMulti :: "'n raw \<Rightarrow> go_string + ('n, 'a) MultiResult"
  FromMulti :: "('n, 'a) MultiResult \<Rightarrow> 'n raw \<Rightarrow> go_string option \<times> 'n raw"
  MergeMulti :: "('n, 'a) MultiResult \<Rightarrow> 'n raw \<Rightarrow> go_string option \<times> 'n raw"
  MarshalJSON :: "'n raw \<Rightarrow> 'n json"
  UnmarshalJSON :: "'n json \<Rightarrow> 'n raw \<Rightarrow> go_string option \<times> 'n raw"

definition json_Unmarshal :: "('n json \<Rightarrow> 'b option) \<Rightarrow> 'n raw \<Rightarrow> go_string + 'b" where
  "json_Unmarshal decode u =
     (case u of
        None \<Rightarrow> Inl ''unexpected end of JSON input''
      | Some j \<Rightarrow> (case decode j of None \<Rightarrow> Inl ''json: cannot unmarshal'' | Some b \<Rightarrow> Inr b))"

definition one_or_many :: "'n merge \<Rightarrow> ('n, 'a) codec \<Rightarrow> ('n, 'a) union_methods" where
  "one_or_many merge el =
     \<lparr>AsSingle = json_Unmarshal (decode_single el),
      FromSingle = (\<lambda>v u. (None, Some (encode_single el v))),
      MergeSingle = (\<lambda>v u. merge u (encode_single el v)),
      AsMulti = json_Unmarshal (decode_multi el),
      FromMulti = (\<lambda>v u. (None, Some (encode_multi el v))),
      MergeMulti = (\<lambda>v u. merge u (encode_multi el v)),
      MarshalJSON = (\<lambda>u. case u of None \<Rightarrow> JNull | Some j \<Rightarrow> j),
      UnmarshalJSON = (\<lambda>j u. (None, Some j))\<rparr>"

definition GenerateColor200 :: "'n merge \<Rightarrow> ('n, go_string) union_methods" where
  "GenerateColor200 merge = one_or_many merge string_codec"


definition RollDice200 :: "'n merge \<Rightarrow> ('n, int) union_methods" where
  "RollDice200 merge = one_or_many merge int_codec"

definition GenerateLorem200 :: "'n merge \<Rightarrow> ('n, go_string) union_methods" where
  "GenerateLorem200 merge = one_or_many merge string_codec"

definition GenerateNumber200 :: "('n, 'f) codec \<Rightarrow> 'n merge \<Rightarrow> ('n, 'f) union_methods" where
  "GenerateNumber200 num32 merge = one_or_many merge num32"


definition GenerateSSHKey200 :: "'n merge \<Rightarrow> ('n, SSHKey) union_methods" where
  "GenerateSSHKey200 merge = one_or_many merge ssh_key_codec"

definition GenerateUUID200 :: "'n merge \<Rightarrow> ('n, go_string) union_methods" where
  "GenerateUUID200 merge = one_or_many merge string_codec"

definition GenerateWords200 :: "'n merge \<Rightarrow> ('n, go_string) union_methods" where
  "GenerateWords200 merge = one_or_many merge string_codec"

section \<open>Reading back\<close>

lemma field_names [simp]:
  "fold_name ''result'' = ''result''" "fold_name ''results'' = ''results''"
  "fold_name ''meta'' = ''meta''" "fold_name ''endpoint'' = ''endpoint''"
  "fold_name ''params'' = ''params''" "fold_name ''request_id'' = ''request_id''"
  "fold_name ''timestamp'' = ''timestamp''" "fold_name ''fingerprint'' = ''fingerprint''"
  "fold_name ''private_key'' = ''private_key''" "fold_name ''public_key'' = ''public_key''"
  "fold_name ''lat'' = ''lat''" "fold_name ''lon'' = ''lon''"
  by code_simp+

lemma set_field_value: "v \<noteq> JNull \<Longrightarrow> set_field d upd v x = map_option (\<lambda>b. upd b x) (d v)"
  by (cases v) (simp_all add: set_field_def)

lemma set_field_simps [simp]:
  "set_field d upd (JStr s) x = map_option (\<lambda>b. upd b x) (d (JStr s))"
  "set_field d upd (JInt i) x = map_option (\<lambda>b. upd b x) (d (JInt i))"
  "set_field d upd (JArr js) x = map_option (\<lambda>b. upd b x) (d (JArr js))"
  "set_field d upd (JObj ms) x = map_option (\<lambda>b. upd b x) (d (JObj ms))"
  by (simp_all add: set_field_value)

lemmas struct_simps = decode_struct_def set_member_def set_pointer_def

declare fold_name.simps [simp del]

lemma set_member_Cons [simp]:
  "set_member ((name, f) # spec) k v x = (if fold_name k = name then f v x else set_member spec k v x)"
  "set_member [] k v x = Some x"
  by (simp_all add: set_member_def)

lemma decode_struct_JObj [simp]:
  "decode_struct spec z (JObj ms) =
     fold (\<lambda>(k, v) cur. Option.bind cur (set_member spec k v)) ms (Some z)"
  by (simp add: decode_struct_def)


lemma those_map:
  "(\<And>x. x \<in> set xs \<Longrightarrow> f x = Some (g x)) \<Longrightarrow> those (map f xs) = Some (map g xs)"
  by (induction xs) auto

lemma meta_body_not_null [simp]: "meta_body r ps now \<noteq> JNull"
  by (simp add: meta_body_def)






section \<open>Problems\<close>




lemma problem_names [simp]:
  "fold_name ''code'' = ''code''" "fold_name ''detail'' = ''detail''"
  "fold_name ''instance'' = ''instance''" "fold_name ''retry_after'' = ''retry_after''"
  "fold_name ''status'' = ''status''" "fold_name ''title'' = ''title''"
  "fold_name ''type'' = ''type''"
  by code_simp+

lemma set_pointer_simps [simp]:
  "set_pointer d upd (JStr s) x = map_option (\<lambda>b. upd (Some b) x) (d (JStr s))"
  "set_pointer d upd (JInt i) x = map_option (\<lambda>b. upd (Some b) x) (d (JInt i))"
  by (simp_all add: set_pointer_def)


section \<open>Conformance\<close>



lemma coordinate_json_not_null [simp]: "coordinate_json num p \<noteq> JNull"
  by (simp add: coordinate_json_def)






lemma decode_encode_Meta: "decode_Meta (encode_Meta m) = Some m"
  by (cases m; cases "RequestId m")
    (simp_all add: decode_Meta_def encode_Meta_def pointer_member_def set_pointer_def zero_Meta_def)

lemma encode_Meta_not_null [simp]: "encode_Meta m \<noteq> JNull"
  by (simp add: encode_Meta_def)

lemma one_or_many_round_trip:
  "dec el (enc el (Result v)) = Some (Result v) \<Longrightarrow> enc el (Result v) \<noteq> JNull \<Longrightarrow>
    AsSingle (one_or_many merge el) (snd (FromSingle (one_or_many merge el) v u)) = Inr v"
  "(\<And>x. x \<in> set (Results w) \<Longrightarrow> dec el (enc el x) = Some x) \<Longrightarrow>
    AsMulti (one_or_many merge el) (snd (FromMulti (one_or_many merge el) w u)) = Inr w"
  using those_map [of "Results w" "\<lambda>x. dec el (enc el x)" "\<lambda>x. x"]
  by (simp_all add: one_or_many_def json_Unmarshal_def encode_single_def encode_multi_def
      decode_single_def decode_multi_def decode_encode_Meta set_field_value dec_slice_def comp_def)

lemma decode_encode_SSHKey: "decode_SSHKey (encode_SSHKey k) = Some k" "encode_SSHKey k \<noteq> JNull"
  by (simp_all add: decode_SSHKey_def encode_SSHKey_def zero_SSHKey_def)

lemma codec_laws:
  "int64 n \<Longrightarrow> dec int_codec (enc int_codec n) = Some n" "enc int_codec n \<noteq> JNull"
  "dec string_codec (enc string_codec t) = Some t" "enc string_codec t \<noteq> JNull"
  "dec ssh_key_codec (enc ssh_key_codec k) = Some k" "enc ssh_key_codec k \<noteq> JNull"
  by (simp_all add: int_codec_def dec_int_def string_codec_def ssh_key_codec_def decode_encode_SSHKey)

lemma empty_union:
  "\<not> is_ok (AsSingle (one_or_many merge el) None)" "\<not> is_ok (AsMulti (one_or_many merge el) None)"
  by (simp_all add: one_or_many_def json_Unmarshal_def)

text \<open>
  The unions keep what is put into them.  A result that \<open>From\<close> stores, \<open>As\<close> returns, with its meta data
  whether or not it has a request id, for every element type whose JSON form is read back; \<open>As\<close> of an
  empty union is an error.
\<close>

theorem unions_round_trip:
  assumes "int64 (Result i)" "list_all int64 (Results is)"
  shows "AsSingle (RollDice200 mg) (snd (FromSingle (RollDice200 mg) i u)) = Inr i \<and>
    AsMulti (RollDice200 mg) (snd (FromMulti (RollDice200 mg) is u)) = Inr is \<and>
    AsSingle (GenerateColor200 mg) (snd (FromSingle (GenerateColor200 mg) s u)) = Inr s \<and>
    AsMulti (GenerateColor200 mg) (snd (FromMulti (GenerateColor200 mg) ss u)) = Inr ss \<and>
    AsSingle (GenerateSSHKey200 mg) (snd (FromSingle (GenerateSSHKey200 mg) k u)) = Inr k \<and>
    AsMulti (GenerateSSHKey200 mg) (snd (FromMulti (GenerateSSHKey200 mg) ks u)) = Inr ks \<and>
    \<not> is_ok (AsSingle (GenerateColor200 mg) None) \<and> \<not> is_ok (AsMulti (GenerateColor200 mg) None)"
  using assms unfolding RollDice200_def GenerateColor200_def GenerateSSHKey200_def
  by (intro conjI one_or_many_round_trip) (auto simp: list_all_iff codec_laws empty_union)

theorem unions_round_trip_witness:
  "AsMulti (RollDice200 (\<lambda>u j. (None, u))) (snd (FromMulti (RollDice200 (\<lambda>u j. (None, u)))
    \<lparr>m_Meta = zero_Meta :: unit Meta, Results = [1, 2, 3]\<rparr> None)) = Inr \<lparr>m_Meta = zero_Meta :: unit Meta, Results = [1, 2, 3]\<rparr>"
  using unions_round_trip [of "\<lparr>s_Meta = zero_Meta :: unit Meta, Result = 0\<rparr>"
      "\<lparr>m_Meta = zero_Meta :: unit Meta, Results = [1, 2, 3]\<rparr>" "\<lambda>u j. (None, u)" None]
  by (simp add: int64_def)

end
