(* ===== verification/Spec2Isabelle.thy ===== *)
theory Spec2Isabelle
  imports Startup_Properties Api_Contract Api_Types
begin

text \<open>
  A model of the ZaaS API server (\<open>src/api\<close>, Go) and its correctness.

  The program.  ZaaS answers \<open>GET\<close> requests below \<open>/api/v1\<close> with random values (dice, coins, numbers,
  UUIDs, colors, passwords, words, lorem ipsum, SSH keys, coordinates).  A client may register an
  address, verify it with a token from a mail, and then use an API key that carries a rate limit of its
  own; anonymous clients are limited by address.  The parts, from the outside in:

    \<^item> \<open>cmd/server/main.go\<close> starts telemetry, the database, the mail sender and the rate limiter, serves,
      and closes them (\<open>Process\<close>, \<open>Telemetry\<close>, \<open>Startup\<close>; \<open>config/config.go\<close> is \<open>Config_Env\<close>);
    \<^item> \<open>handler/router.go\<close> routes a request through access log, CORS, authentication and rate limits to
      a handler (\<open>Router\<close>; \<open>middleware/*.go\<close> is \<open>Middleware\<close>, \<open>handler/respond.go\<close> is \<open>Http\<close>);
    \<^item> \<open>gen/openapi.gen.go\<close> binds query parameters (\<open>Api_Params\<close>) and holds the types, enumerations
      and routes of the API description (\<open>Api_Types\<close>, \<open>Api_Contract\<close>);
    \<^item> \<open>handler/server.go\<close> and the probes resolve defaults and call the services (\<open>Handler_Server\<close>);
    \<^item> \<open>service/*.go\<close> makes the values (\<open>Service_Numbers\<close>, \<open>Service_Keys\<close>, \<open>Service_Text\<close>,
      \<open>Service_Ids\<close>, \<open>Service_Float\<close>, with \<open>Wordlists\<close> and the errors of \<open>Service_Errors\<close>);
    \<^item> \<open>handler/auth.go\<close> is the account flow (\<open>Handler_Auth\<close>), over \<open>store/*.go\<close>
      (\<open>Store_Postgres\<close>) and \<open>email/email.go\<close> (\<open>Email_Msg\<close>);
    \<^item> \<open>ratelimiter/*.go\<close> is the sliding window in process (\<open>Limiter_Memory\<close>) and in Redis
      (\<open>Limiter_Redis\<close>), with the contract of both in \<open>Rate_Limiter\<close>.

  \<open>Zaas_Prelude\<close>, \<open>Go_Strings\<close> and \<open>Go_Random\<close> hold the shared names, Go's 64-bit integers, the
  used part of Go's string packages, and the random sources.

  How state and operations correspond.  Definitions keep the source's names.  A Go string is a list of
  bytes, an \<open>int\<close> an integer with its wrap-around written out where it can occur, a \<open>float64\<close> a rational
  with the machine's rounding as a parameter, \<open>(T, error)\<close> a sum, a panic \<open>None\<close> or the flag
  \<open>panicked\<close>.  \<open>World\<close> gathers what a running server acts on (tables, limiters, outbox) and what it
  reads (clock, entropy, and how each statement, mail and Redis call ends, as tapes); a handler is a
  function on the connection, that is the world and the response writer.  A theorem for all worlds
  therefore covers every failure of every backend.  \<open>Server_Runs\<close> runs requests one after the other,
  with passes of the clean-up goroutines in between; \<open>Process\<close> adds the calls of start and stop, whose
  outcomes are a tape too.  Below the handlers, \<open>Store_Lifecycle\<close> treats every interleaving of single
  SQL statements, and the limiters every interleaving of their atomic operations.  All functions are
  total; no fuel is used.

  Interfaces.  Contracts are locales, each interpreted on the model's definitions: a generator of the
  service layer (\<open>Go_Random\<close>), the sliding window and the sorted-set commands of Redis
  (\<open>Rate_Limiter\<close>, \<open>Limiter_Redis\<close>), a resource that is taken once (\<open>Single_Use\<close>), middlewares that
  hand on or answer (\<open>Middleware\<close>), handlers that leave the tables alone (\<open>Handler_Server\<close>), and
  relations a router keeps when its handlers do (\<open>Router\<close>).

  What is proved.

    \<^item> Rate limits: neither backend admits more than the limit in any minute, both take the same
      decisions, keys do not influence each other, a denied key gets through at the reported reset, and
      the auth endpoints of a running server see at most five requests of an address a minute
      (\<open>Limiter_Memory\<close>, \<open>Limiter_Equiv\<close>, \<open>Auth_Rate\<close>).
    \<^item> Accounts: a token is consumed once and an address gets one key in every history of statements; what
      a successful verification means; that the key it returns works and a revoked one never does; that
      responses do not reveal who is registered; and that the re-issue flow, as it is written, revokes the
      old key and can never grant a new one (\<open>Store_Lifecycle\<close>, \<open>Auth_Facts\<close>, \<open>Auth_Outcome\<close>,
      \<open>Auth_Properties\<close>).
    \<^item> Middlewares: who passes \<open>Auth\<close> and \<open>AdminAuth\<close>, what a limiter's verdict does, which address an
      anonymous client is counted under, which origins CORS allows (\<open>Middleware_Properties\<close>).
    \<^item> Endpoints: for each, the exact condition and kind of every error and what the values of a 200 look
      like (\<open>Endpoint_Properties\<close>); that the generated types read the responses back, and that
      validation and routes agree with the API description (\<open>Api_Types\<close>, \<open>Api_Contract\<close>).
    \<^item> The composition: who can change anything through the router, that no outage makes a randomness
      endpoint a server error, and for a whole life of the program the order of start and stop, the
      resources that are closed, the accounts, and that nobody registers without an admin token
      (\<open>Server_Properties\<close>, \<open>Startup_Facts\<close>, \<open>Startup_Properties\<close>).

  Parameters and what is asked of them.  SHA-256 gives 32 bytes (\<open>sha256_sized\<close>); where two keys are
  told apart, the theorem says so itself.  The rounding of the machine is monotone and exact on small
  integers (\<open>rounds\<close>).  \<open>uuid.New\<close> makes version 4 texts, the SSH library ends a public key with a line
  feed (\<open>uuid_library\<close>, \<open>ssh_library_lines\<close>).  The Redis commands have their documented effect, the
  server shares the clients' clock, and the nonces of a run differ (\<open>redis_server\<close>, \<open>redis_start\<close>).
  chi finds the exact route before a mounted router and otelhttp is transparent (\<open>router_ok\<close>).  The
  parsers and encoders of the library (\<open>net/mail\<close>, \<open>html/template\<close>, quoted-printable, the query
  binder, \<open>runtime.JSONMerge\<close>) are arbitrary functions.  Each hypothesis is met by a concrete function in
  the witness of a theorem that has it.

  Not modelled.  Log lines, spans and counters, which no code reads; timeouts and cancelled contexts,
  but as failed calls; two requests inside one handler at the same time above the level of statements
  and limiter operations; \<open>embed.go\<close> of the migrations, one directive, whose SQL constraints are part of
  the statements; the error types of \<open>openapi.gen.go\<close> that no code makes; the web site, the
  infrastructure and the tests.
\<close>

end
